(* ===== verification/Prelude.thy ===== *)
theory Prelude
  imports Main "HOL-Library.Word" "HOL-Library.Code_Target_Nat"
begin

text \<open>
  Shared material of the development: the programs of the model (state and error passing, the
  shape of Go functions that return \<open>(value, error)\<close> and change the world), their algebra, the
  predicates \<open>keeps\<close> and \<open>stays\<close> that say what a program leaves alone, and a few lemmas on lists
  of rows.
\<close>

type_synonym int64 = "64 word"

section \<open>Programs with state and errors\<close>

text \<open>
  A Go function that reads and changes the world and returns \<open>(value, error)\<close> is a function from
  the state to an error or a value, and the new state.
\<close>

type_synonym ('s, 'e, 'a) prog = "'s \<Rightarrow> ('e + 'a) \<times> 's"

definition returnE :: "'a \<Rightarrow> ('s, 'e, 'a) prog" where
  "returnE a s = (Inr a, s)"

definition throwE :: "'e \<Rightarrow> ('s, 'e, 'a) prog" where
  "throwE e s = (Inl e, s)"

text \<open>\<open>x, err := m; if err != nil { return err }; f(x)\<close>\<close>

definition bindE :: "('s, 'e, 'a) prog \<Rightarrow> ('a \<Rightarrow> ('s, 'e, 'b) prog) \<Rightarrow> ('s, 'e, 'b) prog" where
  "bindE m f s = (case m s of (Inl e, s1) \<Rightarrow> (Inl e, s1) | (Inr a, s1) \<Rightarrow> f a s1)"

text \<open>\<open>if err != nil { h(err) }\<close>, where the handler may go on or fail.\<close>

definition handleE :: "('s, 'e, 'a) prog \<Rightarrow> ('e \<Rightarrow> ('s, 'f, 'a) prog) \<Rightarrow> ('s, 'f, 'a) prog" where
  "handleE m h s = (case m s of (Inl e, s1) \<Rightarrow> h e s1 | (Inr a, s1) \<Rightarrow> (Inr a, s1))"

text \<open>\<open>if err != nil { return g(err) }\<close>\<close>

definition onErr :: "('e \<Rightarrow> 'f) \<Rightarrow> ('s, 'e, 'a) prog \<Rightarrow> ('s, 'f, 'a) prog" where
  "onErr g m = handleE m (\<lambda>e. throwE (g e))"

text \<open>\<open>x, err := m; if err != nil { return h(err) }; f(x)\<close>, where the handler may return a value.\<close>

definition tryE :: "('s, 'e, 'a) prog \<Rightarrow> ('e \<Rightarrow> ('s, 'f, 'b) prog) \<Rightarrow> ('a \<Rightarrow> ('s, 'f, 'b) prog) \<Rightarrow> ('s, 'f, 'b) prog" where
  "tryE m h f s = (case m s of (Inl e, s1) \<Rightarrow> h e s1 | (Inr a, s1) \<Rightarrow> f a s1)"

text \<open>An effect that returns no error, and a pure function that may.\<close>

definition liftS :: "('s \<Rightarrow> 'a \<times> 's) \<Rightarrow> ('s, 'e, 'a) prog" where
  "liftS f s = (let (a, s1) = f s in (Inr a, s1))"

definition liftR :: "'e + 'a \<Rightarrow> ('s, 'e, 'a) prog" where
  "liftR r s = (r, s)"

text \<open>\<open>if c { return e }\<close>\<close>

definition failWhen :: "bool \<Rightarrow> 'e \<Rightarrow> ('s, 'e, unit) prog" where
  "failWhen c e s = ((if c then Inl e else Inr ()), s)"

named_theorems prog_simps \<open>how each program combinator returns\<close>

lemma returnE_eq [prog_simps]: "returnE a s = (r, s') \<longleftrightarrow> r = Inr a \<and> s' = s"
  by (auto simp: returnE_def)

lemma throwE_eq [prog_simps]: "throwE e s = (r, s') \<longleftrightarrow> r = Inl e \<and> s' = s"
  by (auto simp: throwE_def)

lemma liftR_eq [prog_simps]: "liftR q s = (r, s') \<longleftrightarrow> r = q \<and> s' = s"
  by (auto simp: liftR_def)

lemma liftS_eq [prog_simps]: "liftS f s = (r, s') \<longleftrightarrow> (\<exists>a. f s = (a, s') \<and> r = Inr a)"
  by (auto simp: liftS_def split: prod.splits)

lemma failWhen_eq [prog_simps]:
  "failWhen c e s = (r, s') \<longleftrightarrow> r = (if c then Inl e else Inr ()) \<and> s' = s"
  by (auto simp: failWhen_def)

lemma bindE_Inr [prog_simps]:
  "bindE m f s = (Inr b, s') \<longleftrightarrow> (\<exists>a s1. m s = (Inr a, s1) \<and> f a s1 = (Inr b, s'))"
  by (auto simp: bindE_def split: prod.splits sum.splits)

lemma bindE_Inl [prog_simps]:
  "bindE m f s = (Inl e, s') \<longleftrightarrow>
     m s = (Inl e, s') \<or> (\<exists>a s1. m s = (Inr a, s1) \<and> f a s1 = (Inl e, s'))"
  by (auto simp: bindE_def split: prod.splits sum.splits)

lemma handleE_Inr [prog_simps]:
  "handleE m h s = (Inr b, s') \<longleftrightarrow>
     m s = (Inr b, s') \<or> (\<exists>e s1. m s = (Inl e, s1) \<and> h e s1 = (Inr b, s'))"
  by (auto simp: handleE_def split: prod.splits sum.splits)

lemma handleE_Inl [prog_simps]:
  "handleE m h s = (Inl e', s') \<longleftrightarrow> (\<exists>e s1. m s = (Inl e, s1) \<and> h e s1 = (Inl e', s'))"
  by (auto simp: handleE_def split: prod.splits sum.splits)

lemma tryE_eq [prog_simps]:
  "tryE m h f s = (r, s') \<longleftrightarrow>
     (\<exists>e s1. m s = (Inl e, s1) \<and> h e s1 = (r, s')) \<or> (\<exists>a s1. m s = (Inr a, s1) \<and> f a s1 = (r, s'))"
  by (auto simp: tryE_def split: prod.splits sum.splits)

lemma onErr_Inr [prog_simps]: "onErr g m s = (Inr b, s') \<longleftrightarrow> m s = (Inr b, s')"
  by (auto simp: onErr_def throwE_def handleE_def split: prod.splits sum.splits)

lemma onErr_Inl [prog_simps]:
  "onErr g m s = (Inl e', s') \<longleftrightarrow> (\<exists>e. m s = (Inl e, s') \<and> e' = g e)"
  by (auto simp: onErr_def throwE_def handleE_def split: prod.splits sum.splits)

text \<open>Taking a successful run apart, step by step.\<close>

named_theorems run_elims \<open>what a successful run is made of\<close>

lemma bindE_InrE [run_elims]:
  "bindE m f s = (Inr b, s') \<Longrightarrow> (\<And>a s1. m s = (Inr a, s1) \<Longrightarrow> f a s1 = (Inr b, s') \<Longrightarrow> P) \<Longrightarrow> P"
  by (auto simp: bindE_Inr)

lemma onErr_InrE [run_elims]: "onErr g m s = (Inr b, s') \<Longrightarrow> (m s = (Inr b, s') \<Longrightarrow> P) \<Longrightarrow> P"
  by (simp add: onErr_Inr)

lemma liftR_InrE [run_elims]: "liftR q s = (Inr b, s') \<Longrightarrow> (q = Inr b \<Longrightarrow> s' = s \<Longrightarrow> P) \<Longrightarrow> P"
  by (simp add: liftR_eq)

lemma liftS_InrE [run_elims]: "liftS f s = (Inr b, s') \<Longrightarrow> (f s = (b, s') \<Longrightarrow> P) \<Longrightarrow> P"
  by (simp add: liftS_eq)

lemma failWhen_InrE [run_elims]:
  "failWhen c e s = (Inr b, s') \<Longrightarrow> (\<not> c \<Longrightarrow> s' = s \<Longrightarrow> P) \<Longrightarrow> P"
  by (simp add: failWhen_eq split: if_splits)

lemma returnE_InrE [run_elims]:
  "returnE a s = (Inr b, s') \<Longrightarrow> (b = a \<Longrightarrow> s' = s \<Longrightarrow> P) \<Longrightarrow> P"
  by (simp add: returnE_eq)

lemma throwE_InrE [run_elims]: "throwE e s = (Inr b, s') \<Longrightarrow> P"
  by (simp add: throwE_eq)

lemma case_prod_runE [run_elims]:
  "case_prod f p s = r \<Longrightarrow> (\<And>x y. p = (x, y) \<Longrightarrow> f x y s = r \<Longrightarrow> P) \<Longrightarrow> P"
  by (cases p) simp

lemma if_throwE [run_elims]:
  "(if c then throwE e else m) s = (Inr b, s') \<Longrightarrow> (\<not> c \<Longrightarrow> m s = (Inr b, s') \<Longrightarrow> P) \<Longrightarrow> P"
  by (simp add: throwE_def split: if_splits)

lemma case_option_runE [run_elims]:
  "case_option (throwE e) f x s = (Inr b, s') \<Longrightarrow> (\<And>y. x = Some y \<Longrightarrow> f y s = (Inr b, s') \<Longrightarrow> P) \<Longrightarrow> P"
  by (cases x) (simp_all add: throwE_def)

lemma tryE_throw_InrE [run_elims]:
  "tryE m (\<lambda>e. if c e then throwE (x e) else throwE (y e)) f s = (Inr b, s') \<Longrightarrow>
    (\<And>a s1. m s = (Inr a, s1) \<Longrightarrow> f a s1 = (Inr b, s') \<Longrightarrow> P) \<Longrightarrow> P"
  by (auto simp: tryE_eq throwE_eq split: if_splits)

text \<open>Forward execution: what a combinator does once the first program's result is known.\<close>

lemma bindE_step: "m s = (Inr a, s1) \<Longrightarrow> bindE m f s = f a s1"
  by (simp add: bindE_def)

lemma bindE_stop: "m s = (Inl e, s1) \<Longrightarrow> bindE m f s = (Inl e, s1)"
  by (simp add: bindE_def)

lemma onErr_step: "m s = (Inr a, s1) \<Longrightarrow> onErr g m s = (Inr a, s1)"
  by (simp add: onErr_def handleE_def)

lemma onErr_stop: "m s = (Inl e, s1) \<Longrightarrow> onErr g m s = (Inl (g e), s1)"
  by (simp add: onErr_def handleE_def throwE_def)

lemma tryE_step: "m s = (Inr a, s1) \<Longrightarrow> tryE m h f s = f a s1"
  by (simp add: tryE_def)

lemma tryE_stop: "m s = (Inl e, s1) \<Longrightarrow> tryE m h f s = h e s1"
  by (simp add: tryE_def)

lemma liftS_step: "g s = (a, s1) \<Longrightarrow> liftS g s = (Inr a, s1)"
  by (simp add: liftS_def)

lemma bindE_return [simp]: "bindE (returnE a) f = f a"
  by (auto simp: bindE_def returnE_def fun_eq_iff)

lemma bindE_throw [simp]: "bindE (throwE e) f = throwE e"
  by (auto simp: bindE_def throwE_def fun_eq_iff)

lemma bindE_assoc: "bindE (bindE m f) g = bindE m (\<lambda>a. bindE (f a) g)"
  by (auto simp: bindE_def fun_eq_iff split: prod.splits sum.splits)

section \<open>What a program leaves alone\<close>

text \<open>\<open>keeps \<phi> m\<close>: running \<open>m\<close>, whatever it returns, does not change the observation \<open>\<phi>\<close>.\<close>

definition keeps :: "('s \<Rightarrow> 'x) \<Rightarrow> ('s, 'e, 'a) prog \<Rightarrow> bool" where
  "keeps \<phi> m \<longleftrightarrow> (\<forall>s r s'. m s = (r, s') \<longrightarrow> \<phi> s' = \<phi> s)"

named_theorems keeps_intros \<open>rules for what programs leave alone\<close>

lemma keepsD: "keeps \<phi> m \<Longrightarrow> m s = (r, s') \<Longrightarrow> \<phi> s' = \<phi> s"
  by (auto simp: keeps_def)

lemma keepsI: "(\<And>s r s'. m s = (r, s') \<Longrightarrow> \<phi> s' = \<phi> s) \<Longrightarrow> keeps \<phi> m"
  by (auto simp: keeps_def)

lemma keeps_returnE [keeps_intros]: "keeps \<phi> (returnE a)"
  by (simp add: keeps_def prog_simps)

lemma keeps_throwE [keeps_intros]: "keeps \<phi> (throwE e)"
  by (simp add: keeps_def prog_simps)

lemma keeps_liftR [keeps_intros]: "keeps \<phi> (liftR r)"
  by (simp add: keeps_def prog_simps)

lemma keeps_failWhen [keeps_intros]: "keeps \<phi> (failWhen c e)"
  by (simp add: keeps_def prog_simps)

lemma keeps_bindE [keeps_intros]:
  "keeps \<phi> m \<Longrightarrow> (\<And>a. keeps \<phi> (f a)) \<Longrightarrow> keeps \<phi> (bindE m f)"
  unfolding keeps_def bindE_def by (fastforce split: prod.splits sum.splits)

lemma keeps_handleE [keeps_intros]:
  "keeps \<phi> m \<Longrightarrow> (\<And>e. keeps \<phi> (h e)) \<Longrightarrow> keeps \<phi> (handleE m h)"
  unfolding keeps_def handleE_def by (fastforce split: prod.splits sum.splits)

lemma keeps_tryE [keeps_intros]:
  "keeps \<phi> m \<Longrightarrow> (\<And>e. keeps \<phi> (h e)) \<Longrightarrow> (\<And>a. keeps \<phi> (f a)) \<Longrightarrow> keeps \<phi> (tryE m h f)"
  unfolding keeps_def tryE_def by (fastforce split: prod.splits sum.splits)

lemma keeps_onErr [keeps_intros]: "keeps \<phi> m \<Longrightarrow> keeps \<phi> (onErr g m)"
  unfolding onErr_def by (intro keeps_intros)

lemma keeps_if [keeps_intros]:
  "(c \<Longrightarrow> keeps \<phi> m) \<Longrightarrow> (\<not> c \<Longrightarrow> keeps \<phi> n) \<Longrightarrow> keeps \<phi> (if c then m else n)"
  by simp

lemma keeps_case_option [keeps_intros]:
  "keeps \<phi> m \<Longrightarrow> (\<And>x. keeps \<phi> (f x)) \<Longrightarrow> keeps \<phi> (case_option m f y)"
  by (cases y) simp_all

lemma keeps_case_prod [keeps_intros]:
  "(\<And>a b. keeps \<phi> (f a b)) \<Longrightarrow> keeps \<phi> (case_prod f p)"
  by (cases p) simp

section \<open>The errors of a program\<close>

text \<open>\<open>errs Q m\<close>: every error of \<open>m\<close> satisfies \<open>Q\<close>.\<close>

definition errs :: "('e \<Rightarrow> bool) \<Rightarrow> ('s, 'e, 'a) prog \<Rightarrow> bool" where
  "errs Q m \<longleftrightarrow> (\<forall>s e s'. m s = (Inl e, s') \<longrightarrow> Q e)"

named_theorems errs_intros \<open>rules for the errors of programs\<close>

lemma errsD: "errs Q m \<Longrightarrow> m s = (Inl e, s') \<Longrightarrow> Q e"
  by (auto simp: errs_def)

lemma errs_returnE [errs_intros]: "errs Q (returnE a)"
  by (simp add: errs_def returnE_def)

lemma errs_liftS [errs_intros]: "errs Q (liftS f)"
  by (auto simp: errs_def liftS_def split: prod.splits)

lemma errs_onErr [errs_intros]: "(\<And>e. Q (g e)) \<Longrightarrow> errs Q (onErr g m)"
  by (auto simp: errs_def onErr_Inl)

lemma errs_bindE [errs_intros]: "errs Q m \<Longrightarrow> (\<And>a. errs Q (f a)) \<Longrightarrow> errs Q (bindE m f)"
  unfolding errs_def bindE_Inl by blast

lemma errs_case_option [errs_intros]:
  "errs Q m \<Longrightarrow> (\<And>x. errs Q (f x)) \<Longrightarrow> errs Q (case_option m f y)"
  by (cases y) simp_all

lemma bindE_InlE:
  "bindE m f s = (Inl e, s') \<Longrightarrow> (m s = (Inl e, s') \<Longrightarrow> P) \<Longrightarrow>
    (\<And>a s1. m s = (Inr a, s1) \<Longrightarrow> f a s1 = (Inl e, s') \<Longrightarrow> P) \<Longrightarrow> P"
  by (auto simp: bindE_Inl)

lemma onErr_InlE: "onErr g m s = (Inl e, s') \<Longrightarrow> (\<And>e'. m s = (Inl e', s') \<Longrightarrow> e = g e' \<Longrightarrow> P) \<Longrightarrow> P"
  by (auto simp: onErr_Inl)

section \<open>Lists of rows\<close>

text \<open>A row is found by its key in a list whose keys are distinct.\<close>

lemma distinct_key_eq:
  "distinct (map k xs) \<Longrightarrow> x \<in> set xs \<Longrightarrow> y \<in> set xs \<Longrightarrow> k x = k y \<Longrightarrow> x = y"
  by (metis distinct_map inj_onD)

lemma map_of_row:
  "distinct (map k xs) \<Longrightarrow> x \<in> set xs \<Longrightarrow> map_of (map (\<lambda>r. (k r, v r)) xs) (k x) = Some (v x)"
  by (rule map_of_is_SomeI) (auto simp: comp_def)

text \<open>Replacing the row of one key.\<close>

definition replace_row :: "('r \<Rightarrow> bool) \<Rightarrow> 'r \<Rightarrow> 'r list \<Rightarrow> 'r list" where
  "replace_row p r = map (\<lambda>x. if p x then r else x)"

lemma replace_row_Nil [simp]: "replace_row p r [] = []"
  by (simp add: replace_row_def)

lemma replace_row_Cons [simp]:
  "replace_row p r (x # xs) = (if p x then r else x) # replace_row p r xs"
  by (simp add: replace_row_def)

lemma length_replace_row [simp]: "length (replace_row p r xs) = length xs"
  by (simp add: replace_row_def)

lemma map_replace_row_same:
  "(\<And>x. x \<in> set xs \<Longrightarrow> p x \<Longrightarrow> k x = k r) \<Longrightarrow> map k (replace_row p r xs) = map k xs"
  by (auto simp: replace_row_def)

lemma set_replace_row:
  "set (replace_row p r xs) = (if \<exists>x\<in>set xs. p x then {r} else {}) \<union> {x \<in> set xs. \<not> p x}"
  by (auto simp: replace_row_def)

lemma in_replace_row:
  "y \<in> set (replace_row p r xs) \<longleftrightarrow> (y = r \<and> (\<exists>x\<in>set xs. p x)) \<or> (y \<in> set xs \<and> \<not> p y)"
  by (auto simp: set_replace_row)

lemma replace_row_none: "\<forall>x\<in>set xs. \<not> p x \<Longrightarrow> replace_row p r xs = xs"
  by (induction xs) auto

lemma map_of_replace_row:
  assumes "\<And>x. x \<in> set xs \<Longrightarrow> p x \<longleftrightarrow> k x = k r" and "\<exists>x\<in>set xs. k x = k r"
  shows "map_of (map (\<lambda>x. (k x, v x)) (replace_row p r xs)) =
    (map_of (map (\<lambda>x. (k x, v x)) xs))(k r \<mapsto> v r)"
  using assms
proof (induction xs)
  case Nil
  then show ?case by simp
next
  case (Cons x xs)
  show ?case
  proof (cases "\<exists>y\<in>set xs. k y = k r")
    case True
    then have IH: "map_of (map (\<lambda>x. (k x, v x)) (replace_row p r xs)) =
      (map_of (map (\<lambda>x. (k x, v x)) xs))(k r \<mapsto> v r)"
      by (intro Cons.IH) (use Cons.prems(1) in simp_all)
    show ?thesis
      unfolding replace_row_Cons list.map map_of.simps
      using Cons.prems(1)[of x] by (auto simp: IH)
  next
    case False
    with Cons.prems have "k x = k r" "p x" and none: "\<forall>y\<in>set xs. \<not> p y" by auto
    with replace_row_none [OF none] show ?thesis by (simp add: fun_eq_iff)
  qed
qed

text \<open>Sums over a list in which one row is replaced.\<close>

lemma sum_list_replace_row:
  fixes f :: "'r \<Rightarrow> 'a::ab_group_add"
  assumes "distinct (map k xs)" "x \<in> set xs"
    and "\<And>y. y \<in> set xs \<Longrightarrow> p y \<longleftrightarrow> k y = k x"
  shows "sum_list (map f (replace_row p r xs)) = sum_list (map f xs) - f x + f r"
  using assms
proof (induction xs)
  case Nil
  then show ?case by simp
next
  case (Cons z xs)
  show ?case
  proof (cases "x = z")
    case True
    have "\<forall>y\<in>set xs. \<not> p y"
    proof
      fix y assume "y \<in> set xs"
      moreover from this have "k y \<noteq> k z" using Cons.prems(1) by (metis distinct.simps(2) image_eqI list.simps(9) list.set_map)
      ultimately show "\<not> p y" using Cons.prems(3)[of y] True by simp
    qed
    with replace_row_none [of xs p r] True Cons.prems(3)[of z] show ?thesis by simp
  next
    case False
    with Cons.prems have "x \<in> set xs" "k z \<noteq> k x" by auto
    with Cons False show ?thesis by (auto simp: algebra_simps)
  qed
qed

end
