(* ===== verification/Strconv.thy ===== *)
theory Strconv
  imports Prelude
begin

text \<open>
  The parts of Go's strings and strconv packages the program uses: \<open>FormatInt(i, 10)\<close> and
  \<open>ParseInt(s, 10, 64)\<close> (which is also \<open>Atoi\<close> on a 64-bit platform), \<open>ToLower\<close> and \<open>Contains\<close>.
  Strings are lists of bytes. \<open>ParseInt\<close> accepts an optional sign and at least one decimal digit,
  reports a syntax error otherwise, and a range error outside the 64-bit range.
\<close>

section \<open>Decimal digits\<close>

definition digit_char :: "nat \<Rightarrow> char" where
  "digit_char n = char_of (48 + n)"

definition is_digit :: "char \<Rightarrow> bool" where
  "is_digit c \<longleftrightarrow> 48 \<le> (of_char c :: nat) \<and> (of_char c :: nat) \<le> 57"

definition digit_val :: "char \<Rightarrow> nat" where
  "digit_val c = of_char c - 48"

lemma of_char_digit_char: "n < 10 \<Longrightarrow> (of_char (digit_char n) :: nat) = 48 + n"
  by (simp add: digit_char_def)

lemma is_digit_digit_char [simp]: "n < 10 \<Longrightarrow> is_digit (digit_char n)"
  by (simp add: is_digit_def of_char_digit_char)

lemma digit_val_digit_char [simp]: "n < 10 \<Longrightarrow> digit_val (digit_char n) = n"
  by (simp add: digit_val_def of_char_digit_char)

fun dec :: "nat \<Rightarrow> string" where
  "dec n = (if n < 10 then [digit_char n] else dec (n div 10) @ [digit_char (n mod 10)])"

declare dec.simps [simp del]

definition undec :: "string \<Rightarrow> nat" where
  "undec s = foldl (\<lambda>a c. a * 10 + digit_val c) 0 s"

lemma dec_digits: "list_all is_digit (dec n)"
proof (induction n rule: dec.induct)
  case (1 n)
  then show ?case by (subst dec.simps) simp
qed

lemma dec_nonempty [simp]: "dec n \<noteq> []"
  by (subst dec.simps) simp

lemma undec_snoc: "undec (s @ [c]) = undec s * 10 + digit_val c"
  by (simp add: undec_def)

lemma undec_dec [simp]: "undec (dec n) = n"
proof (induction n rule: dec.induct)
  case (1 n)
  show ?case
  proof (cases "n < 10")
    case True
    then show ?thesis by (subst dec.simps) (simp add: undec_def)
  next
    case False
    with "1" have "undec (dec (n div 10)) = n div 10" by simp
    with False show ?thesis by (subst dec.simps) (simp add: undec_snoc)
  qed
qed

section \<open>FormatInt and ParseInt\<close>

datatype num_error = ErrSyntax | ErrRange

definition FormatInt :: "int64 \<Rightarrow> string" where
  "FormatInt i = (if sint i < 0 then CHR ''-'' # dec (nat (- sint i)) else dec (nat (sint i)))"

definition ParseInt :: "string \<Rightarrow> num_error + int64" where
  "ParseInt s =
    (let neg = (case s of c # _ \<Rightarrow> c = CHR ''-'' | [] \<Rightarrow> False);
         signed = (case s of c # _ \<Rightarrow> c = CHR ''-'' \<or> c = CHR ''+'' | [] \<Rightarrow> False);
         ds = (if signed then tl s else s);
         n = undec ds
     in if ds = [] \<or> \<not> list_all is_digit ds then Inl ErrSyntax
        else if neg then (if n \<le> 2 ^ 63 then Inr (word_of_int (- int n)) else Inl ErrRange)
        else (if n < 2 ^ 63 then Inr (word_of_int (int n)) else Inl ErrRange))"

lemma sint_bounds64: "- (2 ^ 63) \<le> sint (i :: int64)" "sint (i :: int64) < 2 ^ 63"
  using sint_range_size[of i] by (simp_all add: size_word_def)

lemma hd_dec_not_sign: "dec n = c # s \<Longrightarrow> c \<noteq> CHR ''-'' \<and> c \<noteq> CHR ''+''"
  using dec_digits[of n] by (auto simp: is_digit_def)

lemma ParseInt_unsigned:
  "ds \<noteq> [] \<Longrightarrow> list_all is_digit ds \<Longrightarrow> undec ds < 2 ^ 63 \<Longrightarrow>
    ParseInt ds = Inr (word_of_int (int (undec ds)))"
  by (cases ds) (auto simp: ParseInt_def Let_def is_digit_def)

lemma ParseInt_negative:
  "ds \<noteq> [] \<Longrightarrow> list_all is_digit ds \<Longrightarrow> undec ds \<le> 2 ^ 63 \<Longrightarrow>
    ParseInt (CHR ''-'' # ds) = Inr (word_of_int (- int (undec ds)))"
  by (auto simp: ParseInt_def Let_def)

lemma ParseInt_FormatInt [simp]: "ParseInt (FormatInt i) = Inr i"
proof (cases "sint i < 0")
  case True
  then have "nat (- sint i) \<le> 2 ^ 63" using sint_bounds64(1)[of i] by simp
  with True show ?thesis
    using ParseInt_negative[of "dec (nat (- sint i))"] by (simp add: FormatInt_def dec_digits)
next
  case False
  then have "nat (sint i) < 2 ^ 63" using sint_bounds64(2)[of i] by simp
  with False show ?thesis
    using ParseInt_unsigned[of "dec (nat (sint i))"] by (simp add: FormatInt_def dec_digits)
qed

lemma FormatInt_inject: "FormatInt i = FormatInt j \<longleftrightarrow> i = j"
  by (metis ParseInt_FormatInt sum.inject(2))

lemma ParseInt_empty: "ParseInt [] = Inl ErrSyntax"
  by (simp add: ParseInt_def)

section \<open>ToLower and Contains\<close>

text \<open>On ASCII bytes; the program compares English error texts and ASCII object keys.\<close>

definition lower_char :: "char \<Rightarrow> char" where
  "lower_char c = (if 65 \<le> (of_char c :: nat) \<and> (of_char c :: nat) \<le> 90
     then char_of ((of_char c :: nat) + 32) else c)"

definition ToLower :: "string \<Rightarrow> string" where
  "ToLower = map lower_char"

fun HasPrefix :: "string \<Rightarrow> string \<Rightarrow> bool" where
  "HasPrefix s [] = True"
| "HasPrefix [] (p # ps) = False"
| "HasPrefix (c # s) (p # ps) = (c = p \<and> HasPrefix s ps)"

fun Contains :: "string \<Rightarrow> string \<Rightarrow> bool" where
  "Contains [] p = HasPrefix [] p"
| "Contains (c # s) p = (HasPrefix (c # s) p \<or> Contains s p)"

lemma HasPrefix_append: "HasPrefix (p @ s) p"
  by (induction p) auto

lemma Contains_infix: "Contains (a @ p @ b) p"
proof (induction a)
  case Nil
  then show ?case using HasPrefix_append[of p b] by (cases "p @ b") auto
next
  case (Cons x a)
  then show ?case by simp
qed

end
