(* ===== verification/AppError.thy ===== *)
theory AppError
  imports Strconv
begin

text \<open>
  JSON values, the Go \<open>error\<close> values that flow through the program, and the package
  \<open>internal/apperror\<close>. An \<open>*AppError\<close> is an \<open>app_error option\<close> (\<open>None\<close> is the nil pointer);
  an \<open>error\<close> interface value is a \<open>go_error\<close>, one constructor for each dynamic type the code
  distinguishes.
\<close>

section \<open>JSON values\<close>

text \<open>A number is kept as its literal text, as the decoder of Go hands it to \<open>ParseInt\<close>.\<close>

datatype json =
  JNull
| JBool bool
| JNum string
| JStr string
| JArr "json list"
| JObj "(string \<times> json) list"

section \<open>Errors\<close>

datatype app_error =
  AppError (StatusCode: int) (Code: string) (Message: string) (Details: "json option")
    (Err: "go_error option")
and go_error =
  AppErr app_error
| ErrRecordNotFound
| PgError (PgCode: string) (PgText: string)
| PlainError string
| WrapError string go_error

definition StatusBadRequest :: int where "StatusBadRequest = 400"
definition StatusNotFound :: int where "StatusNotFound = 404"
definition StatusConflict :: int where "StatusConflict = 409"
definition StatusUnprocessableEntity :: int where "StatusUnprocessableEntity = 422"
definition StatusInternalServerError :: int where "StatusInternalServerError = 500"

lemmas status_defs = StatusBadRequest_def StatusNotFound_def StatusConflict_def
  StatusUnprocessableEntity_def StatusInternalServerError_def

subsection \<open>Methods of AppError\<close>

definition AppError_Error :: "app_error option \<Rightarrow> string" where
  "AppError_Error e = (case e of None \<Rightarrow> [] | Some a \<Rightarrow> Message a)"

definition AppError_Unwrap :: "app_error option \<Rightarrow> go_error option" where
  "AppError_Unwrap e = (case e of None \<Rightarrow> None | Some a \<Rightarrow> Err a)"

definition WithDetails :: "app_error option \<Rightarrow> json \<Rightarrow> app_error option" where
  "WithDetails e details = (case e of None \<Rightarrow> None
     | Some a \<Rightarrow> Some (AppError (StatusCode a) (Code a) (Message a) (Some details) (Err a)))"

definition WithErr :: "app_error option \<Rightarrow> go_error \<Rightarrow> app_error option" where
  "WithErr e err = (case e of None \<Rightarrow> None
     | Some a \<Rightarrow> Some (AppError (StatusCode a) (Code a) (Message a) (Details a) (Some err)))"

definition As :: "go_error option \<Rightarrow> app_error option \<times> bool" where
  "As err = (case err of None \<Rightarrow> (None, False)
     | Some e \<Rightarrow> (case e of AppErr a \<Rightarrow> (Some a, True) | _ \<Rightarrow> (None, False)))"

subsection \<open>Constructors\<close>

definition BadRequest :: "string \<Rightarrow> app_error" where
  "BadRequest message = AppError StatusBadRequest ''bad_request'' message None None"

definition Validation :: "string \<Rightarrow> app_error" where
  "Validation message =
     AppError StatusUnprocessableEntity ''validation_error'' message None None"

definition NotFound :: "string \<Rightarrow> app_error" where
  "NotFound message = AppError StatusNotFound ''resource_not_found'' message None None"

definition Conflict :: "string \<Rightarrow> app_error" where
  "Conflict message = AppError StatusConflict ''resource_conflict'' message None None"

definition IdempotencyConflict :: app_error where
  "IdempotencyConflict = AppError StatusConflict ''idempotency_conflict''
     ''idempotency key was already used for a different request'' None None"

definition InsufficientFunds :: app_error where
  "InsufficientFunds = AppError StatusUnprocessableEntity ''insufficient_funds''
     ''wallet balance is insufficient'' None None"

definition WalletNotActive :: app_error where
  "WalletNotActive = AppError StatusUnprocessableEntity ''wallet_not_active''
     ''wallet is not active'' None None"

definition AlreadyReversed :: app_error where
  "AlreadyReversed = AppError StatusConflict ''already_reversed''
     ''transaction has already been reversed'' None None"

definition Internal :: "go_error \<Rightarrow> app_error" where
  "Internal err =
     AppError StatusInternalServerError ''internal_error'' ''internal server error'' None (Some err)"

lemmas app_error_defs = BadRequest_def Validation_def NotFound_def Conflict_def
  IdempotencyConflict_def InsufficientFunds_def WalletNotActive_def AlreadyReversed_def
  Internal_def

subsection \<open>Error texts and chains (package errors)\<close>

text \<open>\<open>fmt.Errorf("... %w", err)\<close> keeps its whole text and the error it wraps.\<close>

fun Error :: "go_error \<Rightarrow> string" where
  "Error (AppErr a) = AppError_Error (Some a)"
| "Error ErrRecordNotFound = ''record not found''"
| "Error (PgError c t) = t"
| "Error (PlainError t) = t"
| "Error (WrapError t e) = t"

definition Errorf :: "string \<Rightarrow> go_error \<Rightarrow> go_error" where
  "Errorf prefix err = WrapError (prefix @ '': '' @ Error err) err"

text \<open>The chain \<open>errors.Is\<close> and \<open>errors.As\<close> search.\<close>

fun chain :: "go_error \<Rightarrow> go_error list" where
  "chain (AppErr (AppError st c m d None)) = [AppErr (AppError st c m d None)]"
| "chain (AppErr (AppError st c m d (Some e))) = AppErr (AppError st c m d (Some e)) # chain e"
| "chain ErrRecordNotFound = [ErrRecordNotFound]"
| "chain (PgError c t) = [PgError c t]"
| "chain (PlainError t) = [PlainError t]"
| "chain (WrapError t e) = WrapError t e # chain e"

definition errors_Is :: "go_error \<Rightarrow> go_error \<Rightarrow> bool" where
  "errors_Is err target \<longleftrightarrow> List.member (chain err) target"

fun first_pg :: "go_error list \<Rightarrow> (string \<times> string) option" where
  "first_pg [] = None"
| "first_pg (e # es) = (case e of PgError c t \<Rightarrow> Some (c, t) | _ \<Rightarrow> first_pg es)"

definition errors_As_PgError :: "go_error \<Rightarrow> (string \<times> string) option" where
  "errors_As_PgError err = first_pg (chain err)"

section \<open>Laws of the package\<close>

text \<open>Every constructor's status belongs to the family its code names, and codes tell them apart.\<close>

lemma As_AppErr [simp]: "As (Some (AppErr a)) = (Some a, True)"
  by (simp add: As_def)

lemma Unwrap_WithErr [simp]: "AppError_Unwrap (WithErr (Some a) e) = Some e"
  by (simp add: WithErr_def AppError_Unwrap_def)

lemma WithErr_WithDetails_commute:
  "WithErr (WithDetails e d) err = WithDetails (WithErr e err) d"
  by (simp add: WithErr_def WithDetails_def split: option.splits)

lemma chain_self: "e \<in> set (chain e)"
  by (induction e rule: chain.induct) auto

lemma errors_Is_Internal: "errors_Is (AppErr (Internal e)) t \<longleftrightarrow> t = AppErr (Internal e) \<or> errors_Is e t"
  by (auto simp: errors_Is_def Internal_def)

end
