(* ===== verification/Model.thy ===== *)
theory Model
  imports AppError
begin

text \<open>
  The rows of \<open>internal/model\<close>: one record per table, the status constants, and the uniqueness
  that the gorm tags of each model declare. \<open>BaseModel\<close> is embedded by record extension. A status
  is a string, as in the source: the empty string is the unset value the hooks replace.
\<close>

type_synonym uuid = "128 word"
type_synonym time = int  \<comment> \<open>nanoseconds; \<open>0\<close> is Go's zero time\<close>

text \<open>A metadata map: \<open>None\<close> is the nil map.\<close>

type_synonym json_map = "(string \<times> json) list option"

definition uuid_Nil :: uuid where "uuid_Nil = 0"
definition SystemUserID :: uuid where "SystemUserID = 1"
definition SystemWalletID :: uuid where "SystemWalletID = 2"
definition CurrencyTHB :: string where "CurrencyTHB = ''THB''"

definition UserStatusActive :: string where "UserStatusActive = ''active''"
definition UserStatusInactive :: string where "UserStatusInactive = ''inactive''"

definition WalletStatusActive :: string where "WalletStatusActive = ''active''"
definition WalletStatusSuspended :: string where "WalletStatusSuspended = ''suspended''"
definition WalletStatusClosed :: string where "WalletStatusClosed = ''closed''"

definition TransactionTypeTopUp :: string where "TransactionTypeTopUp = ''topup''"
definition TransactionTypeTransfer :: string where "TransactionTypeTransfer = ''transfer''"
definition TransactionTypeReversal :: string where "TransactionTypeReversal = ''reversal''"

definition TransactionStatusPending :: string where "TransactionStatusPending = ''pending''"
definition TransactionStatusCompleted :: string where "TransactionStatusCompleted = ''completed''"
definition TransactionStatusFailed :: string where "TransactionStatusFailed = ''failed''"
definition TransactionStatusReversed :: string where "TransactionStatusReversed = ''reversed''"

definition LedgerEntryTypeDebit :: string where "LedgerEntryTypeDebit = ''debit''"
definition LedgerEntryTypeCredit :: string where "LedgerEntryTypeCredit = ''credit''"

definition OutboxStatusPending :: string where "OutboxStatusPending = ''pending''"
definition OutboxStatusPublished :: string where "OutboxStatusPublished = ''published''"
definition OutboxStatusFailed :: string where "OutboxStatusFailed = ''failed''"

lemmas id_defs = uuid_Nil_def SystemUserID_def SystemWalletID_def

lemmas const_defs = CurrencyTHB_def UserStatusActive_def UserStatusInactive_def
  WalletStatusActive_def WalletStatusSuspended_def WalletStatusClosed_def
  TransactionTypeTopUp_def TransactionTypeTransfer_def TransactionTypeReversal_def
  TransactionStatusPending_def TransactionStatusCompleted_def TransactionStatusFailed_def
  TransactionStatusReversed_def LedgerEntryTypeDebit_def LedgerEntryTypeCredit_def
  OutboxStatusPending_def OutboxStatusPublished_def OutboxStatusFailed_def

section \<open>Rows\<close>

record base_model =
  ID :: uuid
  CreatedAt :: time
  UpdatedAt :: time

record user = base_model +
  ExternalRef :: "string option"
  FullName :: string
  Email :: string
  PhoneNumber :: string
  user_Status :: string
  user_DeletedAt :: "time option"

record user_reference =
  user_reference_ID :: uuid

record wallet = base_model +
  UserID :: uuid
  wallet_Currency :: string
  wallet_Status :: string
  BalanceCachedMinor :: int64
  wallet_DeletedAt :: "time option"

record transaction = base_model +
  ReferenceCode :: string
  Type :: string
  Status :: string
  SourceWalletID :: "uuid option"
  DestinationWalletID :: "uuid option"
  AmountMinor :: int64
  Currency :: string
  IdempotencyKey :: "string option"
  RelatedTransactionID :: "uuid option"
  MetadataJSON :: json_map

record ledger_entry =
  entry_ID :: uuid
  TransactionID :: uuid
  WalletID :: uuid
  EntryType :: string
  entry_AmountMinor :: int64
  entry_CreatedAt :: time

record idempotency_key =
  idem_ID :: uuid
  idem_Key :: string
  idem_Endpoint :: string
  RequestHash :: string
  ResponseStatusCode :: "int option"
  ResponseBodyJSON :: "json option"
  ResourceID :: "uuid option"
  idem_CreatedAt :: time
  ExpiresAt :: time

record outbox_event = base_model +
  AggregateType :: string
  AggregateID :: uuid
  EventType :: string
  PayloadJSON :: json
  outbox_Status :: string
  PublishedAt :: "time option"
  RetryCount :: int
  LastError :: "string option"

text \<open>\<open>Wallet.IsActive\<close>\<close>

definition IsActive :: "wallet \<Rightarrow> bool" where
  "IsActive w \<longleftrightarrow> wallet_Status w = WalletStatusActive"

section \<open>The constraints the tags declare\<close>

text \<open>
  \<open>primaryKey\<close> and \<open>uniqueIndex\<close>: two rows that may not stand in one table. A NULL in a unique
  column clashes with nothing. The unique indexes are not partial: a soft-deleted row still
  occupies its keys.
\<close>

definition user_clash :: "user \<Rightarrow> user \<Rightarrow> bool" where
  "user_clash a b \<longleftrightarrow> ID a = ID b \<or> Email a = Email b \<or> PhoneNumber a = PhoneNumber b
     \<or> (ExternalRef a \<noteq> None \<and> ExternalRef a = ExternalRef b)"

definition wallet_clash :: "wallet \<Rightarrow> wallet \<Rightarrow> bool" where
  "wallet_clash a b \<longleftrightarrow> ID a = ID b \<or> UserID a = UserID b"

definition transaction_clash :: "transaction \<Rightarrow> transaction \<Rightarrow> bool" where
  "transaction_clash a b \<longleftrightarrow> ID a = ID b \<or> ReferenceCode a = ReferenceCode b"

definition ledger_entry_clash :: "ledger_entry \<Rightarrow> ledger_entry \<Rightarrow> bool" where
  "ledger_entry_clash a b \<longleftrightarrow> entry_ID a = entry_ID b"

definition idempotency_key_clash :: "idempotency_key \<Rightarrow> idempotency_key \<Rightarrow> bool" where
  "idempotency_key_clash a b \<longleftrightarrow> idem_ID a = idem_ID b
     \<or> (idem_Key a = idem_Key b \<and> idem_Endpoint a = idem_Endpoint b)"

definition outbox_event_clash :: "outbox_event \<Rightarrow> outbox_event \<Rightarrow> bool" where
  "outbox_event_clash a b \<longleftrightarrow> ID a = ID b"

lemmas clash_defs = user_clash_def wallet_clash_def transaction_clash_def
  ledger_entry_clash_def idempotency_key_clash_def outbox_event_clash_def

text \<open>\<open>gorm.DeletedAt\<close>: a row with a deletion time is not seen by queries.\<close>

definition user_live :: "user \<Rightarrow> bool" where
  "user_live u \<longleftrightarrow> user_DeletedAt u = None"

definition wallet_live :: "wallet \<Rightarrow> bool" where
  "wallet_live w \<longleftrightarrow> wallet_DeletedAt w = None"

text \<open>
  The timestamps gorm keeps: \<open>CreatedAt\<close> and \<open>UpdatedAt\<close> are filled at creation when they are
  zero, \<open>UpdatedAt\<close> is renewed by every update.
\<close>

definition born :: "time \<Rightarrow> 'a base_model_scheme \<Rightarrow> 'a base_model_scheme" where
  "born t r = r\<lparr>CreatedAt := if CreatedAt r = 0 then t else CreatedAt r,
                 UpdatedAt := if UpdatedAt r = 0 then t else UpdatedAt r\<rparr>"

definition touch :: "time \<Rightarrow> 'a base_model_scheme \<Rightarrow> 'a base_model_scheme" where
  "touch t r = r\<lparr>UpdatedAt := t\<rparr>"

definition entry_born :: "time \<Rightarrow> ledger_entry \<Rightarrow> ledger_entry" where
  "entry_born t r = r\<lparr>entry_CreatedAt := if entry_CreatedAt r = 0 then t else entry_CreatedAt r\<rparr>"

definition idem_born :: "time \<Rightarrow> idempotency_key \<Rightarrow> idempotency_key" where
  "idem_born t r = r\<lparr>idem_CreatedAt := if idem_CreatedAt r = 0 then t else idem_CreatedAt r\<rparr>"

text \<open>The timestamps are in no unique index.\<close>

lemma clash_born [simp]:
  "user_clash (born t u) x = user_clash u x"
  "wallet_clash (born t w) y = wallet_clash w y"
  "transaction_clash (born t tx) z = transaction_clash tx z"
  "idempotency_key_clash (idem_born t k) l = idempotency_key_clash k l"
  "ledger_entry_clash (entry_born t e) f = ledger_entry_clash e f"
  "outbox_event_clash (born t ev) v = outbox_event_clash ev v"
  by (simp_all add: clash_defs born_def idem_born_def entry_born_def)

lemma born_ID [simp]: "ID (born t r) = ID r" and touch_ID [simp]: "ID (touch t r) = ID r"
  by (simp_all add: born_def touch_def)

section \<open>The database\<close>

text \<open>\<open>repository.AutoMigrate\<close> creates these six tables.\<close>

record db =
  users :: "user list"
  wallets :: "wallet list"
  transactions :: "transaction list"
  ledger_entries :: "ledger_entry list"
  idempotency_keys :: "idempotency_key list"
  outbox_events :: "outbox_event list"

definition empty_db :: db where
  "empty_db = \<lparr>users = [], wallets = [], transactions = [], ledger_entries = [],
     idempotency_keys = [], outbox_events = []\<rparr>"

text \<open>The three ways a statement changes a table, as record updates.\<close>

lemma table_upd [simp]:
  "users_update (\<lambda>xs. xs @ users_new) d = d\<lparr>users := users d @ users_new\<rparr>"
  "users_update (replace_row users_p users_r) d = d\<lparr>users := replace_row users_p users_r (users d)\<rparr>"
  "users_update (map users_f) d = d\<lparr>users := map users_f (users d)\<rparr>"
  "wallets_update (\<lambda>xs. xs @ wallets_new) d = d\<lparr>wallets := wallets d @ wallets_new\<rparr>"
  "wallets_update (replace_row wallets_p wallets_r) d = d\<lparr>wallets := replace_row wallets_p wallets_r (wallets d)\<rparr>"
  "wallets_update (map wallets_f) d = d\<lparr>wallets := map wallets_f (wallets d)\<rparr>"
  "transactions_update (\<lambda>xs. xs @ transactions_new) d = d\<lparr>transactions := transactions d @ transactions_new\<rparr>"
  "transactions_update (replace_row transactions_p transactions_r) d = d\<lparr>transactions := replace_row transactions_p transactions_r (transactions d)\<rparr>"
  "transactions_update (map transactions_f) d = d\<lparr>transactions := map transactions_f (transactions d)\<rparr>"
  "ledger_entries_update (\<lambda>xs. xs @ ledger_entries_new) d = d\<lparr>ledger_entries := ledger_entries d @ ledger_entries_new\<rparr>"
  "ledger_entries_update (replace_row ledger_entries_p ledger_entries_r) d = d\<lparr>ledger_entries := replace_row ledger_entries_p ledger_entries_r (ledger_entries d)\<rparr>"
  "ledger_entries_update (map ledger_entries_f) d = d\<lparr>ledger_entries := map ledger_entries_f (ledger_entries d)\<rparr>"
  "idempotency_keys_update (\<lambda>xs. xs @ idempotency_keys_new) d = d\<lparr>idempotency_keys := idempotency_keys d @ idempotency_keys_new\<rparr>"
  "idempotency_keys_update (replace_row idempotency_keys_p idempotency_keys_r) d = d\<lparr>idempotency_keys := replace_row idempotency_keys_p idempotency_keys_r (idempotency_keys d)\<rparr>"
  "idempotency_keys_update (map idempotency_keys_f) d = d\<lparr>idempotency_keys := map idempotency_keys_f (idempotency_keys d)\<rparr>"
  "outbox_events_update (\<lambda>xs. xs @ outbox_events_new) d = d\<lparr>outbox_events := outbox_events d @ outbox_events_new\<rparr>"
  "outbox_events_update (replace_row outbox_events_p outbox_events_r) d = d\<lparr>outbox_events := replace_row outbox_events_p outbox_events_r (outbox_events d)\<rparr>"
  "outbox_events_update (map outbox_events_f) d = d\<lparr>outbox_events := map outbox_events_f (outbox_events d)\<rparr>"
  by (cases d; simp)+

end
