(* ===== verification/World.thy ===== *)
theory World
  imports Model
begin

text \<open>
  The world the program runs in: the database, the Redis store and the hidden state of the
  machine (clock, random source, connections). The runtime (random UUIDs, the clock, the text
  forms of UUIDs and times, SHA-256) is a parameter \<open>R\<close>; what the code relies on is the locale
  \<open>runtime_laws\<close>. The gorm hooks \<open>BeforeCreate\<close> of \<open>internal/model\<close> are modelled here.
\<close>

text \<open>A value of a Redis stream entry (\<open>map[string]any\<close> holds strings and one \<open>int64\<close>).\<close>

datatype stream_value = SStr string | SInt int64

type_synonym stream_values = "(string \<times> stream_value) list"

record 'h world =
  db :: db
  kv :: "string \<rightharpoonup> string"
  streams :: "(string \<times> stream_values) list"
  host :: 'h

text \<open>Everything but the hidden state.\<close>

definition visible :: "'h world \<Rightarrow> db \<times> (string \<rightharpoonup> string) \<times> (string \<times> stream_values) list" where
  "visible w = (db w, kv w, streams w)"

lemma visible_eq: "visible w = visible v \<longleftrightarrow> db w = db v \<and> kv w = kv v \<and> streams w = streams v"
  by (auto simp: visible_def)

lemma visible_db: "visible w = visible v \<Longrightarrow> db w = db v"
  by (simp add: visible_eq)

type_synonym ('h, 'a) go = "('h world, go_error, 'a) prog"

lemma keeps_visible_db [keeps_intros]: "keeps visible m \<Longrightarrow> keeps db m"
  by (simp add: keeps_def visible_eq)

section \<open>The runtime\<close>

record 'h runtime =
  uuid_New :: "'h world \<Rightarrow> uuid \<times> 'h world"
  time_Now :: "'h world \<Rightarrow> time \<times> 'h world"
  uuid_String :: "uuid \<Rightarrow> string"
  uuid_Parse :: "string \<Rightarrow> go_error + uuid"
  time_String :: "time \<Rightarrow> string"  \<comment> \<open>RFC 3339 with nanoseconds\<close>
  time_Parse :: "string \<Rightarrow> go_error + time"
  sha256_hex :: "json \<Rightarrow> string"  \<comment> \<open>hex of SHA-256 of the marshalled value\<close>

locale runtime_laws =
  fixes R :: "'h runtime"
  assumes New_frame: "uuid_New R w = (u, w') \<Longrightarrow> visible w' = visible w"
    and New_not_nil: "uuid_New R w = (u, w') \<Longrightarrow> u \<noteq> uuid_Nil"
    and Now_frame: "time_Now R w = (t, w') \<Longrightarrow> visible w' = visible w"
    and uuid_text [simp]: "uuid_Parse R (uuid_String R u) = Inr u"
    and time_text [simp]: "time_Parse R (time_String R t) = Inr t"

text \<open>A runtime that stays up: the hidden state keeps a predicate the external systems share.\<close>

locale runtime_up = runtime_laws +
  fixes up :: "'h world \<Rightarrow> bool"
  assumes New_up: "up w \<Longrightarrow> uuid_New R w = (u, w') \<Longrightarrow> up w'"
    and Now_up: "up w \<Longrightarrow> time_Now R w = (t, w') \<Longrightarrow> up w'"

section \<open>Hooks\<close>

definition assignID :: "'h runtime \<Rightarrow> uuid \<Rightarrow> ('h, uuid) go" where
  "assignID R i = (if i = uuid_Nil then liftS (uuid_New R) else returnE i)"

definition BaseModel_BeforeCreate ::
  "'h runtime \<Rightarrow> 'a base_model_scheme \<Rightarrow> ('h, 'a base_model_scheme) go" where
  "BaseModel_BeforeCreate R b = bindE (assignID R (ID b)) (\<lambda>i. returnE (b\<lparr>ID := i\<rparr>))"

definition User_BeforeCreate :: "'h runtime \<Rightarrow> user \<Rightarrow> ('h, user) go" where
  "User_BeforeCreate R u = bindE (BaseModel_BeforeCreate R u) (\<lambda>u.
     returnE (if user_Status u = [] then u\<lparr>user_Status := UserStatusActive\<rparr> else u))"

definition Wallet_BeforeCreate :: "'h runtime \<Rightarrow> wallet \<Rightarrow> ('h, wallet) go" where
  "Wallet_BeforeCreate R w = bindE (BaseModel_BeforeCreate R w) (\<lambda>w.
     let w = (if wallet_Currency w = [] then w\<lparr>wallet_Currency := CurrencyTHB\<rparr> else w);
         w = (if wallet_Status w = [] then w\<lparr>wallet_Status := WalletStatusActive\<rparr> else w)
     in returnE w)"

definition Transaction_BeforeCreate :: "'h runtime \<Rightarrow> transaction \<Rightarrow> ('h, transaction) go" where
  "Transaction_BeforeCreate R t = bindE (BaseModel_BeforeCreate R t) (\<lambda>t.
     let t = (if Currency t = [] then t\<lparr>Currency := CurrencyTHB\<rparr> else t);
         t = (if Status t = [] then t\<lparr>Status := TransactionStatusPending\<rparr> else t)
     in returnE t)"

definition LedgerEntry_BeforeCreate :: "'h runtime \<Rightarrow> ledger_entry \<Rightarrow> ('h, ledger_entry) go" where
  "LedgerEntry_BeforeCreate R l =
     bindE (assignID R (entry_ID l)) (\<lambda>i. returnE (l\<lparr>entry_ID := i\<rparr>))"

definition IdempotencyKey_BeforeCreate ::
  "'h runtime \<Rightarrow> idempotency_key \<Rightarrow> ('h, idempotency_key) go" where
  "IdempotencyKey_BeforeCreate R k =
     bindE (assignID R (idem_ID k)) (\<lambda>i. returnE (k\<lparr>idem_ID := i\<rparr>))"

definition OutboxEvent_BeforeCreate :: "'h runtime \<Rightarrow> outbox_event \<Rightarrow> ('h, outbox_event) go" where
  "OutboxEvent_BeforeCreate R e = bindE (BaseModel_BeforeCreate R e) (\<lambda>e.
     returnE (if outbox_Status e = [] then e\<lparr>outbox_Status := OutboxStatusPending\<rparr> else e))"

lemmas hook_defs = BaseModel_BeforeCreate_def User_BeforeCreate_def Wallet_BeforeCreate_def
  Transaction_BeforeCreate_def LedgerEntry_BeforeCreate_def IdempotencyKey_BeforeCreate_def
  OutboxEvent_BeforeCreate_def

text \<open>A batch is created row by row: gorm runs the hook of every element in order.\<close>

fun hooks :: "('r \<Rightarrow> ('h, 'r) go) \<Rightarrow> 'r list \<Rightarrow> ('h, 'r list) go" where
  "hooks h [] = returnE []"
| "hooks h (r # rs) = bindE (h r) (\<lambda>r'. bindE (hooks h rs) (\<lambda>rs'. returnE (r' # rs')))"

lemma keeps_hooks [keeps_intros]: "(\<And>r. keeps \<phi> (h r)) \<Longrightarrow> keeps \<phi> (hooks h rs)"
  by (induction rs) (auto intro!: keeps_intros)

subsection \<open>What the hooks do\<close>

text \<open>
  A hook returns no error. The row it returns has a non-nil ID, its own when it had one, and
  every column that was not empty is kept.
\<close>

context runtime_laws
begin

lemma keeps_New [keeps_intros]: "keeps visible (liftS (uuid_New R))"
  by (auto simp: keeps_def prog_simps dest: New_frame)

lemma keeps_Now [keeps_intros]: "keeps visible (liftS (time_Now R))"
  by (auto simp: keeps_def prog_simps dest: Now_frame)

lemma keeps_assignID [keeps_intros]: "keeps visible (assignID R i)"
  unfolding assignID_def by (intro keeps_intros)

lemma assignID_Inr:
  "assignID R i w = (Inr j, w') \<Longrightarrow> j \<noteq> uuid_Nil \<and> (i \<noteq> uuid_Nil \<longrightarrow> j = i)"
  by (auto simp: assignID_def prog_simps split: if_splits dest: New_not_nil)

lemma assignID_ok: "\<exists>j w'. assignID R i w = (Inr j, w')"
  by (auto simp: assignID_def returnE_def liftS_def split: prod.splits)

lemma keeps_hook [keeps_intros]:
  "keeps visible (BaseModel_BeforeCreate R b)" "keeps visible (User_BeforeCreate R u)"
  "keeps visible (Wallet_BeforeCreate R wl)" "keeps visible (Transaction_BeforeCreate R t)"
  "keeps visible (LedgerEntry_BeforeCreate R l)" "keeps visible (IdempotencyKey_BeforeCreate R k)"
  "keeps visible (OutboxEvent_BeforeCreate R e)"
  unfolding hook_defs Let_def by (intro keeps_intros)+

lemma BaseModel_BeforeCreate_Inr:
  "BaseModel_BeforeCreate R b w = (Inr b', w') \<Longrightarrow>
    \<exists>i. i \<noteq> uuid_Nil \<and> (ID b \<noteq> uuid_Nil \<longrightarrow> i = ID b) \<and> b' = b\<lparr>ID := i\<rparr>"
  by (auto simp: BaseModel_BeforeCreate_def prog_simps dest: assignID_Inr)

lemmas hook_visible = keeps_hook [THEN keepsD]

lemma User_BeforeCreate_Inr:
  "User_BeforeCreate R u w = (Inr u', w') \<Longrightarrow>
    \<exists>i. i \<noteq> uuid_Nil \<and> (ID u \<noteq> uuid_Nil \<longrightarrow> i = ID u) \<and>
      u' = u\<lparr>ID := i, user_Status := if user_Status u = [] then UserStatusActive else user_Status u\<rparr>"
  by (fastforce simp: User_BeforeCreate_def prog_simps dest: BaseModel_BeforeCreate_Inr)

lemma Wallet_BeforeCreate_Inr:
  "Wallet_BeforeCreate R u w = (Inr u', w') \<Longrightarrow>
    \<exists>i. i \<noteq> uuid_Nil \<and> (ID u \<noteq> uuid_Nil \<longrightarrow> i = ID u) \<and>
      u' = u\<lparr>ID := i,
        wallet_Currency := if wallet_Currency u = [] then CurrencyTHB else wallet_Currency u,
        wallet_Status := if wallet_Status u = [] then WalletStatusActive else wallet_Status u\<rparr>"
  by (fastforce simp: Wallet_BeforeCreate_def prog_simps Let_def dest: BaseModel_BeforeCreate_Inr)

lemma Transaction_BeforeCreate_Inr:
  "Transaction_BeforeCreate R u w = (Inr u', w') \<Longrightarrow>
    \<exists>i. i \<noteq> uuid_Nil \<and> (ID u \<noteq> uuid_Nil \<longrightarrow> i = ID u) \<and>
      u' = u\<lparr>ID := i, Currency := if Currency u = [] then CurrencyTHB else Currency u,
        Status := if Status u = [] then TransactionStatusPending else Status u\<rparr>"
  by (fastforce simp: Transaction_BeforeCreate_def prog_simps Let_def dest: BaseModel_BeforeCreate_Inr)

lemma LedgerEntry_BeforeCreate_Inr:
  "LedgerEntry_BeforeCreate R u w = (Inr u', w') \<Longrightarrow>
    \<exists>i. i \<noteq> uuid_Nil \<and> (entry_ID u \<noteq> uuid_Nil \<longrightarrow> i = entry_ID u) \<and> u' = u\<lparr>entry_ID := i\<rparr>"
  by (auto simp: LedgerEntry_BeforeCreate_def prog_simps dest: assignID_Inr)

lemma IdempotencyKey_BeforeCreate_Inr:
  "IdempotencyKey_BeforeCreate R u w = (Inr u', w') \<Longrightarrow>
    \<exists>i. i \<noteq> uuid_Nil \<and> (idem_ID u \<noteq> uuid_Nil \<longrightarrow> i = idem_ID u) \<and> u' = u\<lparr>idem_ID := i\<rparr>"
  by (auto simp: IdempotencyKey_BeforeCreate_def prog_simps dest: assignID_Inr)

lemma OutboxEvent_BeforeCreate_Inr:
  "OutboxEvent_BeforeCreate R u w = (Inr u', w') \<Longrightarrow>
    \<exists>i. i \<noteq> uuid_Nil \<and> (ID u \<noteq> uuid_Nil \<longrightarrow> i = ID u) \<and>
      u' = u\<lparr>ID := i,
        outbox_Status := if outbox_Status u = [] then OutboxStatusPending else outbox_Status u\<rparr>"
  by (fastforce simp: OutboxEvent_BeforeCreate_def prog_simps dest: BaseModel_BeforeCreate_Inr)

end

end
