(* ===== verification/Dto.thy ===== *)
theory Dto
  imports World
begin

text \<open>
  The payloads of \<open>internal/dto\<close>, the conversions from rows, and the JSON form of the payloads
  the program stores or hashes. The field names and \<open>omitempty\<close> follow the struct tags.
\<close>

section \<open>Requests and responses\<close>

record top_up_request =
  tu_WalletID :: uuid
  tu_AmountMinor :: int64
  tu_Metadata :: json_map

record transfer_request =
  tr_SourceWalletID :: uuid
  tr_DestinationWalletID :: uuid
  tr_AmountMinor :: int64
  tr_Metadata :: json_map

record transaction_response =
  resp_ID :: uuid
  resp_ReferenceCode :: string
  resp_Type :: string
  resp_Status :: string
  resp_SourceWalletID :: "uuid option"
  resp_DestinationWalletID :: "uuid option"
  resp_AmountMinor :: int64
  resp_Currency :: string
  resp_IdempotencyKey :: "string option"
  resp_RelatedTransactionID :: "uuid option"
  resp_Metadata :: json_map
  resp_CreatedAt :: time
  resp_UpdatedAt :: time

definition TransactionFromModel :: "transaction \<Rightarrow> transaction_response" where
  "TransactionFromModel tx =
    \<lparr>resp_ID = ID tx, resp_ReferenceCode = ReferenceCode tx, resp_Type = Type tx,
     resp_Status = Status tx, resp_SourceWalletID = SourceWalletID tx,
     resp_DestinationWalletID = DestinationWalletID tx, resp_AmountMinor = AmountMinor tx,
     resp_Currency = Currency tx, resp_IdempotencyKey = IdempotencyKey tx,
     resp_RelatedTransactionID = RelatedTransactionID tx, resp_Metadata = MetadataJSON tx,
     resp_CreatedAt = CreatedAt tx, resp_UpdatedAt = UpdatedAt tx\<rparr>"

definition zero_response :: transaction_response where
  "zero_response =
    \<lparr>resp_ID = uuid_Nil, resp_ReferenceCode = [], resp_Type = [], resp_Status = [],
     resp_SourceWalletID = None, resp_DestinationWalletID = None, resp_AmountMinor = 0,
     resp_Currency = [], resp_IdempotencyKey = None, resp_RelatedTransactionID = None,
     resp_Metadata = None, resp_CreatedAt = 0, resp_UpdatedAt = 0\<rparr>"

record create_user_request =
  cu_ExternalRef :: "string option"
  cu_FullName :: string
  cu_Email :: string
  cu_PhoneNumber :: string
  cu_Status :: string

record update_user_request =
  uu_ExternalRef :: "string option"
  uu_FullName :: string
  uu_Email :: string
  uu_PhoneNumber :: string
  uu_Status :: string

record user_response =
  ur_ID :: uuid
  ur_ExternalRef :: "string option"
  ur_FullName :: string
  ur_Email :: string
  ur_PhoneNumber :: string
  ur_Status :: string
  ur_CreatedAt :: time
  ur_UpdatedAt :: time

definition UserFromModel :: "user \<Rightarrow> user_response" where
  "UserFromModel u =
    \<lparr>ur_ID = ID u, ur_ExternalRef = ExternalRef u, ur_FullName = FullName u, ur_Email = Email u,
     ur_PhoneNumber = PhoneNumber u, ur_Status = user_Status u, ur_CreatedAt = CreatedAt u,
     ur_UpdatedAt = UpdatedAt u\<rparr>"

record create_wallet_request =
  cw_UserID :: uuid
  cw_Currency :: string

record update_wallet_status_request =
  uw_Status :: string

record wallet_response =
  wr_ID :: uuid
  wr_UserID :: uuid
  wr_Currency :: string
  wr_Status :: string
  wr_BalanceMinor :: int64
  wr_CreatedAt :: time
  wr_UpdatedAt :: time

definition WalletFromModel :: "wallet \<Rightarrow> wallet_response" where
  "WalletFromModel w =
    \<lparr>wr_ID = ID w, wr_UserID = UserID w, wr_Currency = wallet_Currency w,
     wr_Status = wallet_Status w, wr_BalanceMinor = BalanceCachedMinor w,
     wr_CreatedAt = CreatedAt w, wr_UpdatedAt = UpdatedAt w\<rparr>"

record balance_response =
  br_WalletID :: uuid
  br_Currency :: string
  br_BalanceMinor :: int64
  br_Source :: string

record error_response =
  er_Code :: string
  er_Message :: string
  er_Details :: "json option"

record 'a page_response =
  Items :: "'a list"
  Page :: int64
  Limit :: int64
  Total :: int64

section \<open>encoding/json on structs\<close>

text \<open>
  \<open>Marshal\<close> writes the fields in order, leaving out an empty \<open>omitempty\<close> field. \<open>Unmarshal\<close> takes
  each object key, matched without regard to case, later keys overriding earlier ones; a missing
  key or a null leaves the zero value, and a value of the wrong shape is an error.
\<close>

definition opt_field :: "string \<Rightarrow> json option \<Rightarrow> (string \<times> json) list" where
  "opt_field k v = (case v of None \<Rightarrow> [] | Some j \<Rightarrow> [(k, j)])"

definition meta_field :: "string \<Rightarrow> json_map \<Rightarrow> (string \<times> json) list" where
  "meta_field k m = (case m of None \<Rightarrow> [] | Some kvs \<Rightarrow> if kvs = [] then [] else [(k, JObj kvs)])"

definition unmarshal_error :: go_error where
  "unmarshal_error = PlainError ''json: cannot unmarshal value into Go struct field''"

definition bindR :: "'e + 'a \<Rightarrow> ('a \<Rightarrow> 'e + 'b) \<Rightarrow> 'e + 'b" where
  "bindR r f = (case r of Inl e \<Rightarrow> Inl e | Inr a \<Rightarrow> f a)"

lemma bindR_Inr [simp]: "bindR (Inr a) f = f a"
  by (simp add: bindR_def)

lemma bindR_Inl [simp]: "bindR (Inl e) f = Inl e"
  by (simp add: bindR_def)

definition jget :: "(string \<times> json) list \<Rightarrow> string \<Rightarrow> json option" where
  "jget kvs name = map_of (rev (map (\<lambda>(k, v). (ToLower k, v)) kvs)) name"

definition jstr :: "json option \<Rightarrow> go_error + string" where
  "jstr v = (case v of None \<Rightarrow> Inr [] | Some JNull \<Rightarrow> Inr [] | Some (JStr s) \<Rightarrow> Inr s
     | Some _ \<Rightarrow> Inl unmarshal_error)"

definition jstr_ptr :: "json option \<Rightarrow> go_error + string option" where
  "jstr_ptr v = (case v of None \<Rightarrow> Inr None | Some JNull \<Rightarrow> Inr None | Some (JStr s) \<Rightarrow> Inr (Some s)
     | Some _ \<Rightarrow> Inl unmarshal_error)"

definition juuid :: "'h runtime \<Rightarrow> json option \<Rightarrow> go_error + uuid" where
  "juuid R v = (case v of None \<Rightarrow> Inr uuid_Nil | Some JNull \<Rightarrow> Inr uuid_Nil
     | Some (JStr s) \<Rightarrow> uuid_Parse R s | Some _ \<Rightarrow> Inl unmarshal_error)"

definition juuid_ptr :: "'h runtime \<Rightarrow> json option \<Rightarrow> go_error + uuid option" where
  "juuid_ptr R v = (case v of None \<Rightarrow> Inr None | Some JNull \<Rightarrow> Inr None
     | Some (JStr s) \<Rightarrow> bindR (uuid_Parse R s) (\<lambda>u. Inr (Some u)) | Some _ \<Rightarrow> Inl unmarshal_error)"

definition jint64 :: "json option \<Rightarrow> go_error + int64" where
  "jint64 v = (case v of None \<Rightarrow> Inr 0 | Some JNull \<Rightarrow> Inr 0
     | Some (JNum s) \<Rightarrow> (case ParseInt s of Inl _ \<Rightarrow> Inl unmarshal_error | Inr i \<Rightarrow> Inr i)
     | Some _ \<Rightarrow> Inl unmarshal_error)"

definition jtime :: "'h runtime \<Rightarrow> json option \<Rightarrow> go_error + time" where
  "jtime R v = (case v of None \<Rightarrow> Inr 0 | Some JNull \<Rightarrow> Inr 0 | Some (JStr s) \<Rightarrow> time_Parse R s
     | Some _ \<Rightarrow> Inl unmarshal_error)"

definition jmap :: "json option \<Rightarrow> go_error + json_map" where
  "jmap v = (case v of None \<Rightarrow> Inr None | Some JNull \<Rightarrow> Inr None | Some (JObj kvs) \<Rightarrow> Inr (Some kvs)
     | Some _ \<Rightarrow> Inl unmarshal_error)"

lemmas json_field_defs = jstr_def jstr_ptr_def juuid_def juuid_ptr_def jint64_def jtime_def jmap_def

definition response_to_json :: "'h runtime \<Rightarrow> transaction_response \<Rightarrow> json" where
  "response_to_json R r = JObj (
     [(''id'', JStr (uuid_String R (resp_ID r))),
      (''reference_code'', JStr (resp_ReferenceCode r)),
      (''type'', JStr (resp_Type r)),
      (''status'', JStr (resp_Status r))]
     @ opt_field ''source_wallet_id'' (map_option (JStr \<circ> uuid_String R) (resp_SourceWalletID r))
     @ opt_field ''destination_wallet_id''
         (map_option (JStr \<circ> uuid_String R) (resp_DestinationWalletID r))
     @ [(''amount_minor'', JNum (FormatInt (resp_AmountMinor r))),
        (''currency'', JStr (resp_Currency r))]
     @ opt_field ''idempotency_key'' (map_option JStr (resp_IdempotencyKey r))
     @ opt_field ''related_transaction_id''
         (map_option (JStr \<circ> uuid_String R) (resp_RelatedTransactionID r))
     @ meta_field ''metadata'' (resp_Metadata r)
     @ [(''created_at'', JStr (time_String R (resp_CreatedAt r))),
        (''updated_at'', JStr (time_String R (resp_UpdatedAt r)))])"

definition response_of_json :: "'h runtime \<Rightarrow> json \<Rightarrow> go_error + transaction_response" where
  "response_of_json R j = (case j of
     JNull \<Rightarrow> Inr zero_response
   | JObj kvs \<Rightarrow>
      bindR (juuid R (jget kvs ''id'')) (\<lambda>i.
      bindR (jstr (jget kvs ''reference_code'')) (\<lambda>rc.
      bindR (jstr (jget kvs ''type'')) (\<lambda>ty.
      bindR (jstr (jget kvs ''status'')) (\<lambda>st.
      bindR (juuid_ptr R (jget kvs ''source_wallet_id'')) (\<lambda>src.
      bindR (juuid_ptr R (jget kvs ''destination_wallet_id'')) (\<lambda>dst.
      bindR (jint64 (jget kvs ''amount_minor'')) (\<lambda>amt.
      bindR (jstr (jget kvs ''currency'')) (\<lambda>cur.
      bindR (jstr_ptr (jget kvs ''idempotency_key'')) (\<lambda>ik.
      bindR (juuid_ptr R (jget kvs ''related_transaction_id'')) (\<lambda>rel.
      bindR (jmap (jget kvs ''metadata'')) (\<lambda>meta.
      bindR (jtime R (jget kvs ''created_at'')) (\<lambda>ca.
      bindR (jtime R (jget kvs ''updated_at'')) (\<lambda>ua.
      Inr \<lparr>resp_ID = i, resp_ReferenceCode = rc, resp_Type = ty, resp_Status = st,
           resp_SourceWalletID = src, resp_DestinationWalletID = dst, resp_AmountMinor = amt,
           resp_Currency = cur, resp_IdempotencyKey = ik, resp_RelatedTransactionID = rel,
           resp_Metadata = meta, resp_CreatedAt = ca, resp_UpdatedAt = ua\<rparr>)))))))))))))
   | _ \<Rightarrow> Inl unmarshal_error)"

definition top_up_to_json :: "'h runtime \<Rightarrow> top_up_request \<Rightarrow> json" where
  "top_up_to_json R r = JObj (
     [(''wallet_id'', JStr (uuid_String R (tu_WalletID r))),
      (''amount_minor'', JNum (FormatInt (tu_AmountMinor r)))]
     @ meta_field ''metadata'' (tu_Metadata r))"

definition transfer_to_json :: "'h runtime \<Rightarrow> transfer_request \<Rightarrow> json" where
  "transfer_to_json R r = JObj (
     [(''source_wallet_id'', JStr (uuid_String R (tr_SourceWalletID r))),
      (''destination_wallet_id'', JStr (uuid_String R (tr_DestinationWalletID r))),
      (''amount_minor'', JNum (FormatInt (tr_AmountMinor r)))]
     @ meta_field ''metadata'' (tr_Metadata r))"

definition reverse_to_json :: "'h runtime \<Rightarrow> uuid \<Rightarrow> json" where
  "reverse_to_json R i = JObj [(''transaction_id'', JStr (uuid_String R i))]"

subsection \<open>Round trip\<close>

definition orelse :: "'a option \<Rightarrow> 'a option \<Rightarrow> 'a option" where
  "orelse x y = (case x of None \<Rightarrow> y | Some v \<Rightarrow> Some v)"

lemma orelse_simps [simp]:
  "orelse None y = y" "orelse (Some v) y = Some v" "orelse x None = x"
  by (simp_all add: orelse_def split: option.splits)

lemma jget_Nil: "jget [] name = None"
  by (simp add: jget_def)

lemma jget_append: "jget (xs @ ys) name = orelse (jget ys name) (jget xs name)"
  by (simp add: jget_def orelse_def map_add_def)

lemma jget_Cons: "jget ((k, v) # ys) name =
    orelse (jget ys name) (if ToLower k = name then Some v else None)"
  using jget_append[of "[(k, v)]" ys name] by (simp add: jget_def)

lemma jget_opt_field: "jget (opt_field k v) name = (if ToLower k = name then v else None)"
  by (cases v) (simp_all add: opt_field_def jget_def)

lemma jget_meta_field: "jget (meta_field k m) name =
  (if ToLower k = name then (case m of None \<Rightarrow> None | Some kvs \<Rightarrow> if kvs = [] then None else Some (JObj kvs))
   else None)"
  by (cases m) (simp_all add: meta_field_def jget_def)

lemmas jget_rules = jget_Nil jget_append jget_Cons jget_opt_field jget_meta_field

context runtime_laws
begin

lemma juuid_ptr_map: "juuid_ptr R (map_option (JStr \<circ> uuid_String R) x) = Inr x"
  by (cases x) (simp_all add: juuid_ptr_def)

lemma jstr_ptr_map: "jstr_ptr (map_option JStr x) = Inr x"
  by (cases x) (simp_all add: jstr_ptr_def)

lemma jmap_meta: "m \<noteq> Some [] \<Longrightarrow>
    jmap (case m of None \<Rightarrow> None | Some kvs \<Rightarrow> if kvs = [] then None else Some (JObj kvs)) = Inr m"
  by (cases m) (simp_all add: jmap_def)

lemma field_some [simp]:
  "jstr (Some (JStr x)) = Inr x" "juuid R (Some (JStr (uuid_String R u))) = Inr u"
  "jtime R (Some (JStr (time_String R t))) = Inr t" "jint64 (Some (JNum (FormatInt i))) = Inr i"
  by (simp_all add: json_field_defs)

lemma response_json_roundtrip:
  assumes "resp_Metadata r \<noteq> Some []"
  shows "response_of_json R (response_to_json R r) = Inr r"
  by (simp add: response_of_json_def response_to_json_def jget_rules ToLower_def lower_char_def
      juuid_ptr_map jstr_ptr_map jmap_meta [OF assms])

end

end
