(* ===== verification/Gorm.thy ===== *)
theory Gorm
  imports Dto "HOL-Library.Multiset"
begin

text \<open>
  The interface to gorm over PostgreSQL. The library is not part of the repository: its statements
  are the fields of the record \<open>gtable\<close> (one per table) and \<open>gorm\<close>, parameters of every definition
  that uses them. What the code relies on, the documented behaviour of each statement under the
  schema of \<open>internal/model\<close>, is stated by the locales: an inserted row is appended unless it
  breaks a declared uniqueness, a failing statement changes nothing, a query sees the live rows
  only, \<open>Transaction\<close> undoes the database changes of a function that fails. Any statement may fail
  at any time; the extension \<open>gorm_up\<close> adds that, while the predicate \<open>up\<close> holds, statements fail
  only for the reasons SQL gives. \<open>Store\<close> instantiates both.
\<close>

section \<open>Statements\<close>

text \<open>
  A query: \<open>Where\<close>, \<open>Order\<close> (a sort key, ascending), \<open>Offset\<close>, \<open>Limit\<close>, \<open>Locking\<close>. As documented
  by gorm, an offset that is not positive and a negative limit are no clause.
\<close>

record 'r gquery =
  Where :: "'r \<Rightarrow> bool"
  Order :: "'r \<Rightarrow> int"
  Offset :: int
  QLimit :: "int option"
  LockUpdate :: bool

definition window :: "int \<Rightarrow> int option \<Rightarrow> 'a list \<Rightarrow> 'a list" where
  "window off lim xs =
    (let ys = (if off > 0 then drop (nat off) xs else xs)
     in case lim of None \<Rightarrow> ys | Some n \<Rightarrow> if n \<ge> 0 then take (nat n) ys else ys)"

text \<open>An answer of a query: some order of the matching live rows by the key, cut to the window.\<close>

definition selected :: "'r gquery \<Rightarrow> ('r \<Rightarrow> bool) \<Rightarrow> 'r list \<Rightarrow> 'r list \<Rightarrow> bool" where
  "selected q live rows xs \<longleftrightarrow>
    (\<exists>ys. mset ys = mset (filter (\<lambda>r. live r \<and> Where q r) rows) \<and> sorted (map (Order q) ys)
       \<and> xs = window (Offset q) (QLimit q) ys)"

text \<open>An answer never holds a row twice when the table does not hold its key twice.\<close>

lemma distinct_window: "distinct xs \<Longrightarrow> distinct (window off lim xs)"
  by (auto simp: window_def Let_def split: option.splits)

lemma map_window: "map f (window off lim xs) = window off lim (map f xs)"
  by (auto simp: window_def Let_def take_map drop_map split: option.splits)

lemma selected_distinct:
  assumes "selected q live rows xs" "distinct (map k rows)"
  shows "distinct (map k xs)"
proof -
  obtain ys where ys: "mset ys = mset (filter (\<lambda>r. live r \<and> Where q r) rows)"
    and xs: "xs = window (Offset q) (QLimit q) ys"
    using assms(1) by (auto simp: selected_def)
  have "distinct (map k (filter (\<lambda>r. live r \<and> Where q r) rows))"
    using assms(2) by (rule distinct_map_filter)
  then have "distinct (map k ys)" using ys by (metis mset_map mset_eq_imp_distinct_iff)
  then show ?thesis unfolding xs map_window by (rule distinct_window)
qed

record ('r, 'h) gtable =
  gCreate :: "'r \<Rightarrow> ('h, 'r) go"
  gCreateAll :: "'r list \<Rightarrow> ('h, 'r list) go"
  gCreateDoNothing :: "'r \<Rightarrow> ('h, unit) go"
  gFirst :: "('r \<Rightarrow> bool) \<Rightarrow> ('h, 'r) go"
  gFirstForUpdate :: "('r \<Rightarrow> bool) \<Rightarrow> ('h, 'r) go"
  gFind :: "'r gquery \<Rightarrow> ('h, 'r list) go"
  gCount :: "('r \<Rightarrow> bool) \<Rightarrow> ('h, int64) go"
  gSave :: "'r \<Rightarrow> ('h, 'r) go"
  gUpdates :: "uuid \<Rightarrow> ('r \<Rightarrow> 'r) \<Rightarrow> ('h, unit) go"

text \<open>What the functions passed to \<open>Transaction\<close> hand out: a response and the wallets they touched.\<close>

type_synonym tx_result = "transaction_response \<times> wallet list"

record 'h gorm =
  Users :: "(user, 'h) gtable"
  DeleteUser :: "(user \<Rightarrow> bool) \<Rightarrow> ('h, unit) go"
  Wallets :: "(wallet, 'h) gtable"
  Transactions :: "(transaction, 'h) gtable"
  LedgerEntries :: "(ledger_entry, 'h) gtable"
  IdempotencyKeys :: "(idempotency_key, 'h) gtable"
  OutboxEvents :: "(outbox_event, 'h) gtable"
  Transaction :: "('h, tx_result) go \<Rightarrow> ('h, tx_result) go"

section \<open>Laws of one table\<close>

locale gorm_table =
  fixes T :: "('r, 'h) gtable"
    and tab :: "db \<Rightarrow> 'r list"
    and upd :: "('r list \<Rightarrow> 'r list) \<Rightarrow> db \<Rightarrow> db"
    and pk :: "'r \<Rightarrow> uuid"
    and clash :: "'r \<Rightarrow> 'r \<Rightarrow> bool"
    and live :: "'r \<Rightarrow> bool"
    and birth :: "time \<Rightarrow> 'r \<Rightarrow> 'r"
    and renew :: "time \<Rightarrow> 'r \<Rightarrow> 'r"
  assumes tab_upd: "tab (upd f d) = f (tab d)"
    and clash_pk: "pk a = pk b \<Longrightarrow> clash a b"
    and Create_Inr: "gCreate T r w = (Inr r', w') \<Longrightarrow>
      (\<exists>t. r' = birth t r) \<and> (\<forall>x\<in>set (tab (db w)). \<not> clash r x) \<and>
      visible w' = (upd (\<lambda>xs. xs @ [r']) (db w), kv w, streams w)"
    and Create_Inl: "gCreate T r w = (Inl e, w') \<Longrightarrow> visible w' = visible w"
    and CreateAll_Inr: "gCreateAll T rs w = (Inr rs', w') \<Longrightarrow>
      (\<exists>t. rs' = map (birth t) rs) \<and> (\<forall>r\<in>set rs. \<forall>x\<in>set (tab (db w)). \<not> clash r x) \<and>
      sorted_wrt (\<lambda>a b. \<not> clash b a) rs \<and>
      visible w' = (upd (\<lambda>xs. xs @ rs') (db w), kv w, streams w)"
    and CreateAll_Inl: "gCreateAll T rs w = (Inl e, w') \<Longrightarrow> visible w' = visible w"
    and CreateDoNothing_Inr: "gCreateDoNothing T r w = (Inr u, w') \<Longrightarrow>
      (if \<exists>x\<in>set (tab (db w)). clash r x then visible w' = visible w
       else \<exists>t. visible w' = (upd (\<lambda>xs. xs @ [birth t r]) (db w), kv w, streams w))"
    and CreateDoNothing_Inl: "gCreateDoNothing T r w = (Inl e, w') \<Longrightarrow> visible w' = visible w"
    and First_Inr: "gFirst T P w = (Inr r, w') \<Longrightarrow> r \<in> set (tab (db w)) \<and> live r \<and> P r"
    and keeps_First: "keeps visible (gFirst T P)"
    and FirstForUpdate_Inr:
      "gFirstForUpdate T P w = (Inr r, w') \<Longrightarrow> r \<in> set (tab (db w)) \<and> live r \<and> P r"
    and keeps_FirstForUpdate: "keeps visible (gFirstForUpdate T P)"
    and Find_Inr: "gFind T q w = (Inr rs, w') \<Longrightarrow> selected q live (tab (db w)) rs"
    and keeps_Find: "keeps visible (gFind T q)"
    and Count_Inr: "gCount T P w = (Inr n, w') \<Longrightarrow>
      n = of_nat (length (filter (\<lambda>r. live r \<and> P r) (tab (db w))))"
    and keeps_Count: "keeps visible (gCount T P)"
    and Save_Inr: "gSave T r w = (Inr r', w') \<Longrightarrow> \<exists>x\<in>set (tab (db w)). pk x = pk r \<and> live x \<Longrightarrow>
      (\<exists>t. r' = renew t r) \<and> (\<forall>x\<in>set (tab (db w)). pk x \<noteq> pk r \<longrightarrow> \<not> clash r x) \<and>
      visible w' = (upd (replace_row (\<lambda>x. pk x = pk r \<and> live x) r') (db w), kv w, streams w)"
    and Save_Inl: "gSave T r w = (Inl e, w') \<Longrightarrow> visible w' = visible w"
    and Updates_Inr: "gUpdates T i g w = (Inr u, w') \<Longrightarrow>
      \<exists>t. visible w' = (upd (map (\<lambda>x. if pk x = i \<and> live x then renew t (g x) else x)) (db w),
             kv w, streams w)"
    and Updates_Inl: "gUpdates T i g w = (Inl e, w') \<Longrightarrow> visible w' = visible w"
    and keeps_Save: "keeps (\<lambda>w. (kv w, streams w)) (gSave T r)"
begin

lemmas read_only = keeps_First keeps_FirstForUpdate keeps_Find keeps_Count

lemmas read_only_D = read_only [THEN keepsD]

text \<open>Every row of an answer without a window is a matching live row, and every such row is there.\<close>

lemma Find_all:
  assumes "gFind T q w = (Inr rs, w')" "Offset q = 0" "QLimit q = None"
  shows "mset rs = mset (filter (\<lambda>r. live r \<and> Where q r) (tab (db w)))"
  using Find_Inr [OF assms(1)] assms(2,3) by (auto simp: selected_def window_def)

lemma Find_subset:
  assumes "gFind T q w = (Inr rs, w')"
  shows "set rs \<subseteq> {r \<in> set (tab (db w)). live r \<and> Where q r}"
proof -
  obtain ys where ys: "mset ys = mset (filter (\<lambda>r. live r \<and> Where q r) (tab (db w)))"
    and rs: "rs = window (Offset q) (QLimit q) ys"
    using Find_Inr [OF assms] by (auto simp: selected_def)
  have "set rs \<subseteq> set ys"
    unfolding rs window_def Let_def by (auto split: option.splits dest: in_set_takeD in_set_dropD)
  also have "set ys = {r \<in> set (tab (db w)). live r \<and> Where q r}"
    using arg_cong [OF ys, of set_mset] by auto
  finally show ?thesis .
qed

text \<open>\<open>Create\<close> runs the hook, which works outside the database, and then the statement.\<close>

lemma hooked_Create_Inr:
  assumes "bindE h (gCreate T) w = (Inr r', w')" "keeps visible h"
  obtains r w1 t where "h w = (Inr r, w1)" "r' = birth t r" "\<forall>x\<in>set (tab (db w)). \<not> clash r x"
    "visible w' = (upd (\<lambda>xs. xs @ [r']) (db w), kv w, streams w)"
proof -
  obtain r w1 where h: "h w = (Inr r, w1)" and c: "gCreate T r w1 = (Inr r', w')"
    using assms(1) by (auto simp: prog_simps)
  have v: "visible w1 = visible w" using assms(2) h by (rule keepsD)
  from Create_Inr [OF c] obtain t where "r' = birth t r" by blast
  then show thesis using Create_Inr [OF c] v h by (intro that) (auto simp: visible_eq)
qed

lemma hooked_Create_shape:
  assumes run: "bindE h (gCreate T) w = (Inr r', w')" and keeps: "keeps visible h"
    and hook: "\<And>r w1. h w = (Inr r, w1) \<Longrightarrow> \<exists>i. i \<noteq> uuid_Nil \<and> P i \<and> r = F i"
    and birth: "\<And>t r x. clash (birth t r) x = clash r x"
  shows "\<exists>i t. i \<noteq> uuid_Nil \<and> P i \<and> r' = birth t (F i) \<and> (\<forall>x\<in>set (tab (db w)). \<not> clash r' x) \<and>
    visible w' = (upd (\<lambda>xs. xs @ [r']) (db w), kv w, streams w)"
proof -
  obtain r w1 t where "h w = (Inr r, w1)" and r': "r' = birth t r"
    and rest: "\<forall>x\<in>set (tab (db w)). \<not> clash r x"
      "visible w' = (upd (\<lambda>xs. xs @ [r']) (db w), kv w, streams w)"
    using run keeps by (rule hooked_Create_Inr)
  from hook [OF this(1)] obtain i where "i \<noteq> uuid_Nil" "P i" "r = F i" by blast
  with r' rest show ?thesis by (intro exI[of _ i] exI[of _ t]) (simp add: birth)
qed

lemma hooked_Create_Inl:
  "bindE h (gCreate T) w = (Inl e, w') \<Longrightarrow> keeps visible h \<Longrightarrow> visible w' = visible w"
  unfolding bindE_Inl by (metis Create_Inl keepsD)

text \<open>An insertion that does nothing on a conflict adds the row or changes nothing, also when it fails.\<close>

lemma hooked_CreateDoNothing:
  assumes run: "bindE h (gCreateDoNothing T) w = (q, w')" and keeps: "keeps visible h"
    and hook: "\<And>r' w1. h w = (Inr r', w1) \<Longrightarrow> r' = r"
  shows "visible w' = visible w \<or> (\<exists>t. (\<forall>x\<in>set (tab (db w)). \<not> clash r x) \<and>
    visible w' = (upd (\<lambda>xs. xs @ [birth t r]) (db w), kv w, streams w))"
proof (cases "h w")
  case (Pair p w1)
  have v: "visible w1 = visible w" by (rule keepsD [OF keeps Pair])
  show ?thesis
  proof (cases p)
    case (Inl e)
    with run Pair v show ?thesis by (simp add: bindE_def)
  next
    case (Inr r')
    with run Pair hook have "gCreateDoNothing T r w1 = (q, w')" by (simp add: bindE_def)
    with v show ?thesis
      by (cases q) (auto simp: visible_eq visible_def dest!: CreateDoNothing_Inl CreateDoNothing_Inr split: if_splits)
  qed
qed

lemma hooked_CreateAll_Inr:
  assumes "bindE h (gCreateAll T) w = (Inr rs', w')" "keeps visible h"
  obtains rs w1 t where "h w = (Inr rs, w1)" "rs' = map (birth t) rs"
    "\<forall>r\<in>set rs. \<forall>x\<in>set (tab (db w)). \<not> clash r x" "sorted_wrt (\<lambda>a b. \<not> clash b a) rs"
    "visible w' = (upd (\<lambda>xs. xs @ rs') (db w), kv w, streams w)"
proof -
  obtain rs w1 where h: "h w = (Inr rs, w1)" and c: "gCreateAll T rs w1 = (Inr rs', w')"
    using assms(1) by (auto simp: prog_simps)
  have v: "visible w1 = visible w" using assms(2) h by (rule keepsD)
  from CreateAll_Inr [OF c] obtain t where "rs' = map (birth t) rs" by blast
  then show thesis using CreateAll_Inr [OF c] v h by (intro that) (auto simp: visible_eq)
qed

lemma hooked_CreateAll_Inl:
  "bindE h (gCreateAll T) w = (Inl e, w') \<Longrightarrow> keeps visible h \<Longrightarrow> visible w' = visible w"
  unfolding bindE_Inl by (metis CreateAll_Inl keepsD)

end

locale gorm_table_up = gorm_table T tab upd pk clash live birth renew
  for T :: "('r, 'h) gtable" and tab upd pk clash live birth renew +
  fixes up :: "'h world \<Rightarrow> bool"
  assumes Create_up: "up w \<Longrightarrow> \<forall>x\<in>set (tab (db w)). \<not> clash r x \<Longrightarrow>
      \<exists>r' w'. gCreate T r w = (Inr r', w') \<and> up w'"
    and Create_clash: "up w \<Longrightarrow> \<exists>x\<in>set (tab (db w)). clash r x \<Longrightarrow>
      \<exists>m w'. gCreate T r w = (Inl (PgError ''23505'' m), w')"
    and CreateAll_up: "up w \<Longrightarrow> \<forall>r\<in>set rs. \<forall>x\<in>set (tab (db w)). \<not> clash r x \<Longrightarrow>
      sorted_wrt (\<lambda>a b. \<not> clash b a) rs \<Longrightarrow> \<exists>rs' w'. gCreateAll T rs w = (Inr rs', w') \<and> up w'"
    and CreateAll_clash: "up w \<Longrightarrow> \<not> ((\<forall>r\<in>set rs. \<forall>x\<in>set (tab (db w)). \<not> clash r x) \<and>
      sorted_wrt (\<lambda>a b. \<not> clash b a) rs) \<Longrightarrow> \<exists>m w'. gCreateAll T rs w = (Inl (PgError ''23505'' m), w')"
    and First_up: "up w \<Longrightarrow> \<exists>r\<in>set (tab (db w)). live r \<and> P r \<Longrightarrow>
      \<exists>r w'. gFirst T P w = (Inr r, w') \<and> up w'"
    and First_none: "up w \<Longrightarrow> \<forall>r\<in>set (tab (db w)). \<not> (live r \<and> P r) \<Longrightarrow>
      \<exists>w'. gFirst T P w = (Inl ErrRecordNotFound, w') \<and> up w'"
    and FirstForUpdate_up: "up w \<Longrightarrow> \<exists>r\<in>set (tab (db w)). live r \<and> P r \<Longrightarrow>
      \<exists>r w'. gFirstForUpdate T P w = (Inr r, w') \<and> up w'"
    and FirstForUpdate_none: "up w \<Longrightarrow> \<forall>r\<in>set (tab (db w)). \<not> (live r \<and> P r) \<Longrightarrow>
      \<exists>w'. gFirstForUpdate T P w = (Inl ErrRecordNotFound, w') \<and> up w'"
    and Find_up: "up w \<Longrightarrow> \<exists>rs w'. gFind T q w = (Inr rs, w') \<and> up w'"
    and Count_up: "up w \<Longrightarrow> \<exists>n w'. gCount T P w = (Inr n, w') \<and> up w'"
    and Save_up: "up w \<Longrightarrow> \<exists>x\<in>set (tab (db w)). pk x = pk r \<and> live x \<Longrightarrow>
      \<forall>x\<in>set (tab (db w)). pk x \<noteq> pk r \<longrightarrow> \<not> clash r x \<Longrightarrow>
      \<exists>r' w'. gSave T r w = (Inr r', w') \<and> up w'"
    and Updates_up: "up w \<Longrightarrow> \<forall>x. pk (g x) = pk x \<Longrightarrow> \<forall>x y. clash (g x) y = clash x y \<Longrightarrow>
      \<exists>w'. gUpdates T i g w = (Inr (), w') \<and> up w'"

section \<open>Laws of the database handle\<close>

locale gorm_laws =
  users: gorm_table "Users G" users users_update ID user_clash user_live born touch +
  wallets: gorm_table "Wallets G" wallets wallets_update ID wallet_clash wallet_live born touch +
  transactions: gorm_table "Transactions G" transactions transactions_update ID
    transaction_clash "\<lambda>_. True" born touch +
  entries: gorm_table "LedgerEntries G" ledger_entries ledger_entries_update entry_ID
    ledger_entry_clash "\<lambda>_. True" entry_born "\<lambda>_ r. r" +
  idem: gorm_table "IdempotencyKeys G" idempotency_keys idempotency_keys_update idem_ID
    idempotency_key_clash "\<lambda>_. True" idem_born "\<lambda>_ r. r" +
  outbox: gorm_table "OutboxEvents G" outbox_events outbox_events_update ID
    outbox_event_clash "\<lambda>_. True" born touch
  for G :: "'h gorm" +
  assumes Delete_Inr: "DeleteUser G P w = (Inr u, w') \<Longrightarrow>
      \<exists>t. visible w' = ((db w)\<lparr>users := map (\<lambda>x. if user_live x \<and> P x
        then x\<lparr>user_DeletedAt := Some t\<rparr> else x) (users (db w))\<rparr>, kv w, streams w)"
    and Delete_Inl: "DeleteUser G P w = (Inl e, w') \<Longrightarrow> visible w' = visible w"
    and Transaction_cases: "Transaction G f w = (res, w') \<Longrightarrow>
      (\<exists>e. res = Inl e \<and> (\<forall>a. e \<noteq> AppErr a) \<and> visible w' = visible w) \<or>
      (\<exists>w1 r w2. visible w1 = visible w \<and> f w1 = (r, w2) \<and>
        ((\<exists>a. r = Inr a \<and> res = Inr a \<and> visible w' = visible w2) \<or>
         (\<exists>e. res = Inl e \<and> (r = Inl e \<or> (\<exists>a. r = Inr a) \<and> (\<forall>a. e \<noteq> AppErr a)) \<and>
           visible w' = (db w, kv w2, streams w2))))"
begin

text \<open>The function of a committed transaction ran on the database as it was, and its changes stay.\<close>

lemma Transaction_Inr:
  assumes "Transaction G f w = (Inr a, w')"
  obtains w1 w2 where "visible w1 = visible w" "f w1 = (Inr a, w2)" "visible w' = visible w2"
  using Transaction_cases [OF assms] by auto

text \<open>An application error comes from the function: the library does not make one.\<close>

lemma Transaction_AppErr:
  assumes "Transaction G f w = (Inl (AppErr a), w')"
  obtains w1 w2 where "visible w1 = visible w" "f w1 = (Inl (AppErr a), w2)"
  using Transaction_cases [OF assms] by auto

text \<open>A failed transaction changes nothing, when its function works on the database only.\<close>

lemma Transaction_Inl:
  assumes "Transaction G f w = (Inl e, w')" "keeps kv f" "keeps streams f"
  shows "visible w' = visible w"
  using Transaction_cases [OF assms(1)] assms(2,3)
  by (fastforce simp: visible_def keeps_def)

end

locale gorm_up = gorm_laws G +
  users: gorm_table_up "Users G" users users_update ID user_clash user_live born touch up +
  wallets: gorm_table_up "Wallets G" wallets wallets_update ID wallet_clash wallet_live born touch up +
  transactions: gorm_table_up "Transactions G" transactions transactions_update ID
    transaction_clash "\<lambda>_. True" born touch up +
  entries: gorm_table_up "LedgerEntries G" ledger_entries ledger_entries_update entry_ID
    ledger_entry_clash "\<lambda>_. True" entry_born "\<lambda>_ r. r" up +
  idem: gorm_table_up "IdempotencyKeys G" idempotency_keys idempotency_keys_update idem_ID
    idempotency_key_clash "\<lambda>_. True" idem_born "\<lambda>_ r. r" up +
  outbox: gorm_table_up "OutboxEvents G" outbox_events outbox_events_update ID
    outbox_event_clash "\<lambda>_. True" born touch up
  for G :: "'h gorm" and up :: "'h world \<Rightarrow> bool" +
  assumes Delete_up: "up w \<Longrightarrow> \<exists>w'. DeleteUser G P w = (Inr (), w') \<and> up w'"
    and Transaction_up: "up w \<Longrightarrow> \<exists>w1. visible w1 = visible w \<and> up w1 \<and>
      (\<forall>a w2. f w1 = (Inr a, w2) \<longrightarrow> up w2 \<longrightarrow>
        (\<exists>w'. Transaction G f w = (Inr a, w') \<and> visible w' = visible w2 \<and> up w')) \<and>
      (\<forall>e w2. f w1 = (Inl e, w2) \<longrightarrow> (\<exists>w'. Transaction G f w = (Inl e, w')))"

end
