(* ===== verification/Store.thy ===== *)
theory Store
  imports Gorm
begin

text \<open>
  A reference engine for the parameters: the runtime and the statements of gorm executed over the
  tables of the model, with every constraint the models declare, a clock, and a list of scheduled
  faults (a statement whose turn is \<open>True\<close> fails with a connection error and changes nothing). It
  discharges the laws of \<open>runtime_up\<close> and \<open>gorm_up\<close>, so they can hold together, and the witnesses
  of the development run on it.
\<close>

record engine =
  clock :: int
  next_uuid :: nat
  faults :: "bool list"

definition healthy :: "engine world \<Rightarrow> bool" where
  "healthy w \<longleftrightarrow> faults (host w) = []"

section \<open>Runtime\<close>

definition eng_New :: "engine world \<Rightarrow> uuid \<times> engine world" where
  "eng_New w = (let u = of_nat (next_uuid (host w)) :: uuid
     in (if u = 0 then 1 else u, w\<lparr>host := (host w)\<lparr>next_uuid := next_uuid (host w) + 1\<rparr>\<rparr>))"

definition eng_Now :: "engine world \<Rightarrow> time \<times> engine world" where
  "eng_Now w = (clock (host w), w\<lparr>host := (host w)\<lparr>clock := clock (host w) + 1\<rparr>\<rparr>)"

definition hex_char :: "nat \<Rightarrow> char" where
  "hex_char n = (if n < 10 then char_of (48 + n) else char_of (87 + n))"

definition hex_val :: "char \<Rightarrow> nat" where
  "hex_val c = (let n = of_char c :: nat in if n < 58 then n - 48 else n - 87)"

fun hexs :: "nat \<Rightarrow> nat \<Rightarrow> string" where
  "hexs 0 n = []"
| "hexs (Suc k) n = hexs k (n div 16) @ [hex_char (n mod 16)]"

definition unhex :: "string \<Rightarrow> nat" where
  "unhex s = foldl (\<lambda>a c. a * 16 + hex_val c) 0 s"

definition eng_uuid_String :: "uuid \<Rightarrow> string" where
  "eng_uuid_String u = (let h = hexs 32 (unat u)
     in take 8 h @ ''-'' @ take 4 (drop 8 h) @ ''-'' @ take 4 (drop 12 h) @ ''-''
        @ take 4 (drop 16 h) @ ''-'' @ drop 20 h)"

definition eng_uuid_Parse :: "string \<Rightarrow> go_error + uuid" where
  "eng_uuid_Parse s =
    (if length s \<noteq> 36 then Inl (PlainError ''invalid UUID length'')
     else Inr (of_nat (unhex (take 8 s @ take 4 (drop 9 s) @ take 4 (drop 14 s)
       @ take 4 (drop 19 s) @ drop 24 s))))"

definition eng_time_String :: "time \<Rightarrow> string" where
  "eng_time_String t = (if t < 0 then CHR ''-'' # dec (nat (- t)) else dec (nat t))"

definition eng_time_Parse :: "string \<Rightarrow> go_error + time" where
  "eng_time_Parse s = (case s of
     [] \<Rightarrow> Inl (PlainError ''parsing time'')
   | c # cs \<Rightarrow> if c = CHR ''-'' then Inr (- int (undec cs)) else Inr (int (undec s)))"

fun json_text :: "json \<Rightarrow> string" and json_texts :: "json list \<Rightarrow> string"
  and field_texts :: "(string \<times> json) list \<Rightarrow> string" where
  "json_text JNull = ''null''"
| "json_text (JBool b) = (if b then ''true'' else ''false'')"
| "json_text (JNum s) = s"
| "json_text (JStr s) = CHR 0x22 # s @ [CHR 0x22]"
| "json_text (JArr js) = ''['' @ json_texts js @ '']''"
| "json_text (JObj kvs) = ''{'' @ field_texts kvs @ ''}''"
| "json_texts [] = []"
| "json_texts (j # js) = json_text j @ '','' @ json_texts js"
| "field_texts [] = []"
| "field_texts ((k, j) # kvs) = k @ '':'' @ json_text j @ '','' @ field_texts kvs"

definition eng_runtime :: "engine runtime" where
  "eng_runtime = \<lparr>uuid_New = eng_New, time_Now = eng_Now, uuid_String = eng_uuid_String,
     uuid_Parse = eng_uuid_Parse, time_String = eng_time_String, time_Parse = eng_time_Parse,
     sha256_hex = json_text\<rparr>"

lemma length_hexs [simp]: "length (hexs k n) = k"
  by (induction k arbitrary: n) auto

lemma hex_val_char: "n < 16 \<Longrightarrow> hex_val (hex_char n) = n"
  by (auto simp: hex_val_def hex_char_def Let_def)

lemma unhex_snoc: "unhex (s @ [c]) = unhex s * 16 + hex_val c"
  by (simp add: unhex_def)

lemma unhex_hexs: "n < 16 ^ k \<Longrightarrow> unhex (hexs k n) = n"
proof (induction k arbitrary: n)
  case 0
  then show ?case by (simp add: unhex_def)
next
  case (Suc k)
  then have "n div 16 < 16 ^ k" by (simp add: div_less_iff_less_mult mult.commute)
  with Suc.IH show ?case by (simp add: unhex_snoc hex_val_char)
qed

lemma five_groups:
  "take 8 h @ take 4 (drop 8 h) @ take 4 (drop 12 h) @ take 4 (drop 16 h) @ drop 20 h = h"
proof -
  have "take 8 h @ take 4 (drop 8 h) = take 12 h" using take_add[of 8 4 h] by simp
  moreover have "take 12 h @ take 4 (drop 12 h) = take 16 h" using take_add[of 12 4 h] by simp
  moreover have "take 16 h @ take 4 (drop 16 h) = take 20 h" using take_add[of 16 4 h] by simp
  ultimately show ?thesis by (metis append.assoc append_take_drop_id)
qed

lemma uuid_Parse_String: "eng_uuid_Parse (eng_uuid_String u) = Inr u"
proof -
  have "unat u < 2 ^ LENGTH(128)" by (rule unsigned_less)
  then have "unat u < 16 ^ 32" by simp
  then have "unhex (hexs 32 (unat u)) = unat u" by (rule unhex_hexs)
  then show ?thesis
    using five_groups[of "hexs 32 (unat u)"]
    by (simp add: eng_uuid_Parse_def eng_uuid_String_def Let_def)
qed

lemma time_Parse_String: "eng_time_Parse (eng_time_String t) = Inr t"
proof (cases "t < 0")
  case True
  then show ?thesis by (simp add: eng_time_Parse_def eng_time_String_def)
next
  case False
  obtain c cs where c: "dec (nat t) = c # cs" by (cases "dec (nat t)") auto
  with undec_dec[of "nat t"] False have "int (undec (c # cs)) = t" by simp
  with c False hd_dec_not_sign[OF c] show ?thesis
    by (simp add: eng_time_Parse_def eng_time_String_def)
qed

interpretation eng_runtime: runtime_up eng_runtime healthy
  by unfold_locales
    (auto simp: eng_runtime_def eng_New_def eng_Now_def Let_def visible_def uuid_Nil_def healthy_def
      uuid_Parse_String time_Parse_String)

section \<open>Statements\<close>

text \<open>A scheduled fault is consumed by the next statement.\<close>

definition fault :: "(engine, unit) go" where
  "fault w = (case faults (host w) of [] \<Rightarrow> (Inr (), w)
     | b # bs \<Rightarrow> (if b then Inl (PlainError ''connection reset'') else Inr (),
                 w\<lparr>host := (host w)\<lparr>faults := bs\<rparr>\<rparr>))"

definition duplicate :: go_error where
  "duplicate = PgError ''23505'' ''ERROR: duplicate key value violates unique constraint (SQLSTATE 23505)''"

text \<open>Replace the database by a statement that succeeds or reports an error.\<close>

definition exec :: "(time \<Rightarrow> db \<Rightarrow> go_error + 'a \<times> db) \<Rightarrow> (engine, 'a) go" where
  "exec f = bindE fault (\<lambda>_. bindE (liftS eng_Now) (\<lambda>t w.
     (case f t (db w) of Inl e \<Rightarrow> (Inl e, w) | Inr (a, d) \<Rightarrow> (Inr a, w\<lparr>db := d\<rparr>))))"

fun insert_all :: "('r \<Rightarrow> 'r \<Rightarrow> bool) \<Rightarrow> (time \<Rightarrow> 'r \<Rightarrow> 'r) \<Rightarrow> time \<Rightarrow> 'r list \<Rightarrow> 'r list \<Rightarrow> 'r list option" where
  "insert_all clash birth t rows [] = Some []"
| "insert_all clash birth t rows (r # rs) =
     (if list_ex (clash r) rows then None
      else map_option (Cons (birth t r)) (insert_all clash birth t (rows @ [r]) rs))"

definition first_row :: "('r \<Rightarrow> bool) \<Rightarrow> 'r list \<Rightarrow> go_error + 'r" where
  "first_row p rows = (case filter p rows of [] \<Rightarrow> Inl ErrRecordNotFound | r # _ \<Rightarrow> Inr r)"

definition eng_first :: "(db \<Rightarrow> 'r list) \<Rightarrow> ('r \<Rightarrow> bool) \<Rightarrow> ('r \<Rightarrow> bool) \<Rightarrow> (engine, 'r) go" where
  "eng_first tab live P = exec (\<lambda>t d.
     case first_row (\<lambda>r. live r \<and> P r) (tab d) of Inl e \<Rightarrow> Inl e | Inr r \<Rightarrow> Inr (r, d))"

definition eng_table ::
  "(db \<Rightarrow> 'r list) \<Rightarrow> (('r list \<Rightarrow> 'r list) \<Rightarrow> db \<Rightarrow> db) \<Rightarrow> ('r \<Rightarrow> uuid) \<Rightarrow> ('r \<Rightarrow> 'r \<Rightarrow> bool) \<Rightarrow>
   ('r \<Rightarrow> bool) \<Rightarrow> (time \<Rightarrow> 'r \<Rightarrow> 'r) \<Rightarrow> (time \<Rightarrow> 'r \<Rightarrow> 'r) \<Rightarrow> ('r, engine) gtable" where
  "eng_table tab upd pk clash live birth renew =
   \<lparr>gCreate = (\<lambda>r. exec (\<lambda>t d.
      if list_ex (clash r) (tab d) then Inl duplicate
      else Inr (birth t r, upd (\<lambda>xs. xs @ [birth t r]) d))),
    gCreateAll = (\<lambda>rs. exec (\<lambda>t d.
      case insert_all clash birth t (tab d) rs of None \<Rightarrow> Inl duplicate
      | Some rs' \<Rightarrow> Inr (rs', upd (\<lambda>xs. xs @ rs') d))),
    gCreateDoNothing = (\<lambda>r. exec (\<lambda>t d.
      if list_ex (clash r) (tab d) then Inr ((), d)
      else Inr ((), upd (\<lambda>xs. xs @ [birth t r]) d))),
    gFirst = eng_first tab live,
    gFirstForUpdate = eng_first tab live,
    gFind = (\<lambda>q. exec (\<lambda>t d. Inr (window (Offset q) (QLimit q)
      (sort_key (Order q) (filter (\<lambda>r. live r \<and> Where q r) (tab d))), d))),
    gCount = (\<lambda>P. exec (\<lambda>t d. Inr (of_nat (length (filter (\<lambda>r. live r \<and> P r) (tab d))), d))),
    gSave = (\<lambda>r. exec (\<lambda>t d.
      if list_ex (\<lambda>x. pk x \<noteq> pk r \<and> clash r x) (tab d) then Inl duplicate
      else Inr (renew t r, upd (replace_row (\<lambda>x. pk x = pk r \<and> live x) (renew t r)) d))),
    gUpdates = (\<lambda>i f. exec (\<lambda>t d.
      Inr ((), upd (map (\<lambda>x. if pk x = i \<and> live x then renew t (f x) else x)) d)))\<rparr>"

definition eng_delete_user :: "(user \<Rightarrow> bool) \<Rightarrow> (engine, unit) go" where
  "eng_delete_user P = exec (\<lambda>t d. Inr ((), d\<lparr>users := map (\<lambda>x. if user_live x \<and> P x
     then x\<lparr>user_DeletedAt := Some t\<rparr> else x) (users d)\<rparr>))"

definition eng_transaction :: "(engine, tx_result) go \<Rightarrow> (engine, tx_result) go" where
  "eng_transaction f = bindE fault (\<lambda>_ w.
     (case f w of (Inl e, w2) \<Rightarrow> (Inl e, w2\<lparr>db := db w\<rparr>)
      | (Inr a, w2) \<Rightarrow> (case fault w2 of (Inl e, w3) \<Rightarrow> (Inl e, w3\<lparr>db := db w\<rparr>)
                       | (Inr u, w3) \<Rightarrow> (Inr a, w3))))"

definition eng_gorm :: "engine gorm" where
  "eng_gorm = \<lparr>Users = eng_table users users_update ID user_clash user_live born touch,
     DeleteUser = eng_delete_user,
     Wallets = eng_table wallets wallets_update ID wallet_clash wallet_live born touch,
     Transactions = eng_table transactions transactions_update ID transaction_clash (\<lambda>_. True) born touch,
     LedgerEntries = eng_table ledger_entries ledger_entries_update entry_ID ledger_entry_clash
       (\<lambda>_. True) entry_born (\<lambda>_ r. r),
     IdempotencyKeys = eng_table idempotency_keys idempotency_keys_update idem_ID
       idempotency_key_clash (\<lambda>_. True) idem_born (\<lambda>_ r. r),
     OutboxEvents = eng_table outbox_events outbox_events_update ID outbox_event_clash
       (\<lambda>_. True) born touch,
     Transaction = eng_transaction\<rparr>"

section \<open>The engine keeps the laws\<close>

lemma fault_visible: "fault w = (r, w') \<Longrightarrow> visible w' = visible w"
  by (auto simp: fault_def visible_def split: list.splits)

lemma fault_error: "fault w = (Inl e, w') \<Longrightarrow> e = PlainError ''connection reset''"
  by (auto simp: fault_def split: list.splits if_splits)

lemma fault_healthy: "healthy w \<Longrightarrow> fault w = (Inr (), w)"
  by (simp add: fault_def healthy_def)

lemma exec_cases:
  assumes "exec f w = (r, w')"
  obtains (fault) e where "r = Inl e" "visible w' = visible w"
  | (run) t where "r = (case f t (db w) of Inl e \<Rightarrow> Inl e | Inr (a, d) \<Rightarrow> Inr a)"
      "visible w' = (case f t (db w) of Inl e \<Rightarrow> visible w | Inr (a, d) \<Rightarrow> (d, kv w, streams w))"
proof (cases "fault w")
  case (Pair q w1)
  then have v: "visible w1 = visible w" by (rule fault_visible)
  show thesis
  proof (cases q)
    case (Inl e)
    with Pair assms v show thesis by (intro fault [of e]) (auto simp: exec_def bindE_def)
  next
    case (Inr u)
    with Pair assms v show thesis
      by (intro run [of "clock (host w1)"])
        (auto simp: exec_def bindE_def liftS_def eng_Now_def visible_def split: sum.splits)
  qed
qed

lemma exec_Inr:
  assumes "exec f w = (Inr a, w')"
  obtains t d where "f t (db w) = Inr (a, d)" "visible w' = (d, kv w, streams w)"
  using assms by (cases rule: exec_cases) (auto split: sum.splits prod.splits)

lemma exec_Inl: "exec f w = (Inl e, w') \<Longrightarrow> visible w' = visible w"
  by (erule exec_cases) (auto split: sum.splits prod.splits)

lemma exec_healthy: "healthy w \<Longrightarrow>
  exec f w = (case f (clock (host w)) (db w) of
     Inl e \<Rightarrow> (Inl e, w\<lparr>host := (host w)\<lparr>clock := clock (host w) + 1\<rparr>\<rparr>)
   | Inr (a, d) \<Rightarrow> (Inr a, w\<lparr>host := (host w)\<lparr>clock := clock (host w) + 1\<rparr>, db := d\<rparr>))"
  by (simp add: exec_def bindE_def fault_healthy liftS_def eng_Now_def split: sum.splits)

lemma exec_up: "healthy w \<Longrightarrow> f (clock (host w)) (db w) = Inr (a, d) \<Longrightarrow>
    \<exists>w'. exec f w = (Inr a, w') \<and> healthy w'"
  by (simp add: exec_healthy healthy_def)

lemma exec_up_ex: "healthy w \<Longrightarrow> \<exists>a d. f (clock (host w)) (db w) = Inr (a, d) \<Longrightarrow>
    \<exists>a w'. exec f w = (Inr a, w') \<and> healthy w'"
  by (metis exec_up)

lemma exec_fails: "healthy w \<Longrightarrow> f (clock (host w)) (db w) = Inl e \<Longrightarrow>
    \<exists>w'. exec f w = (Inl e, w') \<and> healthy w'"
  by (simp add: exec_healthy healthy_def)

lemma exec_fails_pg: "healthy w \<Longrightarrow> f (clock (host w)) (db w) = Inl (PgError c m) \<Longrightarrow>
    \<exists>m w'. exec f w = (Inl (PgError c m), w')"
  by (simp add: exec_healthy)

lemma first_row_Inr: "first_row p rows = Inr r \<Longrightarrow> r \<in> set rows \<and> p r"
  by (auto simp: first_row_def dest!: arg_cong[of _ _ set] split: list.splits)

lemma first_row_some: "\<exists>x\<in>set rows. p x \<Longrightarrow> \<exists>r. first_row p rows = Inr r"
  by (auto simp: first_row_def filter_empty_conv split: list.splits)

lemma first_row_none: "\<forall>x\<in>set rows. \<not> p x \<Longrightarrow> first_row p rows = Inl ErrRecordNotFound"
  by (simp add: first_row_def)

lemma insert_all_Some:
  "insert_all clash birth t rows rs = Some rs' \<longleftrightarrow>
    rs' = map (birth t) rs \<and> (\<forall>r\<in>set rs. \<forall>x\<in>set rows. \<not> clash r x) \<and> sorted_wrt (\<lambda>a b. \<not> clash b a) rs"
  by (induction rs arbitrary: rows rs') (auto simp: list_ex_iff)

lemma eng_table_laws:
  assumes "\<And>f d. tab (upd f d) = f (tab d)" "\<And>a b. pk a = pk b \<Longrightarrow> clash a b"
  shows "gorm_table (eng_table tab upd pk clash live birth renew) tab upd pk clash live birth renew"
proof (unfold_locales, goal_cases)
  case (3 r w r' w')
  then show ?case
    by (auto simp: eng_table_def list_ex_iff split: if_splits elim!: exec_Inr)
next
  case (5 rs w rs' w')
  then show ?case
    by (auto simp: eng_table_def insert_all_Some split: option.splits elim!: exec_Inr)
next
  case (7 r w u w')
  then show ?case
    by (auto simp: eng_table_def list_ex_iff visible_def split: if_splits elim!: exec_Inr)
next
  case (9 P w r w')
  then show ?case
    by (auto simp: eng_table_def eng_first_def dest!: first_row_Inr split: sum.splits elim!: exec_Inr)
next
  case (10 P)
  show ?case unfolding keeps_def
    by (auto simp: eng_table_def eng_first_def elim!: exec_cases split: sum.splits)
       (auto simp: visible_def)
next
  case (11 P w r w')
  then show ?case
    by (auto simp: eng_table_def eng_first_def dest!: first_row_Inr split: sum.splits elim!: exec_Inr)
next
  case (12 P)
  show ?case unfolding keeps_def
    by (auto simp: eng_table_def eng_first_def elim!: exec_cases split: sum.splits)
       (auto simp: visible_def)
next
  case (13 q w rs w')
  then show ?case
    by (auto simp: eng_table_def selected_def intro!: exI[of _ "sort_key (Order q) _"] elim!: exec_Inr)
next
  case (14 q)
  show ?case unfolding keeps_def
    by (auto simp: eng_table_def elim!: exec_cases) (auto simp: visible_def)
next
  case (15 P w n w')
  then show ?case by (auto simp: eng_table_def elim!: exec_Inr)
next
  case (16 P)
  show ?case unfolding keeps_def
    by (auto simp: eng_table_def elim!: exec_cases) (auto simp: visible_def)
next
  case (17 r w r' w')
  then show ?case
    by (auto simp: eng_table_def list_ex_iff split: if_splits elim!: exec_Inr)
next
  case (19 i g w u w')
  then show ?case by (auto simp: eng_table_def elim!: exec_Inr)
next
  case (21 r)
  show ?case unfolding keeps_def
    by (auto simp: eng_table_def visible_def elim!: exec_cases split: if_splits)
qed (use assms in \<open>auto simp: eng_table_def dest: exec_Inl\<close>)

lemma eng_table_up_axioms:
  "gorm_table_up_axioms (eng_table tab upd pk clash live birth renew) tab pk clash live healthy"
proof (unfold_locales, goal_cases)
  case (1 w r)
  then show ?case by (auto simp: eng_table_def list_ex_iff intro!: exec_up)
next
  case (2 w r)
  then show ?case by (auto simp: eng_table_def list_ex_iff duplicate_def intro!: exec_fails_pg)
next
  case (3 w rs)
  then have "insert_all clash birth t (tab (db w)) rs = Some (map (birth t) rs)" for t
    by (simp add: insert_all_Some)
  with 3 show ?case by (auto simp: eng_table_def intro!: exec_up)
next
  case (4 w rs)
  then have "insert_all clash birth t (tab (db w)) rs = None" for t
    using insert_all_Some [of clash birth t "tab (db w)" rs] by (cases "insert_all clash birth t (tab (db w)) rs") auto
  with 4 show ?case by (auto simp: eng_table_def duplicate_def intro!: exec_fails_pg)
next
  case (5 w P)
  with first_row_some[of "tab (db w)" "\<lambda>r. live r \<and> P r"]
  show ?case by (fastforce simp: eng_table_def eng_first_def intro!: exec_up)
next
  case (6 w P)
  with first_row_none[of "tab (db w)" "\<lambda>r. live r \<and> P r"]
  show ?case by (auto simp: eng_table_def eng_first_def intro!: exec_fails)
next
  case (7 w P)
  with first_row_some[of "tab (db w)" "\<lambda>r. live r \<and> P r"]
  show ?case by (fastforce simp: eng_table_def eng_first_def intro!: exec_up)
next
  case (8 w P)
  with first_row_none[of "tab (db w)" "\<lambda>r. live r \<and> P r"]
  show ?case by (auto simp: eng_table_def eng_first_def intro!: exec_fails)
next
  case (9 w q)
  then show ?case by (auto simp: eng_table_def intro!: exec_up)
next
  case (10 w P)
  then show ?case by (auto simp: eng_table_def intro!: exec_up)
next
  case (11 w r)
  then show ?case by (auto simp: eng_table_def list_ex_iff intro!: exec_up_ex)
next
  case (12 w g i)
  then show ?case by (auto simp: eng_table_def intro!: exec_up)
qed

lemma eng_transaction_cases:
  assumes "eng_transaction f w = (res, w')"
  shows "(\<exists>e. res = Inl e \<and> (\<forall>a. e \<noteq> AppErr a) \<and> visible w' = visible w) \<or>
      (\<exists>w1 r w2. visible w1 = visible w \<and> f w1 = (r, w2) \<and>
        ((\<exists>a. r = Inr a \<and> res = Inr a \<and> visible w' = visible w2) \<or>
         (\<exists>e. res = Inl e \<and> (r = Inl e \<or> (\<exists>a. r = Inr a) \<and> (\<forall>a. e \<noteq> AppErr a)) \<and>
           visible w' = (db w, kv w2, streams w2))))"
proof (cases "fault w")
  case (Pair q w1)
  then have v: "visible w1 = visible w" by (rule fault_visible)
  show ?thesis
  proof (cases q)
    case (Inl e)
    with Pair have "\<forall>a. e \<noteq> AppErr a" by (auto dest: fault_error)
    with Inl Pair assms v show ?thesis by (auto simp: eng_transaction_def bindE_def)
  next
    case (Inr u)
    obtain r w2 where f: "f w1 = (r, w2)" by (cases "f w1")
    show ?thesis
    proof (cases r)
      case (Inl e)
      with Pair Inr f assms v have "res = Inl e" "visible w' = (db w, kv w2, streams w2)"
        by (auto simp: eng_transaction_def bindE_def visible_def)
      with f v Inl show ?thesis by blast
    next
      case r: (Inr a)
      obtain q2 w3 where f2: "fault w2 = (q2, w3)" by (cases "fault w2")
      with fault_visible have v2: "visible w3 = visible w2" by blast
      have "\<forall>a. q2 \<noteq> Inl (AppErr a)" using f2 by (auto dest: fault_error)
      with Pair Inr f assms v r f2 v2 have
        "(\<exists>e. res = Inl e \<and> (\<forall>a. e \<noteq> AppErr a) \<and> visible w' = (db w, kv w2, streams w2)) \<or>
         (res = Inr a \<and> visible w' = visible w2)"
        by (auto simp: eng_transaction_def bindE_def visible_def split: sum.splits)
      with f v r show ?thesis by blast
    qed
  qed
qed

lemma eng_transaction_up: "healthy w \<Longrightarrow> \<exists>w1. visible w1 = visible w \<and> healthy w1 \<and>
      (\<forall>a w2. f w1 = (Inr a, w2) \<longrightarrow> healthy w2 \<longrightarrow>
        (\<exists>w'. eng_transaction f w = (Inr a, w') \<and> visible w' = visible w2 \<and> healthy w')) \<and>
      (\<forall>e w2. f w1 = (Inl e, w2) \<longrightarrow> (\<exists>w'. eng_transaction f w = (Inl e, w')))"
  by (rule exI[of _ w]) (auto simp: eng_transaction_def bindE_def fault_healthy)

lemma eng_delete_cases:
  "eng_delete_user P w = (Inr u, w') \<Longrightarrow>
      \<exists>t. visible w' = ((db w)\<lparr>users := map (\<lambda>x. if user_live x \<and> P x
        then x\<lparr>user_DeletedAt := Some t\<rparr> else x) (users (db w))\<rparr>, kv w, streams w)"
  "eng_delete_user P w = (Inl e, w') \<Longrightarrow> visible w' = visible w"
  "healthy w \<Longrightarrow> \<exists>w'. eng_delete_user P w = (Inr (), w') \<and> healthy w'"
  by (auto simp: eng_delete_user_def intro!: exec_up dest: exec_Inl elim!: exec_Inr)

interpretation eng_gorm: gorm_up eng_gorm healthy
  unfolding gorm_up_def gorm_laws_def gorm_table_up_def gorm_laws_axioms_def gorm_up_axioms_def
    eng_gorm_def gorm.simps
  by (intro conjI allI impI eng_table_laws eng_table_up_axioms)
    ((fact eng_transaction_cases eng_transaction_up eng_delete_cases | simp add: clash_defs)+)

end
