(* ===== verification/Repository.thy ===== *)
theory Repository
  imports Store "HOL-Library.List_Lexorder" "HOL-Library.Char_ord"
begin

text \<open>
  The package \<open>internal/repository\<close>: one group of definitions per repository, each method a
  statement of the database handle, with the hooks of \<open>internal/model\<close> run by \<open>Create\<close>. The
  handle and the runtime are the fields of the environment \<open>E\<close>; \<open>WithTx(tx)\<close> is the same
  repository, run on the world the transaction shows it. The locale \<open>env_laws\<close> puts the laws of
  both parameters together; its lemmas say what each method returns and changes.
\<close>

record 'h env =
  DB :: "'h gorm"
  RT :: "'h runtime"

section \<open>helpers.go\<close>

definition IsNotFound :: "go_error \<Rightarrow> bool" where
  "IsNotFound err = errors_Is err ErrRecordNotFound"

definition IsDuplicate :: "go_error option \<Rightarrow> bool" where
  "IsDuplicate err = (case err of None \<Rightarrow> False
     | Some e \<Rightarrow> (case errors_As_PgError e of Some (c, _) \<Rightarrow> c = ''23505'' | None \<Rightarrow> False)
         \<or> Contains (ToLower (Error e)) ''unique constraint failed''
         \<or> Contains (ToLower (Error e)) ''duplicate key value'')"

definition NormalizePagination ::
  "int64 \<Rightarrow> int64 \<Rightarrow> int64 \<Rightarrow> int64 \<Rightarrow> int64 \<times> int64" where
  "NormalizePagination page limit defaultLimit maxLimit =
    (let page = (if sint page \<le> 0 then 1 else page);
         limit = (if sint limit \<le> 0 then defaultLimit else limit);
         limit = (if sint limit > sint maxLimit then maxLimit else limit)
     in (page, limit))"

section \<open>user\_repository.go\<close>

definition UserRepository_Create :: "'h env \<Rightarrow> user \<Rightarrow> ('h, user) go" where
  "UserRepository_Create E u = bindE (User_BeforeCreate (RT E) u) (gCreate (Users (DB E)))"

definition UserRepository_List :: "'h env \<Rightarrow> int64 \<Rightarrow> int64 \<Rightarrow> ('h, user list \<times> int64) go" where
  "UserRepository_List E page limit =
    bindE (gCount (Users (DB E)) (\<lambda>_. True)) (\<lambda>total.
    let offset = (page - 1) * limit in
    bindE (gFind (Users (DB E)) \<lparr>Where = \<lambda>_. True, Order = \<lambda>u. - CreatedAt u,
             Offset = sint offset, QLimit = Some (sint limit), LockUpdate = False\<rparr>) (\<lambda>us.
    returnE (us, total)))"

definition UserRepository_GetByID :: "'h env \<Rightarrow> uuid \<Rightarrow> ('h, user) go" where
  "UserRepository_GetByID E i = gFirst (Users (DB E)) (\<lambda>u. ID u = i)"

definition UserRepository_Update :: "'h env \<Rightarrow> user \<Rightarrow> ('h, user) go" where
  "UserRepository_Update E u = gSave (Users (DB E)) u"

definition UserRepository_Delete :: "'h env \<Rightarrow> uuid \<Rightarrow> ('h, unit) go" where
  "UserRepository_Delete E i = DeleteUser (DB E) (\<lambda>u. ID u = i)"

section \<open>wallet\_repository.go\<close>

definition WalletRepository_Create :: "'h env \<Rightarrow> wallet \<Rightarrow> ('h, wallet) go" where
  "WalletRepository_Create E wl = bindE (Wallet_BeforeCreate (RT E) wl) (gCreate (Wallets (DB E)))"

definition WalletRepository_GetByID :: "'h env \<Rightarrow> uuid \<Rightarrow> ('h, wallet) go" where
  "WalletRepository_GetByID E i = gFirst (Wallets (DB E)) (\<lambda>wl. ID wl = i)"

definition WalletRepository_GetByUserID :: "'h env \<Rightarrow> uuid \<Rightarrow> ('h, wallet) go" where
  "WalletRepository_GetByUserID E userID = gFirst (Wallets (DB E)) (\<lambda>wl. UserID wl = userID)"

text \<open>The list of IDs is sorted by text before it is sent; rows come back, and are locked, by ID.\<close>

definition WalletRepository_GetByIDsForUpdate :: "'h env \<Rightarrow> uuid list \<Rightarrow> ('h, wallet list) go" where
  "WalletRepository_GetByIDsForUpdate E ids =
    (if ids = [] then returnE []
     else let ids = sort_key (uuid_String (RT E)) ids in
       gFind (Wallets (DB E)) \<lparr>Where = \<lambda>wl. List.member ids (ID wl), Order = \<lambda>wl. uint (ID wl),
         Offset = 0, QLimit = None, LockUpdate = True\<rparr>)"

definition WalletRepository_Update :: "'h env \<Rightarrow> wallet \<Rightarrow> ('h, wallet) go" where
  "WalletRepository_Update E wl = gSave (Wallets (DB E)) wl"

section \<open>transaction\_repository.go\<close>

record transaction_filters =
  filter_WalletID :: "uuid option"
  filter_Type :: "string option"
  filter_Status :: "string option"

definition TransactionRepository_Create :: "'h env \<Rightarrow> transaction \<Rightarrow> ('h, transaction) go" where
  "TransactionRepository_Create E t =
    bindE (Transaction_BeforeCreate (RT E) t) (gCreate (Transactions (DB E)))"

definition TransactionRepository_CreateLedgerEntries ::
  "'h env \<Rightarrow> ledger_entry list \<Rightarrow> ('h, ledger_entry list) go" where
  "TransactionRepository_CreateLedgerEntries E entries =
    (if entries = [] then returnE []
     else bindE (hooks (LedgerEntry_BeforeCreate (RT E)) entries) (gCreateAll (LedgerEntries (DB E))))"

definition TransactionRepository_GetByID :: "'h env \<Rightarrow> uuid \<Rightarrow> ('h, transaction) go" where
  "TransactionRepository_GetByID E i = gFirst (Transactions (DB E)) (\<lambda>t. ID t = i)"

definition TransactionRepository_GetByIDForUpdate :: "'h env \<Rightarrow> uuid \<Rightarrow> ('h, transaction) go" where
  "TransactionRepository_GetByIDForUpdate E i = gFirstForUpdate (Transactions (DB E)) (\<lambda>t. ID t = i)"

definition TransactionRepository_Update :: "'h env \<Rightarrow> transaction \<Rightarrow> ('h, transaction) go" where
  "TransactionRepository_Update E t = gSave (Transactions (DB E)) t"

text \<open>The conjunction of the \<open>Where\<close> clauses of the filters that are set.\<close>

definition filters_match :: "transaction_filters \<Rightarrow> transaction \<Rightarrow> bool" where
  "filters_match f t \<longleftrightarrow>
    (case filter_WalletID f of None \<Rightarrow> True
     | Some wid \<Rightarrow> SourceWalletID t = Some wid \<or> DestinationWalletID t = Some wid) \<and>
    (case filter_Type f of None \<Rightarrow> True | Some ty \<Rightarrow> Type t = ty) \<and>
    (case filter_Status f of None \<Rightarrow> True | Some st \<Rightarrow> Status t = st)"

definition TransactionRepository_List ::
  "'h env \<Rightarrow> int64 \<Rightarrow> int64 \<Rightarrow> transaction_filters \<Rightarrow> ('h, transaction list \<times> int64) go" where
  "TransactionRepository_List E page limit filters =
    bindE (gCount (Transactions (DB E)) (filters_match filters)) (\<lambda>total.
    let offset = (page - 1) * limit in
    bindE (gFind (Transactions (DB E)) \<lparr>Where = filters_match filters, Order = \<lambda>t. - CreatedAt t,
             Offset = sint offset, QLimit = Some (sint limit), LockUpdate = False\<rparr>) (\<lambda>ts.
    returnE (ts, total)))"

section \<open>idempotency\_repository.go\<close>

definition IdempotencyRepository_Get :: "'h env \<Rightarrow> string \<Rightarrow> string \<Rightarrow> ('h, idempotency_key) go" where
  "IdempotencyRepository_Get E key endpoint =
    gFirst (IdempotencyKeys (DB E)) (\<lambda>r. idem_Key r = key \<and> idem_Endpoint r = endpoint)"

definition IdempotencyRepository_Create :: "'h env \<Rightarrow> idempotency_key \<Rightarrow> ('h, idempotency_key) go" where
  "IdempotencyRepository_Create E record =
    bindE (IdempotencyKey_BeforeCreate (RT E) record) (gCreate (IdempotencyKeys (DB E)))"

definition IdempotencyRepository_SaveResponse ::
  "'h env \<Rightarrow> uuid \<Rightarrow> int \<Rightarrow> transaction_response \<Rightarrow> uuid option \<Rightarrow> ('h, unit) go" where
  "IdempotencyRepository_SaveResponse E recordID statusCode body resourceID =
    (let raw = response_to_json (RT E) body in
     gUpdates (IdempotencyKeys (DB E)) recordID (\<lambda>r. r\<lparr>ResponseStatusCode := Some statusCode,
       ResponseBodyJSON := Some raw, ResourceID := resourceID\<rparr>))"

section \<open>outbox\_repository.go\<close>

definition OutboxRepository_Create :: "'h env \<Rightarrow> outbox_event \<Rightarrow> ('h, outbox_event) go" where
  "OutboxRepository_Create E event =
    bindE (OutboxEvent_BeforeCreate (RT E) event) (gCreate (OutboxEvents (DB E)))"

definition OutboxRepository_FetchPending :: "'h env \<Rightarrow> int64 \<Rightarrow> ('h, outbox_event list) go" where
  "OutboxRepository_FetchPending E limit =
    gFind (OutboxEvents (DB E)) \<lparr>Where = \<lambda>e. outbox_Status e = OutboxStatusPending,
      Order = CreatedAt, Offset = 0, QLimit = Some (sint limit), LockUpdate = False\<rparr>"

definition OutboxRepository_MarkPublished :: "'h env \<Rightarrow> uuid \<Rightarrow> time \<Rightarrow> ('h, unit) go" where
  "OutboxRepository_MarkPublished E i publishedAt =
    gUpdates (OutboxEvents (DB E)) i (\<lambda>e. e\<lparr>outbox_Status := OutboxStatusPublished,
      PublishedAt := Some publishedAt, LastError := None\<rparr>)"

definition OutboxRepository_RecordFailure :: "'h env \<Rightarrow> uuid \<Rightarrow> string \<Rightarrow> ('h, unit) go" where
  "OutboxRepository_RecordFailure E i errMessage =
    gUpdates (OutboxEvents (DB E)) i (\<lambda>e. e\<lparr>RetryCount := RetryCount e + 1,
      LastError := Some errMessage, outbox_Status := OutboxStatusPending\<rparr>)"

section \<open>db.go\<close>

definition system_user :: user where
  "system_user = \<lparr>ID = SystemUserID, CreatedAt = 0, UpdatedAt = 0,
     ExternalRef = Some ''system-wallet-service'', FullName = ''System Wallet Service'',
     Email = ''system@wallet-service.local'', PhoneNumber = ''SYSTEM-WALLET'',
     user_Status = UserStatusActive, user_DeletedAt = None\<rparr>"

definition system_wallet :: wallet where
  "system_wallet = \<lparr>ID = SystemWalletID, CreatedAt = 0, UpdatedAt = 0, UserID = SystemUserID,
     wallet_Currency = CurrencyTHB, wallet_Status = WalletStatusActive, BalanceCachedMinor = 0,
     wallet_DeletedAt = None\<rparr>"

definition SeedSystemAccounts :: "'h env \<Rightarrow> ('h, unit) go" where
  "SeedSystemAccounts E =
    bindE (onErr (Errorf ''seed system user'')
      (bindE (User_BeforeCreate (RT E) system_user) (gCreateDoNothing (Users (DB E))))) (\<lambda>_.
    bindE (onErr (Errorf ''seed system wallet'')
      (bindE (Wallet_BeforeCreate (RT E) system_wallet) (gCreateDoNothing (Wallets (DB E))))) (\<lambda>_.
    returnE ()))"

section \<open>Laws of the environment\<close>

locale env_laws = gorm_laws "DB E" + runtime_laws "RT E" for E :: "'h env"
begin

text \<open>Create: the hook, then the statement; the row is appended, or nothing changes.\<close>

lemmas create_defs = UserRepository_Create_def WalletRepository_Create_def
  TransactionRepository_Create_def IdempotencyRepository_Create_def OutboxRepository_Create_def

lemma Create_Inl:
  "UserRepository_Create E u w = (Inl e, w') \<Longrightarrow> visible w' = visible w"
  "WalletRepository_Create E wl w = (Inl e, w') \<Longrightarrow> visible w' = visible w"
  "TransactionRepository_Create E t w = (Inl e, w') \<Longrightarrow> visible w' = visible w"
  "IdempotencyRepository_Create E k w = (Inl e, w') \<Longrightarrow> visible w' = visible w"
  "OutboxRepository_Create E ev w = (Inl e, w') \<Longrightarrow> visible w' = visible w"
  by (simp_all add: create_defs users.hooked_Create_Inl wallets.hooked_Create_Inl
      transactions.hooked_Create_Inl idem.hooked_Create_Inl outbox.hooked_Create_Inl keeps_hook)

lemma UserRepository_Create_Inr:
  assumes "UserRepository_Create E u w = (Inr u', w')"
  shows "\<exists>i t. i \<noteq> uuid_Nil \<and> (ID u \<noteq> uuid_Nil \<longrightarrow> i = ID u) \<and>
    u' = born t (u\<lparr>ID := i,
      user_Status := if user_Status u = [] then UserStatusActive else user_Status u\<rparr>) \<and>
    (\<forall>x\<in>set (users (db w)). \<not> user_clash u' x) \<and>
    visible w' = ((db w)\<lparr>users := users (db w) @ [u']\<rparr>, kv w, streams w)"
  using users.hooked_Create_shape [OF assms [unfolded create_defs] keeps_hook(2)
      User_BeforeCreate_Inr clash_born(1)] by simp

lemma WalletRepository_Create_Inr:
  assumes "WalletRepository_Create E wl w = (Inr wl', w')"
  shows "\<exists>i t. i \<noteq> uuid_Nil \<and> (ID wl \<noteq> uuid_Nil \<longrightarrow> i = ID wl) \<and>
    wl' = born t (wl\<lparr>ID := i,
      wallet_Currency := if wallet_Currency wl = [] then CurrencyTHB else wallet_Currency wl,
      wallet_Status := if wallet_Status wl = [] then WalletStatusActive else wallet_Status wl\<rparr>) \<and>
    (\<forall>x\<in>set (wallets (db w)). \<not> wallet_clash wl' x) \<and>
    visible w' = ((db w)\<lparr>wallets := wallets (db w) @ [wl']\<rparr>, kv w, streams w)"
  using wallets.hooked_Create_shape [OF assms [unfolded create_defs] keeps_hook(3)
      Wallet_BeforeCreate_Inr clash_born(2)] by simp

lemma TransactionRepository_Create_Inr:
  assumes "TransactionRepository_Create E tx w = (Inr tx', w')"
  shows "\<exists>i t. i \<noteq> uuid_Nil \<and> (ID tx \<noteq> uuid_Nil \<longrightarrow> i = ID tx) \<and>
    tx' = born t (tx\<lparr>ID := i,
      Currency := if Currency tx = [] then CurrencyTHB else Currency tx,
      Status := if Status tx = [] then TransactionStatusPending else Status tx\<rparr>) \<and>
    (\<forall>x\<in>set (transactions (db w)). \<not> transaction_clash tx' x) \<and>
    visible w' = ((db w)\<lparr>transactions := transactions (db w) @ [tx']\<rparr>, kv w, streams w)"
  using transactions.hooked_Create_shape [OF assms [unfolded create_defs] keeps_hook(4)
      Transaction_BeforeCreate_Inr clash_born(3)] by simp

lemma IdempotencyRepository_Create_Inr:
  assumes "IdempotencyRepository_Create E k w = (Inr k', w')"
  shows "\<exists>i t. i \<noteq> uuid_Nil \<and> (idem_ID k \<noteq> uuid_Nil \<longrightarrow> i = idem_ID k) \<and>
    k' = idem_born t (k\<lparr>idem_ID := i\<rparr>) \<and>
    (\<forall>x\<in>set (idempotency_keys (db w)). \<not> idempotency_key_clash k' x) \<and>
    visible w' = ((db w)\<lparr>idempotency_keys := idempotency_keys (db w) @ [k']\<rparr>, kv w, streams w)"
  using idem.hooked_Create_shape [OF assms [unfolded create_defs] keeps_hook(6)
      IdempotencyKey_BeforeCreate_Inr clash_born(4)] by simp

lemma OutboxRepository_Create_Inr:
  assumes "OutboxRepository_Create E ev w = (Inr ev', w')"
  shows "\<exists>i t. i \<noteq> uuid_Nil \<and> (ID ev \<noteq> uuid_Nil \<longrightarrow> i = ID ev) \<and>
    ev' = born t (ev\<lparr>ID := i,
      outbox_Status := if outbox_Status ev = [] then OutboxStatusPending else outbox_Status ev\<rparr>) \<and>
    (\<forall>x\<in>set (outbox_events (db w)). \<not> outbox_event_clash ev' x) \<and>
    visible w' = ((db w)\<lparr>outbox_events := outbox_events (db w) @ [ev']\<rparr>, kv w, streams w)"
  using outbox.hooked_Create_shape [OF assms [unfolded create_defs] keeps_hook(7)
      OutboxEvent_BeforeCreate_Inr clash_born(6)] by simp

text \<open>A created ledger entry is the given one, with an ID and a time.\<close>

lemma hooks_ledger_Inr:
  "hooks (LedgerEntry_BeforeCreate (RT E)) es w = (Inr es', w') \<Longrightarrow>
    list_all2 (\<lambda>e e'. entry_ID e' \<noteq> uuid_Nil \<and> (entry_ID e \<noteq> uuid_Nil \<longrightarrow> entry_ID e' = entry_ID e) \<and>
      e' = e\<lparr>entry_ID := entry_ID e'\<rparr>) es es'"
  by (induction es arbitrary: es' w) (auto simp: prog_simps dest!: LedgerEntry_BeforeCreate_Inr)

lemma CreateLedgerEntries_Inr:
  assumes "TransactionRepository_CreateLedgerEntries E es w = (Inr es', w')" "es \<noteq> []"
  shows "list_all2 (\<lambda>e e'. e' = e\<lparr>entry_ID := entry_ID e', entry_CreatedAt := entry_CreatedAt e'\<rparr>) es es'"
    and "\<forall>r\<in>set es'. \<forall>x\<in>set (ledger_entries (db w)). entry_ID r \<noteq> entry_ID x"
    and "distinct (map entry_ID es')"
    and "visible w' = ((db w)\<lparr>ledger_entries := ledger_entries (db w) @ es'\<rparr>, kv w, streams w)"
proof -
  have "bindE (hooks (LedgerEntry_BeforeCreate (RT E)) es) (gCreateAll (LedgerEntries (DB E))) w =
      (Inr es', w')"
    using assms by (simp add: TransactionRepository_CreateLedgerEntries_def)
  then obtain rs w1 t where h: "hooks (LedgerEntry_BeforeCreate (RT E)) es w = (Inr rs, w1)"
    and es': "es' = map (entry_born t) rs"
    and new: "\<forall>r\<in>set rs. \<forall>x\<in>set (ledger_entries (db w)). \<not> ledger_entry_clash r x"
    and dist: "sorted_wrt (\<lambda>a b. \<not> ledger_entry_clash b a) rs"
    and v: "visible w' = (ledger_entries_update (\<lambda>xs. xs @ es') (db w), kv w, streams w)"
    by (rule entries.hooked_CreateAll_Inr) (intro keeps_hooks keeps_hook)
  show "list_all2 (\<lambda>e e'. e' = e\<lparr>entry_ID := entry_ID e', entry_CreatedAt := entry_CreatedAt e'\<rparr>) es es'"
    unfolding es' list_all2_map2
    by (rule list_all2_mono [OF hooks_ledger_Inr [OF h]]) (auto simp: entry_born_def)
  show "\<forall>r\<in>set es'. \<forall>x\<in>set (ledger_entries (db w)). entry_ID r \<noteq> entry_ID x"
    using new by (auto simp: es' entry_born_def ledger_entry_clash_def)
  show "distinct (map entry_ID es')"
    using dist unfolding es'
    by (induction rs) (auto simp: entry_born_def ledger_entry_clash_def)
  show "visible w' = ((db w)\<lparr>ledger_entries := ledger_entries (db w) @ es'\<rparr>, kv w, streams w)"
    using v by simp
qed

lemma CreateLedgerEntries_Inl:
  "TransactionRepository_CreateLedgerEntries E es w = (Inl e, w') \<Longrightarrow> visible w' = visible w"
  unfolding TransactionRepository_CreateLedgerEntries_def
  by (cases "es = []") (auto simp: returnE_eq intro: entries.hooked_CreateAll_Inl keeps_hooks keeps_hook)

text \<open>Saving a live row replaces it.\<close>

lemma WalletRepository_Update_Inr:
  assumes "WalletRepository_Update E wl w = (Inr wl', w')"
    and "\<exists>x\<in>set (wallets (db w)). ID x = ID wl \<and> wallet_live x"
  shows "(\<exists>t. wl' = touch t wl) \<and>
    (\<forall>x\<in>set (wallets (db w)). ID x \<noteq> ID wl \<longrightarrow> \<not> wallet_clash wl x) \<and>
    visible w' = ((db w)\<lparr>wallets := replace_row (\<lambda>x. ID x = ID wl \<and> wallet_live x) wl' (wallets (db w))\<rparr>,
      kv w, streams w)"
  using wallets.Save_Inr [OF assms [unfolded WalletRepository_Update_def]] by simp

lemma TransactionRepository_Update_Inr:
  assumes "TransactionRepository_Update E tx w = (Inr tx', w')"
    and "\<exists>x\<in>set (transactions (db w)). ID x = ID tx"
  shows "(\<exists>t. tx' = touch t tx) \<and>
    visible w' = ((db w)\<lparr>transactions := replace_row (\<lambda>x. ID x = ID tx) tx' (transactions (db w))\<rparr>,
      kv w, streams w)"
  using transactions.Save_Inr [OF assms(1) [unfolded TransactionRepository_Update_def]] assms(2)
  by auto

lemma UserRepository_Update_Inr:
  assumes "UserRepository_Update E u w = (Inr u', w')"
    and "\<exists>x\<in>set (users (db w)). ID x = ID u \<and> user_live x"
  shows "(\<exists>t. u' = touch t u) \<and>
    (\<forall>x\<in>set (users (db w)). ID x \<noteq> ID u \<longrightarrow> \<not> user_clash u x) \<and>
    visible w' = ((db w)\<lparr>users := replace_row (\<lambda>x. ID x = ID u \<and> user_live x) u' (users (db w))\<rparr>,
      kv w, streams w)"
  using users.Save_Inr [OF assms [unfolded UserRepository_Update_def]] by simp

lemma Update_Inl:
  "UserRepository_Update E u w = (Inl e, w') \<Longrightarrow> visible w' = visible w"
  "WalletRepository_Update E wl w = (Inl e, w') \<Longrightarrow> visible w' = visible w"
  "TransactionRepository_Update E t w = (Inl e, w') \<Longrightarrow> visible w' = visible w"
  by (simp_all add: UserRepository_Update_def WalletRepository_Update_def
      TransactionRepository_Update_def users.Save_Inl wallets.Save_Inl transactions.Save_Inl)

text \<open>The locked read returns the live wallets of the given IDs, each once.\<close>

lemma keeps_GetByIDsForUpdate [keeps_intros]:
  "keeps visible (WalletRepository_GetByIDsForUpdate E ids)"
  unfolding WalletRepository_GetByIDsForUpdate_def Let_def
  by (intro keeps_intros wallets.keeps_Find)

lemma GetByIDsForUpdate_Inr:
  assumes "WalletRepository_GetByIDsForUpdate E ids w = (Inr ws, w')"
  shows "mset ws = mset (filter (\<lambda>x. wallet_live x \<and> ID x \<in> set ids) (wallets (db w)))"
proof (cases "ids = []")
  case True
  with assms show ?thesis by (simp add: WalletRepository_GetByIDsForUpdate_def prog_simps)
next
  case False
  then have f: "gFind (Wallets (DB E))
      \<lparr>Where = \<lambda>wl. List.member (sort_key (uuid_String (RT E)) ids) (ID wl),
       Order = \<lambda>wl. uint (ID wl), Offset = 0, QLimit = None, LockUpdate = True\<rparr> w = (Inr ws, w')"
    using assms by (simp add: WalletRepository_GetByIDsForUpdate_def)
  show ?thesis using wallets.Find_all [OF f] by simp
qed

lemma IdempotencyRepository_SaveResponse_Inr:
  assumes "IdempotencyRepository_SaveResponse E i st body rid w = (Inr u, w')"
  shows "visible w' = ((db w)\<lparr>idempotency_keys := map (\<lambda>x. if idem_ID x = i
      then x\<lparr>ResponseStatusCode := Some st, ResponseBodyJSON := Some (response_to_json (RT E) body),
             ResourceID := rid\<rparr> else x) (idempotency_keys (db w))\<rparr>, kv w, streams w)"
  using idem.Updates_Inr [OF assms [unfolded IdempotencyRepository_SaveResponse_def Let_def]] by simp

lemma IdempotencyRepository_SaveResponse_Inl:
  "IdempotencyRepository_SaveResponse E i st body rid w = (Inl e, w') \<Longrightarrow> visible w' = visible w"
  by (simp add: IdempotencyRepository_SaveResponse_def idem.Updates_Inl)

lemma MarkPublished_Inr:
  assumes "OutboxRepository_MarkPublished E i at w = (Inr u, w')"
  shows "\<exists>t. visible w' = ((db w)\<lparr>outbox_events := map (\<lambda>x. if ID x = i
      then touch t (x\<lparr>outbox_Status := OutboxStatusPublished, PublishedAt := Some at, LastError := None\<rparr>)
      else x) (outbox_events (db w))\<rparr>, kv w, streams w)"
  using outbox.Updates_Inr [OF assms [unfolded OutboxRepository_MarkPublished_def]] by simp

lemma RecordFailure_Inr:
  assumes "OutboxRepository_RecordFailure E i m w = (Inr u, w')"
  shows "\<exists>t. visible w' = ((db w)\<lparr>outbox_events := map (\<lambda>x. if ID x = i
      then touch t (x\<lparr>RetryCount := RetryCount x + 1, LastError := Some m,
                      outbox_Status := OutboxStatusPending\<rparr>)
      else x) (outbox_events (db w))\<rparr>, kv w, streams w)"
  using outbox.Updates_Inr [OF assms [unfolded OutboxRepository_RecordFailure_def]] by simp

lemma Outbox_Inl:
  "OutboxRepository_MarkPublished E i at w = (Inl e, w') \<Longrightarrow> visible w' = visible w"
  "OutboxRepository_RecordFailure E i m w = (Inl e, w') \<Longrightarrow> visible w' = visible w"
  by (simp_all add: OutboxRepository_MarkPublished_def OutboxRepository_RecordFailure_def
      outbox.Updates_Inl)

text \<open>Single-row reads return a live row with the key and change nothing.\<close>

lemmas get_defs = UserRepository_GetByID_def WalletRepository_GetByID_def
  WalletRepository_GetByUserID_def TransactionRepository_GetByID_def
  TransactionRepository_GetByIDForUpdate_def IdempotencyRepository_Get_def

lemma keeps_Get [keeps_intros]:
  "keeps visible (UserRepository_GetByID E i)" "keeps visible (WalletRepository_GetByID E i)"
  "keeps visible (WalletRepository_GetByUserID E i)"
  "keeps visible (TransactionRepository_GetByID E i)"
  "keeps visible (TransactionRepository_GetByIDForUpdate E i)"
  "keeps visible (IdempotencyRepository_Get E k ep)"
  unfolding get_defs
  by (intro users.keeps_First wallets.keeps_First transactions.keeps_First idem.keeps_First
      transactions.keeps_FirstForUpdate)+

lemma Get_Inr:
  "UserRepository_GetByID E i w = (Inr u, w') \<Longrightarrow> u \<in> set (users (db w)) \<and> user_live u \<and> ID u = i"
  "WalletRepository_GetByID E i w = (Inr wl, w') \<Longrightarrow>
     wl \<in> set (wallets (db w)) \<and> wallet_live wl \<and> ID wl = i"
  "WalletRepository_GetByUserID E i w = (Inr wl, w') \<Longrightarrow>
     wl \<in> set (wallets (db w)) \<and> wallet_live wl \<and> UserID wl = i"
  "TransactionRepository_GetByID E i w = (Inr t, w') \<Longrightarrow> t \<in> set (transactions (db w)) \<and> ID t = i"
  "TransactionRepository_GetByIDForUpdate E i w = (Inr t, w') \<Longrightarrow>
     t \<in> set (transactions (db w)) \<and> ID t = i"
  "IdempotencyRepository_Get E k ep w = (Inr r, w') \<Longrightarrow>
     r \<in> set (idempotency_keys (db w)) \<and> idem_Key r = k \<and> idem_Endpoint r = ep"
  unfolding get_defs
  by (auto dest: users.First_Inr wallets.First_Inr transactions.First_Inr idem.First_Inr
      transactions.FirstForUpdate_Inr)

lemma keeps_lists [keeps_intros]:
  "keeps visible (UserRepository_List E page limit)"
  "keeps visible (TransactionRepository_List E page limit filters)"
  "keeps visible (OutboxRepository_FetchPending E n)"
  unfolding UserRepository_List_def TransactionRepository_List_def OutboxRepository_FetchPending_def
    Let_def
  by (intro keeps_intros users.keeps_Find users.keeps_Count transactions.keeps_Find
      transactions.keeps_Count outbox.keeps_Find)+

end

text \<open>An environment in which statements fail only for the reasons SQL gives.\<close>

locale env_up = env_laws E + gorm_up "DB E" up + runtime_up "RT E" up
  for E :: "'h env" and up :: "'h world \<Rightarrow> bool"
begin

lemma MarkPublished_up:
  "up w \<Longrightarrow> \<exists>w'. OutboxRepository_MarkPublished E i at w = (Inr (), w') \<and> up w'"
  unfolding OutboxRepository_MarkPublished_def
  by (rule outbox.Updates_up) (simp_all add: outbox_event_clash_def)

lemma RecordFailure_up:
  "up w \<Longrightarrow> \<exists>w'. OutboxRepository_RecordFailure E i m w = (Inr (), w') \<and> up w'"
  unfolding OutboxRepository_RecordFailure_def
  by (rule outbox.Updates_up) (simp_all add: outbox_event_clash_def)

end

section \<open>The reference environment\<close>

definition eng_env :: "engine env" where
  "eng_env = \<lparr>DB = eng_gorm, RT = eng_runtime\<rparr>"

interpretation eng_env: env_up eng_env healthy
  unfolding env_up_def env_laws_def eng_env_def env.simps
  using eng_gorm.gorm_up_axioms eng_gorm.gorm_laws_axioms eng_runtime.runtime_up_axioms
    eng_runtime.runtime_laws_axioms by simp

end
