(* ===== verification/Cache.thy ===== *)
theory Cache
  imports Store
begin

text \<open>
  The package \<open>internal/cache\<close> and the Redis client under it. The client is a parameter (a record
  of its commands, with the laws \<open>redis_laws\<close>); the Go interface \<open>BalanceCache\<close> is the record
  \<open>balance_cache\<close>, its contract the locale \<open>balance_cache_laws\<close>, and \<open>RedisBalanceCache\<close> the
  implementation of the source, which the \<open>sublocale\<close> below shows to keep the contract.
\<close>

section \<open>The Redis client\<close>

record 'h redis =
  rPing :: "('h, unit) go"
  rGet :: "string \<Rightarrow> ('h, string) go"
  rSet :: "string \<Rightarrow> string \<Rightarrow> int \<Rightarrow> ('h, unit) go"
  rDel :: "string \<Rightarrow> ('h, unit) go"
  rXAdd :: "string \<Rightarrow> stream_values \<Rightarrow> ('h, unit) go"

definition redis_Nil :: go_error where
  "redis_Nil = PlainError ''redis: nil''"

text \<open>
  \<open>kv\<close> holds what was last written to each key. A key written with a time to live may be gone
  when it is read: \<open>Get\<close> may report \<open>redis.Nil\<close> for any key. A command that reports an error may
  have been executed (the reply was lost).
\<close>

locale redis_laws =
  fixes C :: "'h redis"
  assumes Get_Inr: "rGet C k w = (Inr v, w') \<Longrightarrow> kv w k = Some v"
    and keeps_rGet: "keeps visible (rGet C k)"
    and keeps_rPing: "keeps visible (rPing C)"
    and Set_Inr: "rSet C k v ttl w = (Inr u, w') \<Longrightarrow> visible w' = (db w, (kv w)(k \<mapsto> v), streams w)"
    and Set_Inl: "rSet C k v ttl w = (Inl e, w') \<Longrightarrow>
      visible w' = visible w \<or> visible w' = (db w, (kv w)(k \<mapsto> v), streams w)"
    and Del_Inr: "rDel C k w = (Inr u, w') \<Longrightarrow> visible w' = (db w, (kv w)(k := None), streams w)"
    and Del_Inl: "rDel C k w = (Inl e, w') \<Longrightarrow>
      visible w' = visible w \<or> visible w' = (db w, (kv w)(k := None), streams w)"
    and XAdd_Inr: "rXAdd C s vs w = (Inr u, w') \<Longrightarrow> visible w' = (db w, kv w, streams w @ [(s, vs)])"
    and XAdd_Inl: "rXAdd C s vs w = (Inl e, w') \<Longrightarrow>
      visible w' = visible w \<or> visible w' = (db w, kv w, streams w @ [(s, vs)])"

text \<open>While Redis is up, commands are executed, and a key never written is not found.\<close>

locale redis_up = redis_laws C for C :: "'h redis" +
  fixes up :: "'h world \<Rightarrow> bool"
  assumes Get_up: "up w \<Longrightarrow> \<exists>r w'. rGet C k w = (r, w') \<and> up w' \<and> (r = Inl redis_Nil \<or> (\<exists>v. r = Inr v))"
    and Set_up: "up w \<Longrightarrow> \<exists>w'. rSet C k v ttl w = (Inr (), w') \<and> up w'"
    and Del_up: "up w \<Longrightarrow> \<exists>w'. rDel C k w = (Inr (), w') \<and> up w'"
    and XAdd_up: "up w \<Longrightarrow> \<exists>w'. rXAdd C s vs w = (Inr (), w') \<and> up w'"

section \<open>The interface BalanceCache\<close>

record 'h balance_cache =
  cache_Get :: "uuid \<Rightarrow> ('h, int64 \<times> bool) go"
  cache_Set :: "uuid \<Rightarrow> int64 \<Rightarrow> ('h, unit) go"
  cache_Delete :: "uuid \<Rightarrow> ('h, unit) go"
  cache_Ping :: "('h, unit) go"

text \<open>
  The contract: \<open>content\<close> is what the cache holds for each wallet. A read that finds a balance finds
  the content; a write or an eviction changes the one wallet, and one that fails may or may not have
  taken place. The database and the streams are not touched.
\<close>

locale balance_cache_laws =
  fixes C :: "'h balance_cache" and content :: "'h world \<Rightarrow> uuid \<Rightarrow> int64 option"
  assumes content_visible: "visible w' = visible w \<Longrightarrow> content w' = content w"
    and content_kv: "kv w' = kv w \<Longrightarrow> content w' = content w"
    and Get_found: "cache_Get C i w = (Inr (b, True), w') \<Longrightarrow> content w i = Some b"
    and keeps_cache_Get: "keeps visible (cache_Get C i)"
    and keeps_cache_Ping: "keeps visible (cache_Ping C)"
    and keeps_cache_Set: "keeps (\<lambda>w. (db w, streams w)) (cache_Set C i b)"
    and Set_Inr: "cache_Set C i b w = (Inr u, w') \<Longrightarrow> content w' = (content w)(i \<mapsto> b)"
    and Set_Inl: "cache_Set C i b w = (Inl e, w') \<Longrightarrow>
      content w' = content w \<or> content w' = (content w)(i \<mapsto> b)"
    and keeps_cache_Delete: "keeps (\<lambda>w. (db w, streams w)) (cache_Delete C i)"
    and cache_Delete_Inr: "cache_Delete C i w = (Inr u, w') \<Longrightarrow> content w' = (content w)(i := None)"
    and cache_Delete_Inl: "cache_Delete C i w = (Inl e, w') \<Longrightarrow>
      content w' = content w \<or> content w' = (content w)(i := None)"
begin

lemma keeps_db_Set: "keeps db (cache_Set C i b)" "keeps streams (cache_Set C i b)"
  using keeps_cache_Set[of i b] by (simp_all add: keeps_def)

text \<open>Whatever it reports, a write leaves the wallet with its old content or the new balance.\<close>

lemma Set_cases:
  assumes "cache_Set C i b w = (r, w')"
  shows "content w' = content w \<or> content w' = (content w)(i \<mapsto> b)"
  using assms Set_Inr Set_Inl by (cases r) blast+

text \<open>A balance written is the balance found.\<close>

lemma Get_after_Set:
  assumes "cache_Set C i b w = (Inr u, w1)" "cache_Get C i w1 = (Inr (b', True), w2)"
  shows "b' = b"
  using Set_Inr [OF assms(1)] Get_found [OF assms(2)] by simp

end

section \<open>RedisBalanceCache\<close>

definition balanceKey :: "'h runtime \<Rightarrow> uuid \<Rightarrow> string" where
  "balanceKey R walletID = ''wallet:balance:'' @ uuid_String R walletID"

text \<open>\<open>strconv.NumError\<close>\<close>

definition NumError :: "string \<Rightarrow> num_error \<Rightarrow> go_error" where
  "NumError s e = PlainError (''strconv.ParseInt: parsing '' @ CHR 0x22 # s @ CHR 0x22 # '': '' @
     (case e of ErrSyntax \<Rightarrow> ''invalid syntax'' | ErrRange \<Rightarrow> ''value out of range''))"

definition RedisBalanceCache_Ping :: "'h redis \<Rightarrow> ('h, unit) go" where
  "RedisBalanceCache_Ping client = rPing client"

definition RedisBalanceCache_Get ::
  "'h redis \<Rightarrow> 'h runtime \<Rightarrow> uuid \<Rightarrow> ('h, int64 \<times> bool) go" where
  "RedisBalanceCache_Get client R walletID =
    tryE (rGet client (balanceKey R walletID))
      (\<lambda>err. if err = redis_Nil then returnE (0, False)
             else throwE (Errorf ''get balance cache'' err))
      (\<lambda>value. case ParseInt value of
         Inl err \<Rightarrow> throwE (Errorf ''parse balance cache'' (NumError value err))
       | Inr balance \<Rightarrow> returnE (balance, True))"

definition RedisBalanceCache_Set ::
  "'h redis \<Rightarrow> 'h runtime \<Rightarrow> int \<Rightarrow> uuid \<Rightarrow> int64 \<Rightarrow> ('h, unit) go" where
  "RedisBalanceCache_Set client R ttl walletID balance =
    rSet client (balanceKey R walletID) (FormatInt balance) ttl"

definition RedisBalanceCache_Delete :: "'h redis \<Rightarrow> 'h runtime \<Rightarrow> uuid \<Rightarrow> ('h, unit) go" where
  "RedisBalanceCache_Delete client R walletID = rDel client (balanceKey R walletID)"

definition NewRedisBalanceCache :: "'h redis \<Rightarrow> 'h runtime \<Rightarrow> int \<Rightarrow> 'h balance_cache" where
  "NewRedisBalanceCache client R ttl =
    \<lparr>cache_Get = RedisBalanceCache_Get client R, cache_Set = RedisBalanceCache_Set client R ttl,
     cache_Delete = RedisBalanceCache_Delete client R, cache_Ping = RedisBalanceCache_Ping client\<rparr>"

text \<open>What Redis holds for a wallet, read as a balance.\<close>

definition cached :: "'h runtime \<Rightarrow> 'h world \<Rightarrow> uuid \<Rightarrow> int64 option" where
  "cached R w i = (case kv w (balanceKey R i) of None \<Rightarrow> None
     | Some v \<Rightarrow> (case ParseInt v of Inl _ \<Rightarrow> None | Inr b \<Rightarrow> Some b))"

lemma cached_kv: "kv w' = kv w \<Longrightarrow> cached R w' = cached R w"
  by (simp add: cached_def fun_eq_iff)

context runtime_laws
begin

lemma uuid_String_inject: "uuid_String R i = uuid_String R j \<longleftrightarrow> i = j"
  by (metis sum.inject(2) uuid_text)

lemma balanceKey_inject [simp]: "balanceKey R i = balanceKey R j \<longleftrightarrow> i = j"
  by (simp add: balanceKey_def uuid_String_inject)

lemma cached_upd: "kv w' = (kv w)(balanceKey R i \<mapsto> FormatInt b) \<Longrightarrow> cached R w' = (cached R w)(i \<mapsto> b)"
  by (auto simp: cached_def fun_eq_iff)

lemma cached_del: "kv w' = (kv w)(balanceKey R i := None) \<Longrightarrow> cached R w' = (cached R w)(i := None)"
  by (auto simp: cached_def fun_eq_iff)

end

text \<open>The implementation keeps the contract of the interface.\<close>

locale redis_cache = redis_laws client + runtime_laws R for client :: "'h redis" and R :: "'h runtime" +
  fixes ttl :: int
begin

lemma visible_triple: "visible w = (d, k, s) \<longleftrightarrow> db w = d \<and> kv w = k \<and> streams w = s"
  by (auto simp: visible_def)

lemma keeps_RedisBalanceCache_Get: "keeps visible (RedisBalanceCache_Get client R i)"
  unfolding RedisBalanceCache_Get_def
  by (intro keeps_intros keeps_rGet) (auto split: sum.splits intro!: keeps_intros)

lemma RedisBalanceCache_Get_found:
  "RedisBalanceCache_Get client R i w = (Inr (b, True), w') \<Longrightarrow> cached R w i = Some b"
  by (auto simp: RedisBalanceCache_Get_def prog_simps cached_def split: if_splits sum.splits dest!: Get_Inr)

end

sublocale redis_cache \<subseteq> cache: balance_cache_laws "NewRedisBalanceCache client R ttl" "cached R"
proof (unfold_locales, goal_cases)
  case (3 i w b w')
  then show ?case by (simp add: NewRedisBalanceCache_def RedisBalanceCache_Get_found)
next
  case (6 i b)
  show ?case
    by (rule keepsI, rename_tac s r s', case_tac r)
      (auto simp: NewRedisBalanceCache_def RedisBalanceCache_Set_def visible_eq visible_triple
        dest!: Set_Inl Set_Inr)
next
  case (9 i)
  show ?case
    by (rule keepsI, rename_tac s r s', case_tac r)
      (auto simp: NewRedisBalanceCache_def RedisBalanceCache_Delete_def visible_eq visible_triple
        dest!: Del_Inl Del_Inr)
qed (auto simp: NewRedisBalanceCache_def RedisBalanceCache_Set_def RedisBalanceCache_Delete_def
    RedisBalanceCache_Ping_def visible_eq visible_triple keeps_RedisBalanceCache_Get keeps_rPing
    intro: cached_kv cached_upd cached_del dest!: Set_Inl Set_Inr Del_Inl Del_Inr)

section \<open>The reference engine's Redis\<close>

definition eng_redis :: "engine redis" where
  "eng_redis =
    \<lparr>rPing = fault,
     rGet = (\<lambda>k. bindE fault (\<lambda>_ w. (case kv w k of None \<Rightarrow> Inl redis_Nil | Some v \<Rightarrow> Inr v, w))),
     rSet = (\<lambda>k v ttl. bindE fault (\<lambda>_ w. (Inr (), w\<lparr>kv := (kv w)(k \<mapsto> v)\<rparr>))),
     rDel = (\<lambda>k. bindE fault (\<lambda>_ w. (Inr (), w\<lparr>kv := (kv w)(k := None)\<rparr>))),
     rXAdd = (\<lambda>s vs. bindE fault (\<lambda>_ w. (Inr (), w\<lparr>streams := streams w @ [(s, vs)]\<rparr>)))\<rparr>"

interpretation eng_redis: redis_up eng_redis healthy
proof (unfold_locales, goal_cases)
  case (2 k)
  show ?case
    by (rule keepsI) (auto simp: eng_redis_def bindE_def dest!: fault_visible split: prod.splits sum.splits)
qed (auto simp: eng_redis_def bindE_def visible_def keeps_def fault_healthy healthy_def
    dest!: fault_visible split: prod.splits sum.splits option.splits)

interpretation eng_cache: redis_cache eng_redis eng_runtime ttl for ttl
  by unfold_locales

end
