(* ===== verification/Event.thy ===== *)
theory Event
  imports Repository Cache "HOL-Library.Sublist"
begin

text \<open>
  The package \<open>internal/event\<close>: the payload contract (\<open>payload.go\<close>), the stream publisher
  (\<open>publisher.go\<close>, the Go interface as the record \<open>stream_publisher\<close> with its contract as a locale)
  and the outbox worker (\<open>worker.go\<close>).
\<close>

section \<open>payload.go\<close>

definition StreamName :: string where "StreamName = ''wallet_events''"

record transaction_event_payload =
  pl_EventID :: uuid
  pl_EventType :: string
  pl_TransactionID :: uuid
  pl_ReferenceCode :: string
  pl_SourceWalletID :: "uuid option"
  pl_DestinationWalletID :: "uuid option"
  pl_AmountMinor :: int64
  pl_Currency :: string
  pl_OccurredAt :: time
  pl_RelatedTransactionID :: "uuid option"

definition payload_to_json :: "'h runtime \<Rightarrow> transaction_event_payload \<Rightarrow> json" where
  "payload_to_json R p = JObj (
     [(''event_id'', JStr (uuid_String R (pl_EventID p))),
      (''event_type'', JStr (pl_EventType p)),
      (''transaction_id'', JStr (uuid_String R (pl_TransactionID p))),
      (''reference_code'', JStr (pl_ReferenceCode p))]
     @ opt_field ''source_wallet_id'' (map_option (JStr \<circ> uuid_String R) (pl_SourceWalletID p))
     @ opt_field ''destination_wallet_id''
         (map_option (JStr \<circ> uuid_String R) (pl_DestinationWalletID p))
     @ [(''amount_minor'', JNum (FormatInt (pl_AmountMinor p))),
        (''currency'', JStr (pl_Currency p)),
        (''occurred_at'', JStr (time_String R (pl_OccurredAt p)))]
     @ opt_field ''related_transaction_id''
         (map_option (JStr \<circ> uuid_String R) (pl_RelatedTransactionID p)))"

definition zero_payload :: transaction_event_payload where
  "zero_payload = \<lparr>pl_EventID = uuid_Nil, pl_EventType = [], pl_TransactionID = uuid_Nil,
     pl_ReferenceCode = [], pl_SourceWalletID = None, pl_DestinationWalletID = None,
     pl_AmountMinor = 0, pl_Currency = [], pl_OccurredAt = 0, pl_RelatedTransactionID = None\<rparr>"

definition ParsePayload :: "'h runtime \<Rightarrow> json \<Rightarrow> go_error + transaction_event_payload" where
  "ParsePayload R raw = (case raw of
     JNull \<Rightarrow> Inr zero_payload
   | JObj kvs \<Rightarrow>
      bindR (juuid R (jget kvs ''event_id'')) (\<lambda>eid.
      bindR (jstr (jget kvs ''event_type'')) (\<lambda>ety.
      bindR (juuid R (jget kvs ''transaction_id'')) (\<lambda>tid.
      bindR (jstr (jget kvs ''reference_code'')) (\<lambda>rc.
      bindR (juuid_ptr R (jget kvs ''source_wallet_id'')) (\<lambda>src.
      bindR (juuid_ptr R (jget kvs ''destination_wallet_id'')) (\<lambda>dst.
      bindR (jint64 (jget kvs ''amount_minor'')) (\<lambda>amt.
      bindR (jstr (jget kvs ''currency'')) (\<lambda>cur.
      bindR (jtime R (jget kvs ''occurred_at'')) (\<lambda>oat.
      bindR (juuid_ptr R (jget kvs ''related_transaction_id'')) (\<lambda>rel.
      Inr \<lparr>pl_EventID = eid, pl_EventType = ety, pl_TransactionID = tid, pl_ReferenceCode = rc,
           pl_SourceWalletID = src, pl_DestinationWalletID = dst, pl_AmountMinor = amt,
           pl_Currency = cur, pl_OccurredAt = oat, pl_RelatedTransactionID = rel\<rparr>))))))))))
   | _ \<Rightarrow> Inl unmarshal_error)"

text \<open>The payload \<open>NewOutboxEvent\<close> builds from a transaction and a fresh event ID.\<close>

definition event_payload :: "uuid \<Rightarrow> string \<Rightarrow> transaction \<Rightarrow> transaction_event_payload" where
  "event_payload eid eventType t =
    \<lparr>pl_EventID = eid, pl_EventType = eventType, pl_TransactionID = ID t,
     pl_ReferenceCode = ReferenceCode t, pl_SourceWalletID = SourceWalletID t,
     pl_DestinationWalletID = DestinationWalletID t, pl_AmountMinor = AmountMinor t,
     pl_Currency = Currency t, pl_OccurredAt = CreatedAt t,
     pl_RelatedTransactionID = RelatedTransactionID t\<rparr>"

definition NewOutboxEvent :: "'h runtime \<Rightarrow> string \<Rightarrow> transaction \<Rightarrow> ('h, outbox_event) go" where
  "NewOutboxEvent R eventType txModel =
    bindE (liftS (uuid_New R)) (\<lambda>eid.
    let raw = payload_to_json R (event_payload eid eventType txModel) in
    returnE \<lparr>ID = uuid_Nil, CreatedAt = 0, UpdatedAt = 0, AggregateType = ''transaction'',
      AggregateID = ID txModel, EventType = eventType, PayloadJSON = raw,
      outbox_Status = OutboxStatusPending, PublishedAt = None, RetryCount = 0, LastError = None\<rparr>)"

definition opt_value :: "'h runtime \<Rightarrow> string \<Rightarrow> uuid option \<Rightarrow> stream_values" where
  "opt_value R k v = (case v of None \<Rightarrow> [] | Some u \<Rightarrow> [(k, SStr (uuid_String R u))])"

definition ToStreamValues :: "'h runtime \<Rightarrow> transaction_event_payload \<Rightarrow> stream_values" where
  "ToStreamValues R p =
     [(''event_id'', SStr (uuid_String R (pl_EventID p))),
      (''event_type'', SStr (pl_EventType p)),
      (''transaction_id'', SStr (uuid_String R (pl_TransactionID p))),
      (''reference_code'', SStr (pl_ReferenceCode p)),
      (''amount_minor'', SInt (pl_AmountMinor p)),
      (''currency'', SStr (pl_Currency p)),
      (''occurred_at'', SStr (time_String R (pl_OccurredAt p)))]
     @ opt_value R ''source_wallet_id'' (pl_SourceWalletID p)
     @ opt_value R ''destination_wallet_id'' (pl_DestinationWalletID p)
     @ opt_value R ''related_transaction_id'' (pl_RelatedTransactionID p)"

context runtime_laws
begin

lemma payload_roundtrip [simp]: "ParsePayload R (payload_to_json R p) = Inr p"
  by (simp add: ParsePayload_def payload_to_json_def jget_rules ToLower_def lower_char_def
      juuid_ptr_map)

lemma keeps_NewOutboxEvent [keeps_intros]: "keeps visible (NewOutboxEvent R ty t)"
  unfolding NewOutboxEvent_def Let_def by (intro keeps_intros)

lemma NewOutboxEvent_Inr:
  "NewOutboxEvent R ty t w = (Inr ev, w') \<Longrightarrow>
    \<exists>eid. ev = \<lparr>ID = uuid_Nil, CreatedAt = 0, UpdatedAt = 0, AggregateType = ''transaction'',
      AggregateID = ID t, EventType = ty, PayloadJSON = payload_to_json R (event_payload eid ty t),
      outbox_Status = OutboxStatusPending, PublishedAt = None, RetryCount = 0, LastError = None\<rparr>"
  by (auto simp: NewOutboxEvent_def prog_simps)

text \<open>The values of a stream entry determine the payload.\<close>

lemma stream_value_of:
  "map_of (ToStreamValues R p) ''transaction_id'' = Some (SStr (uuid_String R (pl_TransactionID p)))"
  "map_of (ToStreamValues R p) ''event_id'' = Some (SStr (uuid_String R (pl_EventID p)))"
  "map_of (ToStreamValues R p) ''amount_minor'' = Some (SInt (pl_AmountMinor p))"
  "map_of (ToStreamValues R p) ''source_wallet_id'' =
     map_option (\<lambda>u. SStr (uuid_String R u)) (pl_SourceWalletID p)"
  "map_of (ToStreamValues R p) ''destination_wallet_id'' =
     map_option (\<lambda>u. SStr (uuid_String R u)) (pl_DestinationWalletID p)"
  "map_of (ToStreamValues R p) ''related_transaction_id'' =
     map_option (\<lambda>u. SStr (uuid_String R u)) (pl_RelatedTransactionID p)"
  by (simp_all add: ToStreamValues_def opt_value_def split: option.splits)

end

section \<open>publisher.go\<close>

text \<open>
  The Go interface \<open>StreamPublisher\<close>. A publication that succeeds appends one entry; one that
  reports an error may have appended it.
\<close>

record 'h stream_publisher =
  pub_Publish :: "string \<Rightarrow> stream_values \<Rightarrow> ('h, unit) go"
  pub_Ping :: "('h, unit) go"

locale stream_publisher_laws =
  fixes P :: "'h stream_publisher"
  assumes Publish_Inr: "pub_Publish P s vs w = (Inr u, w') \<Longrightarrow>
      visible w' = (db w, kv w, streams w @ [(s, vs)])"
    and Publish_Inl: "pub_Publish P s vs w = (Inl e, w') \<Longrightarrow>
      visible w' = visible w \<or> visible w' = (db w, kv w, streams w @ [(s, vs)])"

locale stream_publisher_up = stream_publisher_laws P for P :: "'h stream_publisher" +
  fixes up :: "'h world \<Rightarrow> bool"
  assumes Publish_up: "up w \<Longrightarrow> \<exists>w'. pub_Publish P s vs w = (Inr (), w') \<and> up w'"

definition RedisStreamPublisher_Publish ::
  "'h redis \<Rightarrow> string \<Rightarrow> stream_values \<Rightarrow> ('h, unit) go" where
  "RedisStreamPublisher_Publish client stream values =
    onErr (Errorf (''xadd stream '' @ stream)) (rXAdd client stream values)"

definition RedisStreamPublisher_Ping :: "'h redis \<Rightarrow> ('h, unit) go" where
  "RedisStreamPublisher_Ping client = rPing client"

definition NewRedisStreamPublisher :: "'h redis \<Rightarrow> 'h stream_publisher" where
  "NewRedisStreamPublisher client =
    \<lparr>pub_Publish = RedisStreamPublisher_Publish client, pub_Ping = RedisStreamPublisher_Ping client\<rparr>"

sublocale redis_laws \<subseteq> publisher: stream_publisher_laws "NewRedisStreamPublisher C"
  by unfold_locales
    (auto simp: NewRedisStreamPublisher_def RedisStreamPublisher_Publish_def prog_simps
      dest: XAdd_Inr XAdd_Inl)

sublocale redis_up \<subseteq> publisher_up: stream_publisher_up "NewRedisStreamPublisher C" up
proof unfold_locales
  fix w s vs assume "up w"
  then obtain w' where "rXAdd C s vs w = (Inr (), w')" "up w'" using XAdd_up by blast
  then show "\<exists>w'. pub_Publish (NewRedisStreamPublisher C) s vs w = (Inr (), w') \<and> up w'"
    by (auto simp: NewRedisStreamPublisher_def RedisStreamPublisher_Publish_def prog_simps)
qed

section \<open>worker.go\<close>

record 'h worker =
  wk_env :: "'h env"
  publisher :: "'h stream_publisher"
  batchSize :: int64
  stream :: string

text \<open>The body of the loop over the batch, with its two \<open>continue\<close>s, and the loop.\<close>

definition publish_event :: "'h worker \<Rightarrow> outbox_event \<Rightarrow> ('h, unit) go" where
  "publish_event W evt = (case ParsePayload (RT (wk_env W)) (PayloadJSON evt) of
     Inl err \<Rightarrow> onErr (Errorf ''decode payload and record failure'')
       (OutboxRepository_RecordFailure (wk_env W) (ID evt) (''decode payload: '' @ Error err))
   | Inr payload \<Rightarrow>
       tryE (pub_Publish (publisher W) (stream W) (ToStreamValues (RT (wk_env W)) payload))
         (\<lambda>err. onErr (Errorf ''publish event and record failure'')
            (OutboxRepository_RecordFailure (wk_env W) (ID evt) (Error err)))
         (\<lambda>_. bindE (liftS (time_Now (RT (wk_env W)))) (\<lambda>now.
            onErr (Errorf ''mark published'')
              (OutboxRepository_MarkPublished (wk_env W) (ID evt) now))))"

fun publish_events :: "'h worker \<Rightarrow> outbox_event list \<Rightarrow> ('h, unit) go" where
  "publish_events W [] = returnE ()"
| "publish_events W (evt # evts) = bindE (publish_event W evt) (\<lambda>_. publish_events W evts)"

definition PublishPending :: "'h worker \<Rightarrow> ('h, unit) go" where
  "PublishPending W =
    bindE (onErr (Errorf ''fetch pending outbox events'')
      (OutboxRepository_FetchPending (wk_env W) (batchSize W))) (\<lambda>events.
    publish_events W events)"

text \<open>
  The loop \<open>run\<close>: a batch at once and one after each tick, until the context is done. The number
  of ticks before that is the argument; an error is logged and the loop goes on.
\<close>

primrec worker_run :: "'h worker \<Rightarrow> nat \<Rightarrow> ('h, unit) go" where
  "worker_run W 0 = handleE (PublishPending W) (\<lambda>_. returnE ())"
| "worker_run W (Suc ticks) =
     bindE (handleE (PublishPending W) (\<lambda>_. returnE ())) (\<lambda>_. worker_run W ticks)"

text \<open>
  The loop as it is written, on what each \<open>select\<close> finds: the context done, or a tick. It returns the
  world it leaves behind, and does not return (\<open>None\<close>) while the ticks go on.
\<close>

datatype select_case = Done | Tick

partial_function (option) worker_loop :: "'h worker \<Rightarrow> (nat \<Rightarrow> select_case) \<Rightarrow> nat \<Rightarrow> 'h world \<Rightarrow> 'h world option" where
  "worker_loop W found i w =
    (let w1 = snd (PublishPending W w)
     in case found i of Done \<Rightarrow> Some w1 | Tick \<Rightarrow> worker_loop W found (Suc i) w1)"

text \<open>What a batch should send: the decodable events' payloads, in order.\<close>

definition to_send :: "'h worker \<Rightarrow> outbox_event list \<Rightarrow> (string \<times> stream_values) list" where
  "to_send W evts = concat (map (\<lambda>e. case ParsePayload (RT (wk_env W)) (PayloadJSON e) of
     Inl _ \<Rightarrow> [] | Inr p \<Rightarrow> [(stream W, ToStreamValues (RT (wk_env W)) p)]) evts)"

text \<open>The columns of an event the worker never writes.\<close>

definition core :: "outbox_event \<Rightarrow> outbox_event" where
  "core e = e\<lparr>UpdatedAt := 0, outbox_Status := [], PublishedAt := None, RetryCount := 0, LastError := None\<rparr>"

text \<open>
  What a batch that sent \<open>ss\<close> may do to a row: nothing outside the batch; inside, the row stays
  pending, or is published, and then its values are among those sent.
\<close>

definition row_step ::
  "'h worker \<Rightarrow> (string \<times> stream_values) list \<Rightarrow> uuid set \<Rightarrow> outbox_event \<Rightarrow> outbox_event \<Rightarrow> bool" where
  "row_step W ss ids x x' \<longleftrightarrow> core x' = core x \<and> (ID x \<notin> ids \<longrightarrow> x' = x) \<and>
    (x' = x \<or> outbox_Status x' = OutboxStatusPending \<or>
     (outbox_Status x' = OutboxStatusPublished \<and> (\<exists>q. to_send W [x] = [q] \<and> q \<in> set ss)))"

definition batch_step ::
  "'h worker \<Rightarrow> outbox_event list \<Rightarrow> 'h world \<Rightarrow> (string \<times> stream_values) list \<Rightarrow> 'h world \<Rightarrow> bool" where
  "batch_step W evts w ss w' \<longleftrightarrow> subseq ss (to_send W evts) \<and> kv w' = kv w \<and>
    streams w' = streams w @ ss \<and>
    (\<exists>rows. db w' = (db w)\<lparr>outbox_events := rows\<rparr> \<and>
       list_all2 (row_step W ss (set (map ID evts))) (outbox_events (db w)) rows)"

lemma core_fields:
  assumes "core x = core y"
  shows "ID x = ID y" "CreatedAt x = CreatedAt y" "AggregateType x = AggregateType y"
    "AggregateID x = AggregateID y" "EventType x = EventType y" "PayloadJSON x = PayloadJSON y"
proof -
  note f = arg_cong [OF assms]
  show "ID x = ID y" using f [of ID] by (simp add: core_def)
  show "CreatedAt x = CreatedAt y" using f [of CreatedAt] by (simp add: core_def)
  show "AggregateType x = AggregateType y" using f [of AggregateType] by (simp add: core_def)
  show "AggregateID x = AggregateID y" using f [of AggregateID] by (simp add: core_def)
  show "EventType x = EventType y" using f [of EventType] by (simp add: core_def)
  show "PayloadJSON x = PayloadJSON y" using f [of PayloadJSON] by (simp add: core_def)
qed

lemma to_send_core: "core x = core y \<Longrightarrow> to_send W [x] = to_send W [y]"
  using core_fields(6) [of x y] by (simp add: to_send_def)

lemma to_send_Cons: "to_send W (e # es) = to_send W [e] @ to_send W es"
  by (simp add: to_send_def)

lemma row_step_refl [simp]: "row_step W ss ids x x"
  by (simp add: row_step_def)

lemma row_step_trans:
  assumes "row_step W ss A x y" "row_step W ts B y z"
  shows "row_step W (ss @ ts) (A \<union> B) x z"
proof -
  have "to_send W [y] = to_send W [x]" "ID y = ID x"
    using assms(1) by (auto simp: row_step_def intro: to_send_core core_fields)
  with assms show ?thesis by (auto simp: row_step_def)
qed

lemma list_all2_map_cores:
  assumes "list_all2 (row_step W ss A) xs ys"
  shows "map core ys = map core xs"
  using assms by (induction rule: list_all2_induct) (simp_all add: row_step_def)

lemma batch_step_refl: "visible w' = visible w \<Longrightarrow> batch_step W evts w [] w'"
  by (auto simp: batch_step_def visible_eq intro!: exI[of _ "outbox_events (db w)"] list_all2_refl)

lemma row_step_failed:
  "i \<in> ids \<Longrightarrow> row_step W ss ids x (if ID x = i
     then touch t (x\<lparr>RetryCount := RetryCount x + 1, LastError := Some m,
                     outbox_Status := OutboxStatusPending\<rparr>) else x)"
  by (cases "ID x = i") (simp_all add: row_step_def touch_def core_def)

lemma row_step_published:
  assumes "i \<in> ids" "ID x = i \<Longrightarrow> to_send W [x] = [q]" "q \<in> set ss"
  shows "row_step W ss ids x (if ID x = i
     then touch t (x\<lparr>outbox_Status := OutboxStatusPublished, PublishedAt := Some at, LastError := None\<rparr>)
     else x)"
  using assms by (cases "ID x = i") (simp_all add: row_step_def touch_def core_def)

lemma batch_step_map:
  assumes v: "visible w' = ((db w)\<lparr>outbox_events := map f (outbox_events (db w))\<rparr>, kv w, streams w @ ss)"
    and "subseq ss (to_send W es)"
    and f: "\<And>x. x \<in> set (outbox_events (db w)) \<Longrightarrow> row_step W ss (set (map ID es)) x (f x)"
  shows "batch_step W es w ss w'"
proof -
  have "list_all2 (row_step W ss (set (map ID es))) (outbox_events (db w)) (map f (outbox_events (db w)))"
    unfolding list_all2_map2 using f by (rule list.rel_refl_strong)
  moreover have "db w' = (db w)\<lparr>outbox_events := map f (outbox_events (db w))\<rparr>" "kv w' = kv w"
    "streams w' = streams w @ ss"
    using v by (simp_all add: visible_def)
  ultimately show ?thesis using assms(2) unfolding batch_step_def by blast
qed

lemma batch_step_visible:
  "visible w1 = visible w \<Longrightarrow> visible w2 = visible w' \<Longrightarrow>
    batch_step W evts w1 ss w2 \<longleftrightarrow> batch_step W evts w ss w'"
  by (simp add: batch_step_def visible_eq)

lemma batch_step_trans:
  assumes "batch_step W es w ss w1" "batch_step W fs w1 ts w2"
  shows "batch_step W (es @ fs) w (ss @ ts) w2"
proof -
  obtain r1 where r1: "db w1 = (db w)\<lparr>outbox_events := r1\<rparr>"
      "list_all2 (row_step W ss (set (map ID es))) (outbox_events (db w)) r1"
    using assms(1) by (auto simp: batch_step_def)
  obtain r2 where r2: "db w2 = (db w1)\<lparr>outbox_events := r2\<rparr>"
      "list_all2 (row_step W ts (set (map ID fs))) r1 r2"
    using assms(2) r1(1) by (auto simp: batch_step_def)
  have "list_all2 (row_step W (ss @ ts) (set (map ID (es @ fs)))) (outbox_events (db w)) r2"
    by (rule list_all2_trans [OF _ r1(2) r2(2)]) (simp add: row_step_trans)
  moreover have "to_send W (es @ fs) = to_send W es @ to_send W fs"
    by (simp add: to_send_def)
  ultimately show ?thesis
    using assms r1 r2 by (auto simp: batch_step_def intro: list_emb_append_mono)
qed

text \<open>A row that has the event's ID carries the event's payload.\<close>

definition is_row :: "outbox_event list \<Rightarrow> outbox_event \<Rightarrow> bool" where
  "is_row rows e \<longleftrightarrow> (\<forall>x\<in>set rows. ID x = ID e \<longrightarrow> PayloadJSON x = PayloadJSON e)"

locale worker_laws = env_laws "wk_env W" + stream_publisher_laws "publisher W" for W :: "'h worker"
begin

lemma is_row_cores:
  assumes "map core ys = map core xs" "is_row xs e"
  shows "is_row ys e"
  unfolding is_row_def
proof (intro ballI impI)
  fix y assume y: "y \<in> set ys" "ID y = ID e"
  then have "core y \<in> core ` set xs" using arg_cong [OF assms(1), of set] by auto
  then obtain x where "x \<in> set xs" "core y = core x" by blast
  with y assms(2) show "PayloadJSON y = PayloadJSON e"
    by (metis core_fields(1,6) is_row_def)
qed

lemma RecordFailure_step:
  assumes "OutboxRepository_RecordFailure (wk_env W) (ID e) m w = (r, w')"
  shows "batch_step W [e] w [] w'"
proof (cases r)
  case (Inl err)
  with assms show ?thesis by (intro batch_step_refl) (simp add: Outbox_Inl(2))
next
  case (Inr u)
  from RecordFailure_Inr [OF assms [unfolded Inr]] obtain t where
    v: "visible w' = ((db w)\<lparr>outbox_events := map (\<lambda>x. if ID x = ID e
      then touch t (x\<lparr>RetryCount := RetryCount x + 1, LastError := Some m,
                      outbox_Status := OutboxStatusPending\<rparr>)
      else x) (outbox_events (db w))\<rparr>, kv w, streams w)" by blast
  show ?thesis
    by (rule batch_step_map [where ss = "[]", unfolded append_Nil2, OF v])
      (simp, rule row_step_failed, simp)
qed

lemma MarkPublished_step:
  assumes "OutboxRepository_MarkPublished (wk_env W) (ID e) at w = (r, w')"
    and "is_row (outbox_events (db w)) e" and "to_send W [e] = [q]"
    and "visible w = (db w0, kv w0, streams w0 @ [q])"
  shows "batch_step W [e] w0 [q] w'"
proof (cases r)
  case (Inl err)
  with assms show ?thesis
    by (auto simp: batch_step_def visible_def dest!: Outbox_Inl(1)
        intro!: exI[of _ "outbox_events (db w0)"] list_all2_refl)
next
  case (Inr u)
  have d: "db w = db w0" using assms(4) by (simp add: visible_def)
  have "to_send W [x] = [q]" if "x \<in> set (outbox_events (db w))" "ID x = ID e" for x
    using assms(2,3) that by (simp add: is_row_def to_send_def)
  then have x: "\<And>x. x \<in> set (outbox_events (db w0)) \<Longrightarrow> ID x = ID e \<Longrightarrow> to_send W [x] = [q]"
    by (simp add: d)
  obtain t where v: "visible w' = ((db w)\<lparr>outbox_events := map (\<lambda>x. if ID x = ID e
      then touch t (x\<lparr>outbox_Status := OutboxStatusPublished, PublishedAt := Some at, LastError := None\<rparr>)
      else x) (outbox_events (db w))\<rparr>, kv w, streams w)"
    using MarkPublished_Inr [OF assms(1) [unfolded Inr]] by blast
  from assms(4) have "kv w = kv w0" "streams w = streams w0 @ [q]" by (simp_all add: visible_def)
  note v [unfolded d this]
  then show ?thesis
    by (rule batch_step_map) (simp add: assms(3), rule row_step_published, simp_all add: x)
qed

lemma publish_event_step:
  assumes run: "publish_event W e w = (r, w')" and row: "is_row (outbox_events (db w)) e"
  shows "\<exists>ss. batch_step W [e] w ss w'"
proof (cases "ParsePayload (RT (wk_env W)) (PayloadJSON e)")
  case (Inl err)
  with run have "\<exists>r. OutboxRepository_RecordFailure (wk_env W) (ID e) (''decode payload: '' @ Error err) w = (r, w')"
    by (cases r) (auto simp: publish_event_def prog_simps)
  then show ?thesis using RecordFailure_step by blast
next
  case (Inr p)
  let ?q = "(stream W, ToStreamValues (RT (wk_env W)) p)"
  have q: "to_send W [e] = [?q]" using Inr by (simp add: to_send_def)
  obtain pr w1 where pub: "pub_Publish (publisher W) (stream W) (ToStreamValues (RT (wk_env W)) p) w = (pr, w1)"
    by (cases "pub_Publish (publisher W) (stream W) (ToStreamValues (RT (wk_env W)) p) w")
  show ?thesis
  proof (cases pr)
    case (Inl err)
    with run pub Inr obtain r' where
      f: "OutboxRepository_RecordFailure (wk_env W) (ID e) (Error err) w1 = (r', w')"
      by (cases r) (auto simp: publish_event_def prog_simps)
    have s2: "batch_step W [e] w1 [] w'" by (rule RecordFailure_step [OF f])
    show ?thesis
      using Publish_Inl [OF pub [unfolded Inl]]
    proof
      assume "visible w1 = visible w"
      with s2 batch_step_visible [of w1 w w' w' W "[e]" "[]"] show ?thesis by blast
    next
      assume v: "visible w1 = (db w, kv w, streams w @ [?q])"
      with s2 have "batch_step W [e] w [?q] w'" using q
        by (auto simp: batch_step_def visible_def row_step_def elim!: list_all2_mono)
      then show ?thesis by blast
    qed
  next
    case (Inr u)
    with run pub \<open>ParsePayload (RT (wk_env W)) (PayloadJSON e) = Inr p\<close> obtain now w2 r' where
      t: "time_Now (RT (wk_env W)) w1 = (now, w2)" and
      m: "OutboxRepository_MarkPublished (wk_env W) (ID e) now w2 = (r', w')"
      by (cases r) (auto simp: publish_event_def prog_simps)
    have v1: "visible w1 = (db w, kv w, streams w @ [?q])" by (rule Publish_Inr [OF pub [unfolded Inr]])
    have v2: "visible w2 = visible w1" by (rule Now_frame [OF t])
    have "batch_step W [e] w [?q] w'"
      by (rule MarkPublished_step [OF m _ q]) (use v1 v2 row in \<open>auto simp: visible_def\<close>)
    then show ?thesis by blast
  qed
qed

lemma publish_events_step:
  assumes "publish_events W es w = (r, w')" "\<forall>e\<in>set es. is_row (outbox_events (db w)) e"
  shows "\<exists>ss. batch_step W es w ss w'"
  using assms
proof (induction es arbitrary: w)
  case Nil
  then have "batch_step W [] w [] w'" by (intro batch_step_refl) (simp add: prog_simps)
  then show ?case by blast
next
  case (Cons e es)
  obtain q w1 where e: "publish_event W e w = (q, w1)" by (cases "publish_event W e w")
  with Cons.prems obtain ss where ss: "batch_step W [e] w ss w1"
    using publish_event_step by (metis list.set_intros(1))
  show ?case
  proof (cases q)
    case (Inl err)
    with Cons.prems e have "w' = w1" by (cases r) (auto simp: bindE_def)
    moreover have "batch_step W ([e] @ es) w (ss @ []) w1"
      by (rule batch_step_trans [OF ss batch_step_refl]) (rule refl)
    ultimately show ?thesis by auto
  next
    case (Inr u)
    then have "publish_events W es w1 = (r, w')" using Cons.prems e by (simp add: bindE_def)
    moreover have "map core (outbox_events (db w1)) = map core (outbox_events (db w))"
      using ss by (auto simp: batch_step_def dest: list_all2_map_cores)
    then have "\<forall>e\<in>set es. is_row (outbox_events (db w1)) e"
      using Cons.prems is_row_cores by auto
    ultimately obtain ts where "batch_step W es w1 ts w'" using Cons.IH by blast
    from batch_step_trans [OF ss this] show ?thesis by auto
  qed
qed

text \<open>A batch: events that were pending.\<close>

lemma FetchPending_Inr:
  assumes "OutboxRepository_FetchPending (wk_env W) n w = (Inr es, w')"
  shows "set es \<subseteq> {e \<in> set (outbox_events (db w)). outbox_Status e = OutboxStatusPending}"
    and "visible w' = visible w"
  using outbox.Find_subset [OF assms [unfolded OutboxRepository_FetchPending_def]]
    keepsD [OF keeps_lists(3) assms] by auto

lemma rows_is_row:
  "distinct (map ID rows) \<Longrightarrow> set es \<subseteq> set rows \<Longrightarrow> \<forall>e\<in>set es. is_row rows e"
  unfolding is_row_def by (metis distinct_key_eq subsetD)

lemma PublishPending_step:
  assumes "PublishPending W w = (r, w')" "distinct (map ID (outbox_events (db w)))"
  shows "\<exists>es ss. set es \<subseteq> {e \<in> set (outbox_events (db w)). outbox_Status e = OutboxStatusPending} \<and>
    batch_step W es w ss w'"
proof (cases "OutboxRepository_FetchPending (wk_env W) (batchSize W) w")
  case (Pair q w1)
  have v: "visible w1 = visible w" by (rule keepsD [OF keeps_lists(3) Pair])
  show ?thesis
  proof (cases q)
    case (Inl err)
    with assms Pair have "w' = w1" by (auto simp: PublishPending_def bindE_def onErr_def handleE_def throwE_def)
    with v batch_step_refl [of w1 w W "[]"] show ?thesis by (metis empty_set empty_subsetI)
  next
    case (Inr es)
    note f = FetchPending_Inr [OF Pair [unfolded Inr]]
    from Inr assms Pair have run: "publish_events W es w1 = (r, w')"
      by (simp add: PublishPending_def bindE_def onErr_def handleE_def)
    have "\<forall>e\<in>set es. is_row (outbox_events (db w1)) e"
      using rows_is_row [OF assms(2)] f(1) visible_db [OF v] by auto
    from publish_events_step [OF run this] obtain ss where "batch_step W es w1 ss w'" by blast
    then have "batch_step W es w ss w'" using batch_step_visible [OF v refl] by blast
    with f(1) show ?thesis by blast
  qed
qed

end

section \<open>A batch while everything is up\<close>

text \<open>The whole batch is sent in order; each row of it is published, or was not decodable.\<close>

definition row_done :: "'h worker \<Rightarrow> uuid set \<Rightarrow> outbox_event \<Rightarrow> outbox_event \<Rightarrow> bool" where
  "row_done W ids x x' \<longleftrightarrow> core x' = core x \<and>
    (if ID x \<notin> ids then x' = x
     else case ParsePayload (RT (wk_env W)) (PayloadJSON x) of
       Inl _ \<Rightarrow> outbox_Status x' = OutboxStatusPending \<and> RetryCount x' = RetryCount x + 1
     | Inr _ \<Rightarrow> outbox_Status x' = OutboxStatusPublished \<and> PublishedAt x' \<noteq> None \<and> LastError x' = None)"

definition batch_done :: "'h worker \<Rightarrow> outbox_event list \<Rightarrow> 'h world \<Rightarrow> 'h world \<Rightarrow> bool" where
  "batch_done W evts w w' \<longleftrightarrow> kv w' = kv w \<and> streams w' = streams w @ to_send W evts \<and>
    (\<exists>rows. db w' = (db w)\<lparr>outbox_events := rows\<rparr> \<and>
       list_all2 (row_done W (set (map ID evts))) (outbox_events (db w)) rows)"

lemma row_done_trans:
  assumes "row_done W A x y" "row_done W B y z" "A \<inter> B = {}"
  shows "row_done W (A \<union> B) x z"
proof -
  have "PayloadJSON y = PayloadJSON x" "ID y = ID x"
    using assms(1) by (auto simp: row_done_def intro: core_fields)
  with assms show ?thesis by (auto simp: row_done_def split: if_splits sum.splits)
qed

lemma batch_done_trans:
  assumes "batch_done W es w w1" "batch_done W fs w1 w2" "set (map ID es) \<inter> set (map ID fs) = {}"
  shows "batch_done W (es @ fs) w w2"
proof -
  obtain r1 where r1: "db w1 = (db w)\<lparr>outbox_events := r1\<rparr>"
      "list_all2 (row_done W (set (map ID es))) (outbox_events (db w)) r1"
    using assms(1) by (auto simp: batch_done_def)
  obtain r2 where r2: "db w2 = (db w1)\<lparr>outbox_events := r2\<rparr>"
      "list_all2 (row_done W (set (map ID fs))) r1 r2"
    using assms(2) r1(1) by (auto simp: batch_done_def)
  have "list_all2 (row_done W (set (map ID es) \<union> set (map ID fs))) (outbox_events (db w)) r2"
    by (rule list_all2_trans [OF _ r1(2) r2(2)]) (rule row_done_trans [OF _ _ assms(3)])
  moreover have "to_send W (es @ fs) = to_send W es @ to_send W fs"
    by (simp add: to_send_def)
  ultimately show ?thesis
    using assms r1 r2 by (auto simp: batch_done_def)
qed

lemma batch_done_map:
  assumes v: "visible w' = ((db w)\<lparr>outbox_events := map f (outbox_events (db w))\<rparr>, kv w,
      streams w @ to_send W es)"
    and f: "\<And>x. x \<in> set (outbox_events (db w)) \<Longrightarrow> row_done W (set (map ID es)) x (f x)"
  shows "batch_done W es w w'"
proof -
  have "list_all2 (row_done W (set (map ID es))) (outbox_events (db w)) (map f (outbox_events (db w)))"
    unfolding list_all2_map2 using f by (rule list.rel_refl_strong)
  moreover have "db w' = (db w)\<lparr>outbox_events := map f (outbox_events (db w))\<rparr>" "kv w' = kv w"
    "streams w' = streams w @ to_send W es"
    using v by (simp_all add: visible_def)
  ultimately show ?thesis unfolding batch_done_def by blast
qed

locale worker_up = worker_laws W + env_up "wk_env W" up + stream_publisher_up "publisher W" up
  for W :: "'h worker" and up :: "'h world \<Rightarrow> bool"
begin

lemma publish_event_done:
  assumes "up w" "is_row (outbox_events (db w)) e"
  shows "\<exists>w'. publish_event W e w = (Inr (), w') \<and> up w' \<and> batch_done W [e] w w'"
proof (cases "ParsePayload (RT (wk_env W)) (PayloadJSON e)")
  case (Inl err)
  let ?m = "''decode payload: '' @ Error err"
  obtain w' where r: "OutboxRepository_RecordFailure (wk_env W) (ID e) ?m w = (Inr (), w')" "up w'"
    using RecordFailure_up [OF assms(1)] by blast
  have s: "to_send W [e] = []" using Inl by (simp add: to_send_def)
  obtain t where v: "visible w' = ((db w)\<lparr>outbox_events := map (\<lambda>x. if ID x = ID e
      then touch t (x\<lparr>RetryCount := RetryCount x + 1, LastError := Some ?m,
                      outbox_Status := OutboxStatusPending\<rparr>)
      else x) (outbox_events (db w))\<rparr>, kv w, streams w @ to_send W [e])"
    unfolding s append_Nil2 using RecordFailure_Inr [OF r(1)] by blast
  have "batch_done W [e] w w'"
  proof (rule batch_done_map [OF v], goal_cases)
    case (1 x)
    with assms(2) Inl show ?case
      by (cases "ID x = ID e") (simp_all add: row_done_def is_row_def touch_def core_def)
  qed
  moreover have "publish_event W e w = (Inr (), w')"
    using Inl r(1) by (simp add: publish_event_def onErr_step)
  ultimately show ?thesis using r(2) by blast
next
  case (Inr p)
  let ?vs = "ToStreamValues (RT (wk_env W)) p"
  have s: "to_send W [e] = [(stream W, ?vs)]" using Inr by (simp add: to_send_def)
  obtain w1 where p: "pub_Publish (publisher W) (stream W) ?vs w = (Inr (), w1)" "up w1"
    using Publish_up [OF assms(1)] by blast
  obtain now w2 where n: "time_Now (RT (wk_env W)) w1 = (now, w2)"
    by (cases "time_Now (RT (wk_env W)) w1")
  have "up w2" by (rule Now_up [OF p(2) n])
  then obtain w' where m: "OutboxRepository_MarkPublished (wk_env W) (ID e) now w2 = (Inr (), w')" "up w'"
    using MarkPublished_up by blast
  have v2: "visible w2 = (db w, kv w, streams w @ [(stream W, ?vs)])"
    using Now_frame [OF n] Publish_Inr [OF p(1)] by simp
  then have d: "db w2 = db w" "kv w2 = kv w" "streams w2 = streams w @ to_send W [e]"
    by (simp_all add: visible_def s)
  obtain t where v: "visible w' = ((db w2)\<lparr>outbox_events := map (\<lambda>x. if ID x = ID e
      then touch t (x\<lparr>outbox_Status := OutboxStatusPublished, PublishedAt := Some now, LastError := None\<rparr>)
      else x) (outbox_events (db w2))\<rparr>, kv w2, streams w2)" using MarkPublished_Inr [OF m(1)] by blast
  have "batch_done W [e] w w'"
  proof (rule batch_done_map [OF v [unfolded d]], goal_cases)
    case (1 x)
    with assms(2) Inr show ?case
      by (cases "ID x = ID e") (simp_all add: row_done_def is_row_def touch_def core_def)
  qed
  moreover have "publish_event W e w = (Inr (), w')"
    using Inr by (simp add: publish_event_def tryE_def bindE_def liftS_def onErr_def handleE_def p(1) n m(1))
  ultimately show ?thesis using m(2) by blast
qed

lemma publish_events_done:
  assumes "up w" "\<forall>e\<in>set es. is_row (outbox_events (db w)) e" "distinct (map ID es)"
  shows "\<exists>w'. publish_events W es w = (Inr (), w') \<and> up w' \<and> batch_done W es w w'"
  using assms
proof (induction es arbitrary: w)
  case Nil
  then show ?case
    by (auto simp: returnE_def batch_done_def to_send_def row_done_def list.rel_refl
        intro!: exI[of _ "outbox_events (db w)"] list.rel_refl_strong)
next
  case (Cons e es)
  obtain w1 where w1: "publish_event W e w = (Inr (), w1)" "up w1" "batch_done W [e] w w1"
    using publish_event_done [OF Cons.prems(1)] Cons.prems(2) by auto
  have "list_all2 (row_done W {ID e}) (outbox_events (db w)) (outbox_events (db w1))"
    using w1(3) by (auto simp: batch_done_def)
  then have "map core (outbox_events (db w1)) = map core (outbox_events (db w))"
    by (induction rule: list_all2_induct) (simp_all add: row_done_def)
  then have "\<forall>e\<in>set es. is_row (outbox_events (db w1)) e"
    using Cons.prems(2) is_row_cores by auto
  then obtain w' where w': "publish_events W es w1 = (Inr (), w')" "up w'" "batch_done W es w1 w'"
    using Cons.IH [OF w1(2)] Cons.prems(3) by auto
  have "batch_done W ([e] @ es) w w'"
    by (rule batch_done_trans [OF w1(3) w'(3)]) (use Cons.prems(3) in auto)
  then show ?case using w1(1) w'(1,2) by (auto simp: bindE_step)
qed

lemma PublishPending_done:
  assumes "up w" "distinct (map ID (outbox_events (db w)))"
  shows "\<exists>es w'. PublishPending W w = (Inr (), w') \<and> up w' \<and> batch_done W es w w' \<and>
    selected \<lparr>Where = \<lambda>e. outbox_Status e = OutboxStatusPending, Order = CreatedAt, Offset = 0,
      QLimit = Some (sint (batchSize W)), LockUpdate = False\<rparr> (\<lambda>_. True) (outbox_events (db w)) es"
proof -
  obtain es w1 where f: "OutboxRepository_FetchPending (wk_env W) (batchSize W) w = (Inr es, w1)" "up w1"
    unfolding OutboxRepository_FetchPending_def using outbox.Find_up [OF assms(1)] by blast
  note sel = outbox.Find_Inr [OF f(1) [unfolded OutboxRepository_FetchPending_def]]
  have v: "visible w1 = visible w" by (rule FetchPending_Inr(2) [OF f(1)])
  have sub: "set es \<subseteq> set (outbox_events (db w))" using FetchPending_Inr(1) [OF f(1)] by auto
  have row: "\<forall>e\<in>set es. is_row (outbox_events (db w1)) e"
    using rows_is_row [OF assms(2) sub] visible_db [OF v] by simp
  have "distinct (map ID es)" using selected_distinct [OF sel assms(2)] .
  then obtain w' where w': "publish_events W es w1 = (Inr (), w')" "up w'" "batch_done W es w1 w'"
    using publish_events_done [OF f(2) row] by blast
  have "batch_done W es w w'" using w'(3) v by (simp add: batch_done_def visible_eq)
  moreover have "PublishPending W w = (Inr (), w')"
    by (simp add: PublishPending_def bindE_def onErr_def handleE_def f(1) w'(1))
  ultimately show ?thesis using sel w'(2) by blast
qed

end

section \<open>The reference worker\<close>

definition eng_worker :: "int64 \<Rightarrow> engine worker" where
  "eng_worker n = \<lparr>wk_env = eng_env, publisher = NewRedisStreamPublisher eng_redis, batchSize = n,
     stream = StreamName\<rparr>"

interpretation eng_worker: worker_up "eng_worker n" healthy for n
  unfolding worker_up_def worker_laws_def eng_worker_def worker.simps
  using eng_env.env_up_axioms eng_env.env_laws_axioms eng_redis.publisher.stream_publisher_laws_axioms
    eng_redis.publisher_up.stream_publisher_up_axioms by simp

end
