(* ===== verification/Helpers.thy ===== *)
theory Helpers
  imports Event
begin

text \<open>
  \<open>internal/service/helpers.go\<close>: pagination, the request hash, reference codes, the idempotency
  protocol (replay, record) and the refresh of the balance cache after a commit. A nil
  \<open>cache.BalanceCache\<close> is \<open>None\<close>. Services return errors that are an \<open>*AppError\<close>.
\<close>

record pagination_config =
  defaultLimit :: int64
  maxLimit :: int64

definition normalizePage :: "int64 \<Rightarrow> int64 \<Rightarrow> pagination_config \<Rightarrow> int64 \<times> int64" where
  "normalizePage page limit cfg = NormalizePagination page limit (defaultLimit cfg) (maxLimit cfg)"

text \<open>The payloads hashed here are made of IDs, integers and decoded JSON: \<open>Marshal\<close> accepts them.\<close>

definition hashRequest :: "'h runtime \<Rightarrow> json \<Rightarrow> go_error + string" where
  "hashRequest R payload = Inr (sha256_hex R payload)"

definition newReferenceCode :: "'h runtime \<Rightarrow> string \<Rightarrow> 'h world \<Rightarrow> string \<times> 'h world" where
  "newReferenceCode R pre w = (let (u, w1) = uuid_New R w in (pre @ ''-'' @ uuid_String R u, w1))"

definition toJSONMap :: "json_map \<Rightarrow> json_map" where
  "toJSONMap metadata = (case metadata of None \<Rightarrow> None | Some kvs \<Rightarrow> if kvs = [] then None else Some kvs)"

definition optionalString :: "string \<Rightarrow> string option" where
  "optionalString value = (if value = [] then None else Some value)"

text \<open>\<open>replayResponse\<close>, at the type of the responses the program replays.\<close>

definition replayResponse ::
  "'h runtime \<Rightarrow> idempotency_key option \<Rightarrow> go_error + transaction_response \<times> int" where
  "replayResponse R record = (case record of None \<Rightarrow> Inr (zero_response, 0)
     | Some r \<Rightarrow> (case (ResponseStatusCode r, ResponseBodyJSON r) of
         (Some status, Some body) \<Rightarrow> (case response_of_json R body of
            Inl err \<Rightarrow> Inl (Errorf ''unmarshal idempotent response'' err)
          | Inr response \<Rightarrow> Inr (response, status))
       | _ \<Rightarrow> Inr (zero_response, 0)))"

definition internal :: "go_error \<Rightarrow> go_error" where
  "internal err = AppErr (Internal err)"

definition getIdempotencyReplay ::
  "'h env \<Rightarrow> string \<Rightarrow> string \<Rightarrow> string \<Rightarrow> ('h, transaction_response \<times> int \<times> idempotency_key option) go" where
  "getIdempotencyReplay E key endpoint requestHash =
    (if key = [] then returnE (zero_response, 0, None)
     else tryE (IdempotencyRepository_Get E key endpoint)
       (\<lambda>err. if IsNotFound err then returnE (zero_response, 0, None) else throwE (internal err))
       (\<lambda>record.
         if RequestHash record \<noteq> requestHash then throwE (AppErr IdempotencyConflict)
         else bindE (onErr internal (liftR (replayResponse (RT E) (Some record)))) (\<lambda>(response, statusCode).
           returnE (response, statusCode, Some record))))"

definition createIdempotencyRecord ::
  "'h env \<Rightarrow> string \<Rightarrow> string \<Rightarrow> string \<Rightarrow> int \<Rightarrow> ('h, idempotency_key option) go" where
  "createIdempotencyRecord E key endpoint requestHash ttl =
    (if key = [] then returnE None
     else bindE (liftS (time_Now (RT E))) (\<lambda>now.
       tryE (IdempotencyRepository_Create E
          \<lparr>idem_ID = uuid_Nil, idem_Key = key, idem_Endpoint = endpoint, RequestHash = requestHash,
           ResponseStatusCode = None, ResponseBodyJSON = None, ResourceID = None,
           idem_CreatedAt = 0, ExpiresAt = now + ttl\<rparr>)
         (\<lambda>err. if IsDuplicate (Some err)
                then throwE (AppErr (Conflict ''idempotency key is already in use''))
                else throwE (internal err))
         (\<lambda>record. returnE (Some record))))"

definition withTransaction :: "'h env \<Rightarrow> ('h, tx_result) go \<Rightarrow> ('h, tx_result) go" where
  "withTransaction E fn = Transaction (DB E) fn"

text \<open>An error of the cache is logged and the next wallet is written.\<close>

fun touchedWallets :: "'h balance_cache option \<Rightarrow> wallet list \<Rightarrow> ('h, unit) go" where
  "touchedWallets None ws = returnE ()"
| "touchedWallets (Some cacheStore) [] = returnE ()"
| "touchedWallets (Some cacheStore) (wl # ws) =
     bindE (handleE (cache_Set cacheStore (ID wl) (BalanceCachedMinor wl)) (\<lambda>err. returnE ())) (\<lambda>_.
       touchedWallets (Some cacheStore) ws)"

definition responseList :: "'a list \<Rightarrow> int64 \<Rightarrow> int64 \<Rightarrow> int64 \<Rightarrow> 'a page_response" where
  "responseList items page limit n =
    \<lparr>Items = items, Page = page, Limit = limit, Total = n\<rparr>"

section \<open>Laws\<close>

lemma NormalizePagination_bounds:
  assumes "NormalizePagination page limit d m = (p, l)" "0 < sint d" "0 < sint m"
  shows "0 < sint p" "0 < sint l" "sint l \<le> sint m"
  using assms by (auto simp: NormalizePagination_def Let_def split: if_splits)

lemma newReferenceCode_visible:
  "runtime_laws R \<Longrightarrow> newReferenceCode R p w = (c, w') \<Longrightarrow> visible w' = visible w"
  by (auto simp: newReferenceCode_def split: prod.splits dest: runtime_laws.New_frame)

lemma internal_inject [simp]: "internal e = internal f \<longleftrightarrow> e = f"
  by (simp add: internal_def Internal_def)

lemma internal_neq [simp]:
  "internal e \<noteq> AppErr IdempotencyConflict" "internal e \<noteq> AppErr InsufficientFunds"
  "internal e \<noteq> AppErr WalletNotActive" "internal e \<noteq> AppErr AlreadyReversed"
  "internal e \<noteq> AppErr (NotFound m)" "internal e \<noteq> AppErr (Conflict m)"
  "internal e \<noteq> AppErr (Validation m)"
  by (simp_all add: internal_def app_error_defs status_defs)

lemma app_error_neq [simp]:
  "IdempotencyConflict \<noteq> InsufficientFunds" "IdempotencyConflict \<noteq> WalletNotActive"
  "IdempotencyConflict \<noteq> AlreadyReversed" "IdempotencyConflict \<noteq> NotFound m"
  "IdempotencyConflict \<noteq> Conflict m" "IdempotencyConflict \<noteq> Validation m"
  "InsufficientFunds \<noteq> WalletNotActive" "InsufficientFunds \<noteq> AlreadyReversed"
  "InsufficientFunds \<noteq> NotFound m" "InsufficientFunds \<noteq> Conflict m" "InsufficientFunds \<noteq> Validation m"
  "WalletNotActive \<noteq> AlreadyReversed" "WalletNotActive \<noteq> NotFound m" "WalletNotActive \<noteq> Conflict m"
  "WalletNotActive \<noteq> Validation m" "AlreadyReversed \<noteq> NotFound m" "AlreadyReversed \<noteq> Conflict m"
  "AlreadyReversed \<noteq> Validation m" "NotFound m \<noteq> Conflict m'" "NotFound m \<noteq> Validation m'"
  "Conflict m \<noteq> Validation m'"
  by (simp_all add: app_error_defs status_defs)

lemmas app_error_neq_sym [simp] = app_error_neq [symmetric] internal_neq [symmetric]

subsection \<open>Idempotency\<close>

context env_laws
begin

lemma keeps_newReferenceCode [keeps_intros]: "keeps visible (liftS (newReferenceCode (RT E) p))"
  by (auto simp: keeps_def prog_simps newReferenceCode_def split: prod.splits dest: New_frame)

lemma keeps_getIdempotencyReplay [keeps_intros]:
  "keeps visible (getIdempotencyReplay E key ep h)"
  unfolding getIdempotencyReplay_def by (intro keeps_intros)

text \<open>A replay is the decoded response of the stored record of that key, endpoint and request.\<close>

lemma getIdempotencyReplay_Inr:
  assumes "getIdempotencyReplay E key ep h w = (Inr (resp, st, rec), w')" "st \<noteq> 0"
  shows "\<exists>r body. rec = Some r \<and> r \<in> set (idempotency_keys (db w)) \<and> idem_Key r = key \<and>
    idem_Endpoint r = ep \<and> RequestHash r = h \<and> ResponseStatusCode r = Some st \<and>
    ResponseBodyJSON r = Some body \<and> response_of_json (RT E) body = Inr resp"
proof -
  obtain r where g: "IdempotencyRepository_Get E key ep w = (Inr r, w')" and "rec = Some r"
    and "RequestHash r = h" "replayResponse (RT E) (Some r) = Inr (resp, st)"
    using assms by (auto simp: getIdempotencyReplay_def prog_simps split: if_splits)
  with Get_Inr(6) [OF g] assms(2) show ?thesis
    by (auto simp: replayResponse_def split: option.splits sum.splits)
qed

text \<open>A new record has the key, the endpoint and the hash, no response, and is the only one of its key.\<close>

lemma createIdempotencyRecord_Some:
  assumes "createIdempotencyRecord E key ep h ttl w = (Inr (Some r), w')"
  shows "key \<noteq> [] \<and> idem_Key r = key \<and> idem_Endpoint r = ep \<and> RequestHash r = h \<and>
    ResponseStatusCode r = None \<and> ResponseBodyJSON r = None \<and>
    (\<forall>x\<in>set (idempotency_keys (db w)). \<not> idempotency_key_clash r x) \<and>
    visible w' = ((db w)\<lparr>idempotency_keys := idempotency_keys (db w) @ [r]\<rparr>, kv w, streams w)"
proof -
  obtain now w1 where n: "time_Now (RT E) w = (now, w1)" by (cases "time_Now (RT E) w")
  then have v: "visible w1 = visible w" by (rule Now_frame)
  have "key \<noteq> []" using assms by (auto simp: createIdempotencyRecord_def prog_simps)
  moreover have "IdempotencyRepository_Create E \<lparr>idem_ID = uuid_Nil, idem_Key = key,
      idem_Endpoint = ep, RequestHash = h, ResponseStatusCode = None, ResponseBodyJSON = None,
      ResourceID = None, idem_CreatedAt = 0, ExpiresAt = now + ttl\<rparr> w1 = (Inr r, w')"
    using assms n by (auto simp: createIdempotencyRecord_def prog_simps split: if_splits)
  from IdempotencyRepository_Create_Inr [OF this] obtain i t where
    r: "r = idem_born t \<lparr>idem_ID = i, idem_Key = key, idem_Endpoint = ep, RequestHash = h,
      ResponseStatusCode = None, ResponseBodyJSON = None, ResourceID = None, idem_CreatedAt = 0,
      ExpiresAt = now + ttl\<rparr>" and
    rest: "\<forall>x\<in>set (idempotency_keys (db w1)). \<not> idempotency_key_clash r x"
      "visible w' = ((db w1)\<lparr>idempotency_keys := idempotency_keys (db w1) @ [r]\<rparr>, kv w1, streams w1)"
    by auto
  moreover from v have "db w1 = db w" "kv w1 = kv w" "streams w1 = streams w"
    by (simp_all add: visible_eq)
  ultimately show ?thesis by (simp add: idem_born_def)
qed

lemma createIdempotencyRecord_None:
  "createIdempotencyRecord E key ep h ttl w = (Inr None, w') \<Longrightarrow> key = [] \<and> w' = w"
  by (auto simp: createIdempotencyRecord_def prog_simps split: if_splits)

text \<open>The two errors of the record: a duplicate key, or a failure of the database.\<close>

lemma createIdempotencyRecord_Inl:
  "createIdempotencyRecord E key ep h ttl w = (Inl e, w') \<Longrightarrow>
    e = AppErr (Conflict ''idempotency key is already in use'') \<or> (\<exists>e'. e = internal e')"
  by (auto simp: createIdempotencyRecord_def prog_simps split: if_splits)

end

subsection \<open>The cache after a commit\<close>

context balance_cache_laws
begin

lemma keeps_touchedWallets: "keeps (\<lambda>w. (db w, streams w)) (touchedWallets (Some C) ws)"
  by (induction ws) (auto intro!: keeps_intros keeps_cache_Set)

lemma touchedWallets_Inr: "\<exists>w'. touchedWallets (Some C) ws w = (Inr (), w')"
proof (induction ws arbitrary: w)
  case Nil
  then show ?case by (simp add: returnE_def)
next
  case (Cons x ws)
  then show ?case
    by (cases "cache_Set C (ID x) (BalanceCachedMinor x) w")
      (auto simp: bindE_def handleE_def returnE_def split: sum.splits)
qed

text \<open>Each wallet keeps its old entry or has the balance of one of the rows written for it.\<close>

lemma touchedWallets_content:
  "touchedWallets (Some C) ws w = (r, w') \<Longrightarrow>
    content w' i = content w i \<or> (\<exists>wl\<in>set ws. ID wl = i \<and> content w' i = Some (BalanceCachedMinor wl))"
proof (induction ws arbitrary: w)
  case Nil
  then show ?case by (simp add: prog_simps)
next
  case (Cons x ws)
  obtain q w1 where s: "cache_Set C (ID x) (BalanceCachedMinor x) w = (q, w1)"
    by (cases "cache_Set C (ID x) (BalanceCachedMinor x) w")
  have "touchedWallets (Some C) ws w1 = (r, w')"
    using Cons.prems s by (cases q) (auto simp: bindE_def handleE_def returnE_def)
  from Cons.IH [OF this] Set_cases [OF s] show ?case by (auto split: if_splits)
qed

end

end
