(* ===== verification/UserService.thy ===== *)
theory UserService
  imports Helpers
begin

text \<open>
  \<open>internal/service/user_service.go\<close> and \<open>wallet_service.go\<close>: one definition per method, and what
  each returns and changes on every branch.
\<close>

definition not_found :: go_error where
  "not_found = AppErr (NotFound ''requested resource was not found'')"

definition conflict :: go_error where
  "conflict = AppErr (Conflict ''resource conflicts with existing data'')"

definition invalid :: go_error where
  "invalid = AppErr (Validation ''one or more fields are invalid'')"

lemmas service_errors = not_found_def conflict_def invalid_def

lemma service_error_neq [simp]:
  "not_found \<noteq> conflict" "not_found \<noteq> invalid" "conflict \<noteq> invalid" "conflict \<noteq> not_found"
  "invalid \<noteq> not_found" "invalid \<noteq> conflict" "internal e \<noteq> not_found" "internal e \<noteq> conflict"
  "internal e \<noteq> invalid" "not_found \<noteq> internal e" "conflict \<noteq> internal e" "invalid \<noteq> internal e"
  by (simp_all add: service_errors)

section \<open>UserService\<close>

record 'h user_service =
  us_env :: "'h env"
  us_pagination :: pagination_config

definition UserService_Create :: "'h user_service \<Rightarrow> create_user_request \<Rightarrow> ('h, user_response) go" where
  "UserService_Create S request =
    (let user = \<lparr>ID = uuid_Nil, CreatedAt = 0, UpdatedAt = 0, ExternalRef = cu_ExternalRef request,
           FullName = cu_FullName request, Email = cu_Email request,
           PhoneNumber = cu_PhoneNumber request, user_Status = cu_Status request,
           user_DeletedAt = None\<rparr>;
         user = (if user_Status user = [] then user\<lparr>user_Status := UserStatusActive\<rparr> else user)
     in tryE (UserRepository_Create (us_env S) user)
          (\<lambda>err. if IsDuplicate (Some err) then throwE conflict else throwE (internal err))
          (\<lambda>user. returnE (UserFromModel user)))"

definition UserService_List ::
  "'h user_service \<Rightarrow> int64 \<Rightarrow> int64 \<Rightarrow> ('h, user_response page_response) go" where
  "UserService_List S page limit =
    (let (page, limit) = normalizePage page limit (us_pagination S) in
     bindE (onErr internal (UserRepository_List (us_env S) page limit)) (\<lambda>(us, n).
     returnE (responseList (map UserFromModel us) page limit n)))"

definition UserService_Get :: "'h user_service \<Rightarrow> uuid \<Rightarrow> ('h, user_response) go" where
  "UserService_Get S i =
    tryE (UserRepository_GetByID (us_env S) i)
      (\<lambda>err. if IsNotFound err then throwE not_found else throwE (internal err))
      (\<lambda>user. returnE (UserFromModel user))"

definition UserService_Update ::
  "'h user_service \<Rightarrow> uuid \<Rightarrow> update_user_request \<Rightarrow> ('h, user_response) go" where
  "UserService_Update S i request =
    tryE (UserRepository_GetByID (us_env S) i)
      (\<lambda>err. if IsNotFound err then throwE not_found else throwE (internal err))
      (\<lambda>user.
        let user = user\<lparr>ExternalRef := uu_ExternalRef request, FullName := uu_FullName request,
              Email := uu_Email request, PhoneNumber := uu_PhoneNumber request,
              user_Status := uu_Status request\<rparr>
        in tryE (UserRepository_Update (us_env S) user)
             (\<lambda>err. if IsDuplicate (Some err) then throwE conflict else throwE (internal err))
             (\<lambda>user. returnE (UserFromModel user)))"

definition UserService_Delete :: "'h user_service \<Rightarrow> uuid \<Rightarrow> ('h, unit) go" where
  "UserService_Delete S i =
    tryE (UserRepository_GetByID (us_env S) i)
      (\<lambda>err. if IsNotFound err then throwE not_found else throwE (internal err))
      (\<lambda>_. onErr internal (UserRepository_Delete (us_env S) i))"

section \<open>WalletService\<close>

record 'h wallet_service =
  ws_env :: "'h env"
  ws_cacheStore :: "'h balance_cache option"

definition WalletService_Create ::
  "'h wallet_service \<Rightarrow> create_wallet_request \<Rightarrow> ('h, wallet_response) go" where
  "WalletService_Create S request =
    tryE (UserRepository_GetByID (ws_env S) (cw_UserID request))
      (\<lambda>err. if IsNotFound err then throwE not_found else throwE (internal err))
      (\<lambda>user. if user_Status user \<noteq> UserStatusActive then throwE invalid
        else let wl = \<lparr>ID = uuid_Nil, CreatedAt = 0, UpdatedAt = 0, UserID = cw_UserID request,
                   wallet_Currency = cw_Currency request, wallet_Status = WalletStatusActive,
                   BalanceCachedMinor = 0, wallet_DeletedAt = None\<rparr>;
                 wl = (if wallet_Currency wl = [] then wl\<lparr>wallet_Currency := CurrencyTHB\<rparr> else wl)
             in tryE (WalletRepository_Create (ws_env S) wl)
                  (\<lambda>err. if IsDuplicate (Some err) then throwE conflict else throwE (internal err))
                  (\<lambda>wl. returnE (WalletFromModel wl)))"

definition WalletService_Get :: "'h wallet_service \<Rightarrow> uuid \<Rightarrow> ('h, wallet_response) go" where
  "WalletService_Get S i =
    tryE (WalletRepository_GetByID (ws_env S) i)
      (\<lambda>err. if IsNotFound err then throwE not_found else throwE (internal err))
      (\<lambda>wl. returnE (WalletFromModel wl))"

text \<open>The two parts of \<open>GetBalance\<close> after the wallet is read: the cache's answer, or the row's.\<close>

definition balance_from_database :: "'h balance_cache option \<Rightarrow> wallet \<Rightarrow> ('h, balance_response) go" where
  "balance_from_database cacheStore wl =
    bindE (case cacheStore of None \<Rightarrow> returnE ()
      | Some c \<Rightarrow> handleE (cache_Set c (ID wl) (BalanceCachedMinor wl)) (\<lambda>err. returnE ())) (\<lambda>_.
    returnE \<lparr>br_WalletID = ID wl, br_Currency = wallet_Currency wl,
      br_BalanceMinor = BalanceCachedMinor wl, br_Source = ''database''\<rparr>)"

definition GetBalance :: "'h wallet_service \<Rightarrow> uuid \<Rightarrow> ('h, balance_response) go" where
  "GetBalance S i =
    tryE (WalletRepository_GetByID (ws_env S) i)
      (\<lambda>err. if IsNotFound err then throwE not_found else throwE (internal err))
      (\<lambda>wl. case ws_cacheStore S of
         None \<Rightarrow> balance_from_database None wl
       | Some c \<Rightarrow> tryE (cache_Get c i)
           (\<lambda>cacheErr. balance_from_database (Some c) wl)
           (\<lambda>(balance, found).
             if found then returnE \<lparr>br_WalletID = ID wl, br_Currency = wallet_Currency wl,
               br_BalanceMinor = balance, br_Source = ''redis''\<rparr>
             else balance_from_database (Some c) wl))"

definition UpdateStatus :: "'h wallet_service \<Rightarrow> uuid \<Rightarrow> string \<Rightarrow> ('h, wallet_response) go" where
  "UpdateStatus S i status =
    tryE (WalletRepository_GetByID (ws_env S) i)
      (\<lambda>err. if IsNotFound err then throwE not_found else throwE (internal err))
      (\<lambda>wl. let wl = wl\<lparr>wallet_Status := status\<rparr> in
        bindE (onErr internal (WalletRepository_Update (ws_env S) wl)) (\<lambda>wl.
        returnE (WalletFromModel wl)))"

section \<open>What the methods of UserService do\<close>

locale user_service_laws = env_laws "us_env S" for S :: "'h user_service"
begin

text \<open>A new user is a row no live or deleted user clashes with; a failure changes nothing.\<close>

lemma UserService_Create_Inr:
  assumes "UserService_Create S req w = (Inr resp, w')"
  shows "\<exists>u. ID u \<noteq> uuid_Nil \<and> Email u = cu_Email req \<and> PhoneNumber u = cu_PhoneNumber req \<and>
    ExternalRef u = cu_ExternalRef req \<and> FullName u = cu_FullName req \<and> user_live u \<and>
    user_Status u = (if cu_Status req = [] then UserStatusActive else cu_Status req) \<and>
    (\<forall>x\<in>set (users (db w)). \<not> user_clash u x) \<and> resp = UserFromModel u \<and>
    visible w' = ((db w)\<lparr>users := users (db w) @ [u]\<rparr>, kv w, streams w)"
proof -
  let ?u = "\<lparr>ID = uuid_Nil, CreatedAt = 0, UpdatedAt = 0, ExternalRef = cu_ExternalRef req,
    FullName = cu_FullName req, Email = cu_Email req, PhoneNumber = cu_PhoneNumber req,
    user_Status = if cu_Status req = [] then UserStatusActive else cu_Status req, user_DeletedAt = None\<rparr>"
  obtain u where c: "UserRepository_Create (us_env S) ?u w = (Inr u, w')" and r: "resp = UserFromModel u"
    using assms by (auto simp: UserService_Create_def Let_def prog_simps split: if_splits)
  from UserRepository_Create_Inr [OF c] show ?thesis
    unfolding r by (auto simp: born_def user_live_def UserStatusActive_def intro!: exI[of _ u])
qed

lemma UserService_Create_Inl:
  assumes "UserService_Create S req w = (Inl e, w')"
  shows "visible w' = visible w \<and> (e = conflict \<or> (\<exists>e'. e = internal e'))"
  using assms by (auto simp: UserService_Create_def Let_def prog_simps split: if_splits
      dest: Create_Inl(1))

lemma UserService_Update_Inr:
  assumes "UserService_Update S i req w = (Inr resp, w')"
  shows "\<exists>u u'. u \<in> set (users (db w)) \<and> user_live u \<and> ID u = i \<and> resp = UserFromModel u' \<and>
    (\<exists>t. u' = touch t (u\<lparr>ExternalRef := uu_ExternalRef req, FullName := uu_FullName req,
      Email := uu_Email req, PhoneNumber := uu_PhoneNumber req, user_Status := uu_Status req\<rparr>)) \<and>
    (\<forall>x\<in>set (users (db w)). ID x \<noteq> i \<longrightarrow> \<not> user_clash u' x) \<and>
    visible w' = ((db w)\<lparr>users := replace_row (\<lambda>x. ID x = i \<and> user_live x) u' (users (db w))\<rparr>,
      kv w, streams w)"
proof -
  obtain u w1 u' where g: "UserRepository_GetByID (us_env S) i w = (Inr u, w1)"
    and up: "UserRepository_Update (us_env S) (u\<lparr>ExternalRef := uu_ExternalRef req, FullName := uu_FullName req,
      Email := uu_Email req, PhoneNumber := uu_PhoneNumber req, user_Status := uu_Status req\<rparr>) w1 =
      (Inr u', w')" and r: "resp = UserFromModel u'"
    using assms by (auto simp: UserService_Update_def Let_def prog_simps split: if_splits)
  have v: "visible w1 = visible w" by (rule keepsD [OF keeps_Get(1) g])
  have u: "u \<in> set (users (db w))" "user_live u" "ID u = i" using Get_Inr(1) [OF g] by auto
  with v have "\<exists>x\<in>set (users (db w1)). ID x = i \<and> user_live x" by (auto simp: visible_eq)
  from UserRepository_Update_Inr [OF up] this u obtain t where
    "u' = touch t (u\<lparr>ExternalRef := uu_ExternalRef req, FullName := uu_FullName req,
      Email := uu_Email req, PhoneNumber := uu_PhoneNumber req, user_Status := uu_Status req\<rparr>)"
    "\<forall>x\<in>set (users (db w1)). ID x \<noteq> i \<longrightarrow> \<not> user_clash (u\<lparr>ExternalRef := uu_ExternalRef req,
      FullName := uu_FullName req, Email := uu_Email req, PhoneNumber := uu_PhoneNumber req,
      user_Status := uu_Status req\<rparr>) x"
    "visible w' = ((db w1)\<lparr>users := replace_row (\<lambda>x. ID x = i \<and> user_live x) u' (users (db w1))\<rparr>,
      kv w1, streams w1)"
    by auto
  with v u r show ?thesis
    by (intro exI[of _ u] exI[of _ u']) (auto simp: visible_eq visible_def touch_def user_clash_def)
qed

lemma UserService_Update_Inl:
  assumes "UserService_Update S i req w = (Inl e, w')"
  shows "visible w' = visible w \<and> (e = not_found \<or> e = conflict \<or> (\<exists>e'. e = internal e'))"
  using assms by (auto simp: UserService_Update_def Let_def prog_simps split: if_splits)
    (metis Update_Inl(1) keepsD keeps_Get(1))+

lemma keeps_UserService [keeps_intros]:
  shows "keeps visible (UserService_List S page limit)" "keeps visible (UserService_Get S i)"
  unfolding UserService_List_def UserService_Get_def Let_def by (intro keeps_intros)+

text \<open>Deleting marks the live row of the ID; every other row, and every key, stays.\<close>

lemma UserService_Delete_Inr:
  assumes "UserService_Delete S i w = (Inr u, w')"
  shows "(\<exists>x\<in>set (users (db w)). ID x = i \<and> user_live x) \<and>
    (\<exists>t. visible w' = ((db w)\<lparr>users := map (\<lambda>x. if user_live x \<and> ID x = i
      then x\<lparr>user_DeletedAt := Some t\<rparr> else x) (users (db w))\<rparr>, kv w, streams w))"
proof -
  obtain x w1 where g: "UserRepository_GetByID (us_env S) i w = (Inr x, w1)"
    and d: "DeleteUser (DB (us_env S)) (\<lambda>u. ID u = i) w1 = (Inr u, w')"
    using assms by (auto simp: UserService_Delete_def UserRepository_Delete_def prog_simps split: if_splits)
  have v: "visible w1 = visible w" by (rule keepsD [OF keeps_Get(1) g])
  with Delete_Inr [OF d] Get_Inr(1) [OF g] show ?thesis by (auto simp: visible_eq)
qed

lemma UserService_Delete_Inl:
  assumes "UserService_Delete S i w = (Inl e, w')"
  shows "visible w' = visible w \<and> (e = not_found \<or> (\<exists>e'. e = internal e'))"
  using assms by (auto simp: UserService_Delete_def UserRepository_Delete_def prog_simps split: if_splits)
    (metis Delete_Inl keepsD keeps_Get(1))+

end

section \<open>What the methods of WalletService do\<close>

locale wallet_writes = env_laws "ws_env S" for S :: "'h wallet_service"
begin

text \<open>A new wallet belongs to a live active user who has no wallet, is active, and is empty.\<close>

lemma WalletService_Create_Inr:
  assumes "WalletService_Create S req w = (Inr resp, w')"
  shows "\<exists>u wl. u \<in> set (users (db w)) \<and> user_live u \<and> ID u = cw_UserID req \<and>
    user_Status u = UserStatusActive \<and> ID wl \<noteq> uuid_Nil \<and> UserID wl = cw_UserID req \<and>
    BalanceCachedMinor wl = 0 \<and> IsActive wl \<and> wallet_live wl \<and>
    wallet_Currency wl = (if cw_Currency req = [] then CurrencyTHB else cw_Currency req) \<and>
    (\<forall>x\<in>set (wallets (db w)). \<not> wallet_clash wl x) \<and> resp = WalletFromModel wl \<and>
    visible w' = ((db w)\<lparr>wallets := wallets (db w) @ [wl]\<rparr>, kv w, streams w)"
proof -
  obtain u w1 wl where g: "UserRepository_GetByID (ws_env S) (cw_UserID req) w = (Inr u, w1)"
    and a: "user_Status u = UserStatusActive"
    and c: "WalletRepository_Create (ws_env S) \<lparr>ID = uuid_Nil, CreatedAt = 0, UpdatedAt = 0,
      UserID = cw_UserID req,
      wallet_Currency = if cw_Currency req = [] then CurrencyTHB else cw_Currency req,
      wallet_Status = WalletStatusActive, BalanceCachedMinor = 0, wallet_DeletedAt = None\<rparr> w1 = (Inr wl, w')"
    and r: "resp = WalletFromModel wl"
    using assms by (auto simp: WalletService_Create_def Let_def prog_simps split: if_splits)
  have v: "visible w1 = visible w" by (rule keepsD [OF keeps_Get(1) g])
  have "db w1 = db w" "kv w1 = kv w" "streams w1 = streams w" using v by (simp_all add: visible_eq)
  with WalletRepository_Create_Inr [OF c] Get_Inr(1) [OF g] a show ?thesis
    unfolding r by (auto simp: born_def wallet_live_def IsActive_def const_defs intro!: exI[of _ u] exI[of _ wl])
qed

lemma WalletService_Create_Inl:
  assumes "WalletService_Create S req w = (Inl e, w')"
  shows "visible w' = visible w \<and>
    (e = not_found \<or> e = invalid \<or> e = conflict \<or> (\<exists>e'. e = internal e'))"
  using assms by (auto simp: WalletService_Create_def Let_def prog_simps split: if_splits)
    (metis Create_Inl(2) keepsD keeps_Get(1))+

lemma keeps_WalletService_Get [keeps_intros]:
  shows "keeps visible (WalletService_Get S i)"
  unfolding WalletService_Get_def by (intro keeps_intros)

text \<open>A status update replaces the row by itself with the new status: the balance stays.\<close>

lemma UpdateStatus_Inr:
  assumes "UpdateStatus S i status w = (Inr resp, w')"
  shows "\<exists>wl t. wl \<in> set (wallets (db w)) \<and> wallet_live wl \<and> ID wl = i \<and>
    resp = WalletFromModel (touch t (wl\<lparr>wallet_Status := status\<rparr>)) \<and>
    visible w' = ((db w)\<lparr>wallets := replace_row (\<lambda>x. ID x = i \<and> wallet_live x)
      (touch t (wl\<lparr>wallet_Status := status\<rparr>)) (wallets (db w))\<rparr>, kv w, streams w)"
proof -
  obtain wl w1 wl' where g: "WalletRepository_GetByID (ws_env S) i w = (Inr wl, w1)"
    and up: "WalletRepository_Update (ws_env S) (wl\<lparr>wallet_Status := status\<rparr>) w1 = (Inr wl', w')"
    and r: "resp = WalletFromModel wl'"
    using assms by (auto simp: UpdateStatus_def Let_def prog_simps split: if_splits)
  have v: "visible w1 = visible w" by (rule keepsD [OF keeps_Get(2) g])
  have wl: "wl \<in> set (wallets (db w))" "wallet_live wl" "ID wl = i" using Get_Inr(2) [OF g] by auto
  with v have "\<exists>x\<in>set (wallets (db w1)). ID x = i \<and> wallet_live x" by (auto simp: visible_eq)
  with WalletRepository_Update_Inr [OF up] wl v r show ?thesis by (auto simp: visible_eq)
qed

lemma UpdateStatus_Inl:
  assumes "UpdateStatus S i status w = (Inl e, w')"
  shows "visible w' = visible w \<and> (e = not_found \<or> (\<exists>e'. e = internal e'))"
  using assms by (auto simp: UpdateStatus_def Let_def prog_simps split: if_splits)
    (metis Update_Inl(2) keepsD keeps_Get(2))+

end

text \<open>A balance is the row's, or what the cache holds for the wallet; the database is not changed.\<close>

locale wallet_service_laws = wallet_writes S + balance_cache_laws C content
  for S :: "'h wallet_service" and C content +
  assumes cacheStore: "ws_cacheStore S = Some C"
begin

lemma GetBalance_Inr:
  assumes "GetBalance S i w = (Inr resp, w')"
  shows "\<exists>wl\<in>set (wallets (db w)). wallet_live wl \<and> ID wl = i \<and> br_WalletID resp = i \<and>
    br_Currency resp = wallet_Currency wl \<and>
    (br_Source resp = ''redis'' \<and> content w i = Some (br_BalanceMinor resp) \<and> visible w' = visible w \<or>
     br_Source resp = ''database'' \<and> br_BalanceMinor resp = BalanceCachedMinor wl \<and>
       db w' = db w \<and> streams w' = streams w \<and>
       (content w' = content w \<or> content w' = (content w)(i \<mapsto> BalanceCachedMinor wl)))"
proof -
  obtain wl w1 where g: "WalletRepository_GetByID (ws_env S) i w = (Inr wl, w1)"
    using assms by (auto simp: GetBalance_def prog_simps split: if_splits)
  have v: "visible w1 = visible w" by (rule keepsD [OF keeps_Get(2) g])
  have wl: "wl \<in> set (wallets (db w))" "wallet_live wl" "ID wl = i" using Get_Inr(2) [OF g] by auto
  obtain q w2 where c: "cache_Get C i w1 = (q, w2)" by (cases "cache_Get C i w1")
  have v2: "visible w2 = visible w" using keepsD [OF keeps_cache_Get c] v by simp
  obtain s w3 where s: "cache_Set C i (BalanceCachedMinor wl) w2 = (s, w3)"
    by (cases "cache_Set C i (BalanceCachedMinor wl) w2")
  have d3: "db w3 = db w" "streams w3 = streams w"
    using keepsD [OF keeps_db_Set(1) s] keepsD [OF keeps_db_Set(2) s] v2 by (simp_all add: visible_eq)
  have c3: "content w3 = content w \<or> content w3 = (content w)(i \<mapsto> BalanceCachedMinor wl)"
    using Set_cases [OF s] content_visible [OF v2] by simp
  have db: "balance_from_database (Some C) wl w2 = (Inr \<lparr>br_WalletID = i,
      br_Currency = wallet_Currency wl, br_BalanceMinor = BalanceCachedMinor wl, br_Source = ''database''\<rparr>, w3)"
    using s wl by (cases s) (simp_all add: balance_from_database_def bindE_def handleE_def returnE_def)
  have run: "(case q of Inl e \<Rightarrow> balance_from_database (Some C) wl w2
     | Inr (b, f) \<Rightarrow> if f then (Inr \<lparr>br_WalletID = ID wl, br_Currency = wallet_Currency wl,
               br_BalanceMinor = b, br_Source = ''redis''\<rparr>, w2)
             else balance_from_database (Some C) wl w2) = (Inr resp, w')"
    using assms g c cacheStore by (auto simp: GetBalance_def tryE_def returnE_def split: sum.splits if_splits)
  show ?thesis
  proof (cases "\<exists>b. q = Inr (b, True)")
    case True
    then obtain b where "q = Inr (b, True)" by blast
    with c content_visible [OF v] have "content w i = Some b" using Get_found by metis
    with run wl v2 \<open>q = Inr (b, True)\<close> show ?thesis by auto
  next
    case False
    then have "balance_from_database (Some C) wl w2 = (Inr resp, w')"
      using run by (auto split: sum.splits prod.splits if_splits)
    with db wl d3 c3 show ?thesis by auto
  qed
qed

lemma balance_from_database_Inr: "\<exists>b w'. balance_from_database c wl w = (Inr b, w')"
  by (auto simp: balance_from_database_def bindE_def handleE_def returnE_def split: option.splits prod.splits sum.splits)

text \<open>The read of the row is the only step that fails: an error of the cache is never returned.\<close>

lemma GetBalance_Inl:
  assumes "GetBalance S i w = (Inl e, w')"
  shows "visible w' = visible w \<and> (e = not_found \<or> (\<exists>e'. e = internal e'))"
proof (cases "WalletRepository_GetByID (ws_env S) i w")
  case (Pair q w1)
  have v: "visible w1 = visible w" by (rule keepsD [OF keeps_Get(2) Pair])
  show ?thesis
  proof (cases q)
    case (Inl e')
    with assms Pair v show ?thesis by (auto simp: GetBalance_def tryE_def throwE_def split: if_splits)
  next
    case (Inr wl)
    obtain q2 w2 where c: "cache_Get C i w1 = (q2, w2)" by (cases "cache_Get C i w1")
    obtain b w3 where "balance_from_database (Some C) wl w2 = (Inr b, w3)"
      using balance_from_database_Inr by blast
    with assms Pair Inr cacheStore c have False
      by (auto simp: GetBalance_def tryE_def returnE_def split: sum.splits if_splits)
    then show ?thesis ..
  qed
qed

end

section \<open>The services on the reference environment\<close>

definition eng_users :: "engine user_service" where
  "eng_users = \<lparr>us_env = eng_env, us_pagination = \<lparr>defaultLimit = 20, maxLimit = 100\<rparr>\<rparr>"

definition eng_cache :: "engine balance_cache" where
  "eng_cache = NewRedisBalanceCache eng_redis eng_runtime 60000000000"

definition eng_wallets :: "engine wallet_service" where
  "eng_wallets = \<lparr>ws_env = eng_env, ws_cacheStore = Some eng_cache\<rparr>"

interpretation eng_users: user_service_laws eng_users
  unfolding user_service_laws_def eng_users_def user_service.simps by (rule eng_env.env_laws_axioms)

interpretation eng_wallets: wallet_service_laws eng_wallets eng_cache "cached eng_runtime"
  unfolding wallet_service_laws_def wallet_writes_def wallet_service_laws_axioms_def eng_wallets_def
    wallet_service.simps eng_cache_def
  using eng_env.env_laws_axioms eng_cache.cache.balance_cache_laws_axioms by simp

end
