(* ===== verification/TransactionService.thy ===== *)
theory TransactionService
  imports UserService
begin

text \<open>
  \<open>internal/service/transaction_service.go\<close>: the three operations that move money, each an outer
  function (validation, request hash, replay, transaction, cache refresh) and the body of its
  database transaction, and the reads.
\<close>

definition topUpEndpoint :: string where
  "topUpEndpoint = ''POST:/api/v1/transactions/topup''"

definition transferEndpoint :: string where
  "transferEndpoint = ''POST:/api/v1/transactions/transfer''"

definition reverseEndpoint :: string where
  "reverseEndpoint = ''POST:/api/v1/transactions/reverse''"

lemmas endpoint_defs = topUpEndpoint_def transferEndpoint_def reverseEndpoint_def

record 'h transaction_service =
  ts_env :: "'h env"
  ts_cacheStore :: "'h balance_cache option"
  idempotencyTTL :: int
  ts_pagination :: pagination_config

section \<open>Wallet resolution\<close>

text \<open>The loop over the locked rows: a later match overrides an earlier one.\<close>

definition resolveTransferWallets :: "wallet list \<Rightarrow> uuid \<Rightarrow> uuid \<Rightarrow> go_error + wallet \<times> wallet" where
  "resolveTransferWallets ws sourceID destinationID =
    (case foldl (\<lambda>(source, destination) wl.
        if ID wl = sourceID then (Some wl, destination)
        else if ID wl = destinationID then (source, Some wl)
        else (source, destination)) (None, None) ws of
       (Some source, Some destination) \<Rightarrow> Inr (source, destination)
     | _ \<Rightarrow> Inl not_found)"

definition resolveTopUpWallets :: "wallet list \<Rightarrow> uuid \<Rightarrow> go_error + wallet \<times> wallet" where
  "resolveTopUpWallets ws destinationID =
    (case foldl (\<lambda>(system, destination) wl.
        if ID wl = SystemWalletID then (Some wl, destination)
        else if ID wl = destinationID then (system, Some wl)
        else (system, destination)) (None, None) ws of
       (Some system, Some destination) \<Rightarrow> Inr (system, destination)
     | _ \<Rightarrow> Inl not_found)"

text \<open>A ledger entry literal and the addition \<open>wallet.BalanceCachedMinor += d\<close>.\<close>

definition new_entry :: "uuid \<Rightarrow> uuid \<Rightarrow> string \<Rightarrow> int64 \<Rightarrow> ledger_entry" where
  "new_entry transactionID walletID entryType amount =
    \<lparr>entry_ID = uuid_Nil, TransactionID = transactionID, WalletID = walletID, EntryType = entryType,
     entry_AmountMinor = amount, entry_CreatedAt = 0\<rparr>"

definition add_balance :: "int64 \<Rightarrow> wallet \<Rightarrow> wallet" where
  "add_balance d wl = wl\<lparr>BalanceCachedMinor := BalanceCachedMinor wl + d\<rparr>"

definition saveResponse ::
  "'h env \<Rightarrow> idempotency_key option \<Rightarrow> transaction_response \<Rightarrow> uuid \<Rightarrow> ('h, unit) go" where
  "saveResponse E record response transactionID = (case record of None \<Rightarrow> returnE ()
     | Some r \<Rightarrow> onErr internal
         (IdempotencyRepository_SaveResponse E (idem_ID r) 201 response (Some transactionID)))"

section \<open>TopUp\<close>

definition TopUp_tx ::
  "'h transaction_service \<Rightarrow> top_up_request \<Rightarrow> string \<Rightarrow> string \<Rightarrow> ('h, tx_result) go" where
  "TopUp_tx S request idempotencyKey requestHash = (let E = ts_env S; amount = tu_AmountMinor request in
    bindE (createIdempotencyRecord E idempotencyKey topUpEndpoint requestHash (idempotencyTTL S)) (\<lambda>record.
    bindE (onErr internal (WalletRepository_GetByIDsForUpdate E [SystemWalletID, tu_WalletID request])) (\<lambda>ws.
    bindE (liftR (resolveTopUpWallets ws (tu_WalletID request))) (\<lambda>(systemWallet, destinationWallet).
    bindE (failWhen (\<not> IsActive destinationWallet) (AppErr WalletNotActive)) (\<lambda>_.
    bindE (liftS (newReferenceCode (RT E) ''TOPUP'')) (\<lambda>ref.
    bindE (onErr internal (TransactionRepository_Create E
      \<lparr>ID = uuid_Nil, CreatedAt = 0, UpdatedAt = 0, ReferenceCode = ref,
       Type = TransactionTypeTopUp, Status = TransactionStatusCompleted,
       SourceWalletID = Some (ID systemWallet), DestinationWalletID = Some (ID destinationWallet),
       AmountMinor = amount, Currency = CurrencyTHB,
       IdempotencyKey = optionalString idempotencyKey, RelatedTransactionID = None,
       MetadataJSON = toJSONMap (tu_Metadata request)\<rparr>)) (\<lambda>t.
    bindE (onErr internal (WalletRepository_Update E (add_balance (- amount) systemWallet))) (\<lambda>systemWallet.
    bindE (onErr internal (WalletRepository_Update E (add_balance amount destinationWallet))) (\<lambda>destinationWallet.
    bindE (onErr internal (TransactionRepository_CreateLedgerEntries E
      [new_entry (ID t) (ID systemWallet) LedgerEntryTypeDebit amount,
       new_entry (ID t) (ID destinationWallet) LedgerEntryTypeCredit amount])) (\<lambda>_.
    bindE (onErr internal (NewOutboxEvent (RT E) ''transaction.completed'' t)) (\<lambda>outboxEvent.
    bindE (onErr internal (OutboxRepository_Create E outboxEvent)) (\<lambda>_.
    let response = TransactionFromModel t; touched = [systemWallet, destinationWallet] in
    bindE (saveResponse E record response (ID t)) (\<lambda>_.
    returnE (response, touched))))))))))))))"

definition TopUp ::
  "'h transaction_service \<Rightarrow> top_up_request \<Rightarrow> string \<Rightarrow> ('h, transaction_response \<times> int) go" where
  "TopUp S request idempotencyKey = (let E = ts_env S in
    bindE (onErr internal (liftR (hashRequest (RT E) (top_up_to_json (RT E) request)))) (\<lambda>requestHash.
    bindE (getIdempotencyReplay E idempotencyKey topUpEndpoint requestHash) (\<lambda>(replayed, statusCode, _).
    if statusCode \<noteq> 0 then returnE (replayed, statusCode)
    else bindE (withTransaction E (TopUp_tx S request idempotencyKey requestHash)) (\<lambda>(response, touched).
      bindE (touchedWallets (ts_cacheStore S) touched) (\<lambda>_.
      returnE (response, 201))))))"

section \<open>Transfer\<close>

definition Transfer_tx ::
  "'h transaction_service \<Rightarrow> transfer_request \<Rightarrow> string \<Rightarrow> string \<Rightarrow> ('h, tx_result) go" where
  "Transfer_tx S request idempotencyKey requestHash = (let E = ts_env S; amount = tr_AmountMinor request in
    bindE (createIdempotencyRecord E idempotencyKey transferEndpoint requestHash (idempotencyTTL S)) (\<lambda>record.
    bindE (onErr internal (WalletRepository_GetByIDsForUpdate E
      [tr_SourceWalletID request, tr_DestinationWalletID request])) (\<lambda>ws.
    bindE (liftR (resolveTransferWallets ws (tr_SourceWalletID request) (tr_DestinationWalletID request)))
      (\<lambda>(sourceWallet, destinationWallet).
    bindE (failWhen (\<not> IsActive sourceWallet \<or> \<not> IsActive destinationWallet) (AppErr WalletNotActive)) (\<lambda>_.
    bindE (failWhen (sint (BalanceCachedMinor sourceWallet) < sint amount) (AppErr InsufficientFunds)) (\<lambda>_.
    bindE (liftS (newReferenceCode (RT E) ''TRF'')) (\<lambda>ref.
    bindE (onErr internal (TransactionRepository_Create E
      \<lparr>ID = uuid_Nil, CreatedAt = 0, UpdatedAt = 0, ReferenceCode = ref,
       Type = TransactionTypeTransfer, Status = TransactionStatusCompleted,
       SourceWalletID = Some (ID sourceWallet), DestinationWalletID = Some (ID destinationWallet),
       AmountMinor = amount, Currency = CurrencyTHB,
       IdempotencyKey = optionalString idempotencyKey, RelatedTransactionID = None,
       MetadataJSON = toJSONMap (tr_Metadata request)\<rparr>)) (\<lambda>t.
    bindE (onErr internal (WalletRepository_Update E (add_balance (- amount) sourceWallet))) (\<lambda>sourceWallet.
    bindE (onErr internal (WalletRepository_Update E (add_balance amount destinationWallet))) (\<lambda>destinationWallet.
    bindE (onErr internal (TransactionRepository_CreateLedgerEntries E
      [new_entry (ID t) (ID sourceWallet) LedgerEntryTypeDebit amount,
       new_entry (ID t) (ID destinationWallet) LedgerEntryTypeCredit amount])) (\<lambda>_.
    bindE (onErr internal (NewOutboxEvent (RT E) ''transaction.completed'' t)) (\<lambda>outboxEvent.
    bindE (onErr internal (OutboxRepository_Create E outboxEvent)) (\<lambda>_.
    let response = TransactionFromModel t; touched = [sourceWallet, destinationWallet] in
    bindE (saveResponse E record response (ID t)) (\<lambda>_.
    returnE (response, touched)))))))))))))))"

definition Transfer ::
  "'h transaction_service \<Rightarrow> transfer_request \<Rightarrow> string \<Rightarrow> ('h, transaction_response \<times> int) go" where
  "Transfer S request idempotencyKey = (let E = ts_env S in
    if tr_SourceWalletID request = tr_DestinationWalletID request then throwE invalid
    else bindE (onErr internal (liftR (hashRequest (RT E) (transfer_to_json (RT E) request)))) (\<lambda>requestHash.
    bindE (getIdempotencyReplay E idempotencyKey transferEndpoint requestHash) (\<lambda>(replayed, statusCode, _).
    if statusCode \<noteq> 0 then returnE (replayed, statusCode)
    else bindE (withTransaction E (Transfer_tx S request idempotencyKey requestHash)) (\<lambda>(response, touched).
      bindE (touchedWallets (ts_cacheStore S) touched) (\<lambda>_.
      returnE (response, 201))))))"

section \<open>Reverse\<close>

definition Reverse_tx ::
  "'h transaction_service \<Rightarrow> uuid \<Rightarrow> string \<Rightarrow> string \<Rightarrow> ('h, tx_result) go" where
  "Reverse_tx S transactionID idempotencyKey requestHash = (let E = ts_env S in
    bindE (createIdempotencyRecord E idempotencyKey reverseEndpoint requestHash (idempotencyTTL S)) (\<lambda>record.
    tryE (TransactionRepository_GetByIDForUpdate E transactionID)
      (\<lambda>err. if IsNotFound err then throwE not_found else throwE (internal err)) (\<lambda>original.
    bindE (failWhen (Status original = TransactionStatusReversed) (AppErr AlreadyReversed)) (\<lambda>_.
    bindE (failWhen (Type original \<noteq> TransactionTypeTopUp \<and> Type original \<noteq> TransactionTypeTransfer)
      invalid) (\<lambda>_.
    case (SourceWalletID original, DestinationWalletID original) of
      (Some sourceID, Some destinationID) \<Rightarrow>
    bindE (onErr internal (WalletRepository_GetByIDsForUpdate E [sourceID, destinationID])) (\<lambda>ws.
    bindE (liftR (resolveTransferWallets ws sourceID destinationID)) (\<lambda>(sourceWallet, destinationWallet).
    bindE (failWhen (sint (BalanceCachedMinor destinationWallet) < sint (AmountMinor original))
      (AppErr InsufficientFunds)) (\<lambda>_.
    bindE (liftS (newReferenceCode (RT E) ''REV'')) (\<lambda>ref.
    bindE (onErr internal (TransactionRepository_Create E
      \<lparr>ID = uuid_Nil, CreatedAt = 0, UpdatedAt = 0, ReferenceCode = ref,
       Type = TransactionTypeReversal, Status = TransactionStatusCompleted,
       SourceWalletID = Some (ID destinationWallet), DestinationWalletID = Some (ID sourceWallet),
       AmountMinor = AmountMinor original, Currency = Currency original,
       IdempotencyKey = optionalString idempotencyKey, RelatedTransactionID = Some (ID original),
       MetadataJSON = MetadataJSON original\<rparr>)) (\<lambda>reversal.
    let destinationWallet = add_balance (- AmountMinor original) destinationWallet;
        sourceWallet = add_balance (AmountMinor original) sourceWallet in
    bindE (onErr internal (WalletRepository_Update E sourceWallet)) (\<lambda>sourceWallet.
    bindE (onErr internal (WalletRepository_Update E destinationWallet)) (\<lambda>destinationWallet.
    bindE (onErr internal (TransactionRepository_CreateLedgerEntries E
      [new_entry (ID reversal) (ID destinationWallet) LedgerEntryTypeDebit (AmountMinor original),
       new_entry (ID reversal) (ID sourceWallet) LedgerEntryTypeCredit (AmountMinor original)])) (\<lambda>_.
    bindE (onErr internal (TransactionRepository_Update E
      (original\<lparr>Status := TransactionStatusReversed\<rparr>))) (\<lambda>_.
    bindE (onErr internal (NewOutboxEvent (RT E) ''transaction.reversed'' reversal)) (\<lambda>outboxEvent.
    bindE (onErr internal (OutboxRepository_Create E outboxEvent)) (\<lambda>_.
    let response = TransactionFromModel reversal; touched = [sourceWallet, destinationWallet] in
    bindE (saveResponse E record response (ID reversal)) (\<lambda>_.
    returnE (response, touched)))))))))))))
    | _ \<Rightarrow> throwE invalid)))))"

definition Reverse ::
  "'h transaction_service \<Rightarrow> uuid \<Rightarrow> string \<Rightarrow> ('h, transaction_response \<times> int) go" where
  "Reverse S transactionID idempotencyKey = (let E = ts_env S in
    bindE (onErr internal (liftR (hashRequest (RT E) (reverse_to_json (RT E) transactionID)))) (\<lambda>requestHash.
    bindE (getIdempotencyReplay E idempotencyKey reverseEndpoint requestHash) (\<lambda>(replayed, statusCode, _).
    if statusCode \<noteq> 0 then returnE (replayed, statusCode)
    else bindE (withTransaction E (Reverse_tx S transactionID idempotencyKey requestHash)) (\<lambda>(response, touched).
      bindE (touchedWallets (ts_cacheStore S) touched) (\<lambda>_.
      returnE (response, 201))))))"

section \<open>Get and List\<close>

definition TransactionService_Get ::
  "'h transaction_service \<Rightarrow> uuid \<Rightarrow> ('h, transaction_response) go" where
  "TransactionService_Get S i =
    tryE (TransactionRepository_GetByID (ts_env S) i)
      (\<lambda>err. if IsNotFound err then throwE not_found else throwE (internal err))
      (\<lambda>t. returnE (TransactionFromModel t))"

definition TransactionService_List ::
  "'h transaction_service \<Rightarrow> int64 \<Rightarrow> int64 \<Rightarrow> transaction_filters \<Rightarrow>
    ('h, transaction_response page_response) go" where
  "TransactionService_List S page limit filters =
    (let (page, limit) = normalizePage page limit (ts_pagination S) in
     bindE (onErr internal (TransactionRepository_List (ts_env S) page limit filters)) (\<lambda>(ts, n).
     returnE (responseList (map TransactionFromModel ts) page limit n)))"

end
