(* ===== verification/Ledger.thy ===== *)
theory Ledger
  imports Helpers
begin

text \<open>
  The abstract view of the database: the balance sheet and its one operation \<open>move\<close>, the ledger,
  and the invariants of the whole system. The predicate \<open>posting\<close> says what a committed money
  operation does to the tables; the lemmas show that a posting implements \<open>move\<close> and keeps every
  invariant. Nothing here refers to the services.
\<close>

section \<open>Uniqueness\<close>

definition uniq :: "('r \<Rightarrow> 'r \<Rightarrow> bool) \<Rightarrow> 'r list \<Rightarrow> bool" where
  "uniq clash rows \<longleftrightarrow> sorted_wrt (\<lambda>a b. \<not> clash b a) rows"

lemma uniq_Nil [simp]: "uniq clash []"
  by (simp add: uniq_def)

lemma uniq_snoc [simp]: "uniq clash (xs @ [r]) \<longleftrightarrow> uniq clash xs \<and> (\<forall>x\<in>set xs. \<not> clash r x)"
  by (auto simp: uniq_def sorted_wrt_append)

lemma uniq_nth: "uniq clash xs \<longleftrightarrow> (\<forall>j<length xs. \<forall>i<j. \<not> clash (xs ! j) (xs ! i))"
  by (auto simp: uniq_def sorted_wrt_iff_nth_less)

lemma uniq_distinct:
  "uniq clash xs \<Longrightarrow> (\<And>a b. k a = k b \<Longrightarrow> clash a b) \<Longrightarrow> distinct (map k xs)"
  unfolding uniq_def by (induction xs) (simp, fastforce)

text \<open>Rows rewritten one by one stay unique when the rewriting makes no new clash.\<close>

lemma uniq_list_all2:
  assumes "uniq clash xs" "list_all2 P xs ys"
    and "\<And>x x' y y'. P x x' \<Longrightarrow> P y y' \<Longrightarrow> clash y' x' \<Longrightarrow> clash y x"
  shows "uniq clash ys"
  unfolding uniq_nth
proof (intro allI impI)
  fix i j assume "j < length ys" "i < j"
  with assms(2) have "P (xs ! i) (ys ! i)" "P (xs ! j) (ys ! j)" "j < length xs"
    by (auto simp: list_all2_conv_all_nth)
  with assms(1,3) \<open>i < j\<close> show "\<not> clash (ys ! j) (ys ! i)" unfolding uniq_nth by blast
qed

lemma list_all2_map_self: "(\<And>x. x \<in> set xs \<Longrightarrow> P x (f x)) \<Longrightarrow> list_all2 P xs (map f xs)"
  unfolding list_all2_map2 by (rule list.rel_refl_strong)

lemma list_all2_replace_row:
  "(\<And>x. x \<in> set xs \<Longrightarrow> p x \<Longrightarrow> P x r) \<Longrightarrow> (\<And>x. x \<in> set xs \<Longrightarrow> \<not> p x \<Longrightarrow> P x x) \<Longrightarrow>
    list_all2 P xs (replace_row p r xs)"
  unfolding replace_row_def by (rule list_all2_map_self) simp

lemma list_all2_in2: "list_all2 P xs ys \<Longrightarrow> y \<in> set ys \<Longrightarrow> \<exists>x\<in>set xs. P x y"
  by (induction rule: list_all2_induct) auto

text \<open>Replacing a row by one that clashes with no other row.\<close>

lemma uniq_replace_row:
  assumes "uniq clash xs" and sym: "\<And>a b. clash a b \<Longrightarrow> clash b a"
    and one: "\<And>x y. x \<in> set xs \<Longrightarrow> y \<in> set xs \<Longrightarrow> p x \<Longrightarrow> p y \<Longrightarrow> clash x y"
    and new: "\<And>x. x \<in> set xs \<Longrightarrow> \<not> p x \<Longrightarrow> \<not> clash r x"
  shows "uniq clash (replace_row p r xs)"
  unfolding uniq_nth
proof (intro allI impI)
  fix i j assume "j < length (replace_row p r xs)" "i < j"
  then have l: "i < length xs" "j < length xs" "i < j" by simp_all
  then have n: "\<not> clash (xs ! j) (xs ! i)" using assms(1) by (auto simp: uniq_nth)
  from l n one[of "xs ! j" "xs ! i"] have "\<not> (p (xs ! j) \<and> p (xs ! i))" by auto
  with l n new[of "xs ! i"] new[of "xs ! j"] sym
  show "\<not> clash (replace_row p r xs ! j) (replace_row p r xs ! i)"
    by (auto simp: replace_row_def)
qed

definition wf_db :: "db \<Rightarrow> bool" where
  "wf_db d \<longleftrightarrow> uniq user_clash (users d) \<and> uniq wallet_clash (wallets d) \<and>
    uniq transaction_clash (transactions d) \<and> uniq ledger_entry_clash (ledger_entries d) \<and>
    uniq idempotency_key_clash (idempotency_keys d) \<and> uniq outbox_event_clash (outbox_events d)"

lemma clash_sym:
  "user_clash a b \<Longrightarrow> user_clash b a" "wallet_clash c e \<Longrightarrow> wallet_clash e c"
  unfolding clash_defs by metis+

lemma wf_db_distinct:
  assumes "wf_db d"
  shows "distinct (map ID (users d))" "distinct (map ID (wallets d))"
    "distinct (map ID (transactions d))" "distinct (map ID (outbox_events d))"
    "distinct (map idem_ID (idempotency_keys d))" "distinct (map UserID (wallets d))"
proof -
  note u = assms [unfolded wf_db_def]
  show "distinct (map ID (users d))" by (rule uniq_distinct [OF conjunct1 [OF u]]) (simp add: clash_defs)
  show "distinct (map ID (wallets d))" by (rule uniq_distinct [of wallet_clash]) (use u in \<open>auto simp: clash_defs\<close>)
  show "distinct (map ID (transactions d))"
    by (rule uniq_distinct [of transaction_clash]) (use u in \<open>auto simp: clash_defs\<close>)
  show "distinct (map ID (outbox_events d))"
    by (rule uniq_distinct [of outbox_event_clash]) (use u in \<open>auto simp: clash_defs\<close>)
  show "distinct (map idem_ID (idempotency_keys d))"
    by (rule uniq_distinct [of idempotency_key_clash]) (use u in \<open>auto simp: clash_defs\<close>)
  show "distinct (map UserID (wallets d))"
    by (rule uniq_distinct [of wallet_clash]) (use u in \<open>auto simp: clash_defs\<close>)
qed

section \<open>The balance sheet\<close>

type_synonym sheet = "uuid \<rightharpoonup> int64"

definition balances :: "db \<Rightarrow> sheet" where
  "balances d = map_of (map (\<lambda>wl. (ID wl, BalanceCachedMinor wl)) (wallets d))"

definition move :: "uuid \<Rightarrow> uuid \<Rightarrow> int64 \<Rightarrow> sheet \<Rightarrow> sheet" where
  "move a b n m = (case (m a, m b) of (Some x, Some y) \<Rightarrow> m(a \<mapsto> x - n, b \<mapsto> y + n) | _ \<Rightarrow> m)"

definition total_balance :: "db \<Rightarrow> int64" where
  "total_balance d = sum_list (map BalanceCachedMinor (wallets d))"

definition wallet_moved :: "uuid \<Rightarrow> uuid \<Rightarrow> int64 \<Rightarrow> wallet \<Rightarrow> wallet \<Rightarrow> bool" where
  "wallet_moved a b n x x' \<longleftrightarrow> (\<exists>t. x' = x\<lparr>BalanceCachedMinor :=
     (if ID x = a then BalanceCachedMinor x - n
      else if ID x = b then BalanceCachedMinor x + n else BalanceCachedMinor x), UpdatedAt := t\<rparr>)"

lemma balances_row:
  "distinct (map ID (wallets d)) \<Longrightarrow> x \<in> set (wallets d) \<Longrightarrow> balances d (ID x) = Some (BalanceCachedMinor x)"
  unfolding balances_def by (rule map_of_row)

lemma balances_None: "i \<notin> ID ` set (wallets d) \<Longrightarrow> balances d i = None"
  unfolding balances_def map_of_eq_None_iff by auto

lemma balances_Some: "i \<in> ID ` set (wallets d) \<Longrightarrow> \<exists>x. balances d i = Some x"
  by (cases "balances d i") (auto simp: balances_def map_of_eq_None_iff image_image)

lemma wallet_moved_keys:
  assumes "list_all2 (wallet_moved a b n) xs ys"
  shows "map ID ys = map ID xs" "map UserID ys = map UserID xs"
    "map wallet_Status ys = map wallet_Status xs" "map wallet_DeletedAt ys = map wallet_DeletedAt xs"
  using assms by (induction rule: list_all2_induct) (auto simp: wallet_moved_def)

text \<open>Moved rows refine \<open>move\<close>.\<close>

lemma map_of_moved:
  assumes "list_all2 (wallet_moved a b n) xs ys" "a \<noteq> b"
  shows "map_of (map (\<lambda>wl. (ID wl, BalanceCachedMinor wl)) ys) i =
    (case map_of (map (\<lambda>wl. (ID wl, BalanceCachedMinor wl)) xs) i of None \<Rightarrow> None
     | Some x \<Rightarrow> Some (if i = a then x - n else if i = b then x + n else x))"
  using assms by (induction rule: list_all2_induct) (auto simp: wallet_moved_def)

lemma balances_moved:
  assumes "list_all2 (wallet_moved a b n) (wallets d) (wallets d')" "a \<noteq> b"
    and "a \<in> ID ` set (wallets d)" "b \<in> ID ` set (wallets d)"
  shows "balances d' = move a b n (balances d)"
proof
  fix i
  from assms(3,4) obtain x y where "balances d a = Some x" "balances d b = Some y"
    by (meson balances_Some)
  then show "balances d' i = move a b n (balances d) i"
    using map_of_moved [OF assms(1,2), of i] assms(2)
    by (auto simp: move_def balances_def split: option.splits)
qed

text \<open>What one wallet loses the other gains: the total stays, also when a balance wraps.\<close>

lemma sum_moved:
  assumes "list_all2 (wallet_moved a b n) xs ys" "a \<noteq> b" "distinct (map ID xs)"
  shows "sum_list (map BalanceCachedMinor ys) = sum_list (map BalanceCachedMinor xs)
    - (if a \<in> ID ` set xs then n else 0) + (if b \<in> ID ` set xs then n else 0)"
  using assms
proof (induction rule: list_all2_induct)
  case Nil
  then show ?case by simp
next
  case (Cons x xs y ys)
  then have "ID x \<notin> ID ` set xs" by simp
  with Cons show ?case by (auto simp: wallet_moved_def)
qed

lemma total_moved:
  assumes "list_all2 (wallet_moved a b n) (wallets d) (wallets d')" "a \<noteq> b" "wf_db d"
    and "a \<in> ID ` set (wallets d)" "b \<in> ID ` set (wallets d)"
  shows "total_balance d' = total_balance d"
  using sum_moved [OF assms(1,2) wf_db_distinct(2) [OF assms(3)]] assms(4,5) by (simp add: total_balance_def)

section \<open>The ledger\<close>

definition entry_delta :: "ledger_entry \<Rightarrow> uuid \<Rightarrow> int64" where
  "entry_delta e i = (if WalletID e \<noteq> i then 0
     else if EntryType e = LedgerEntryTypeCredit then entry_AmountMinor e
     else if EntryType e = LedgerEntryTypeDebit then - entry_AmountMinor e else 0)"

definition ledger_balance :: "ledger_entry list \<Rightarrow> uuid \<Rightarrow> int64" where
  "ledger_balance es i = sum_list (map (\<lambda>e. entry_delta e i) es)"

definition is_entry :: "ledger_entry \<Rightarrow> transaction \<Rightarrow> uuid \<Rightarrow> string \<Rightarrow> bool" where
  "is_entry e t i ty \<longleftrightarrow> TransactionID e = ID t \<and> WalletID e = i \<and> EntryType e = ty \<and>
     entry_AmountMinor e = AmountMinor t"

section \<open>Invariants\<close>

text \<open>The balance of a wallet is what its ledger entries add up to; entries name existing wallets.\<close>

definition ledger_ok :: "db \<Rightarrow> bool" where
  "ledger_ok d \<longleftrightarrow>
    (\<forall>x\<in>set (wallets d). BalanceCachedMinor x = ledger_balance (ledger_entries d) (ID x)) \<and>
    (\<forall>e\<in>set (ledger_entries d). WalletID e \<in> ID ` set (wallets d))"

text \<open>A transaction has two entries: a debit of its source and a credit of its destination.\<close>

definition entries_of :: "transaction \<Rightarrow> ledger_entry list \<Rightarrow> bool" where
  "entries_of t es \<longleftrightarrow> (case (SourceWalletID t, DestinationWalletID t, es) of
     (Some a, Some b, [e1, e2]) \<Rightarrow> a \<noteq> b \<and> is_entry e1 t a LedgerEntryTypeDebit \<and>
       is_entry e2 t b LedgerEntryTypeCredit
   | _ \<Rightarrow> False)"

definition double_entry :: "db \<Rightarrow> bool" where
  "double_entry d \<longleftrightarrow>
    (\<forall>t\<in>set (transactions d). entries_of t (filter (\<lambda>e. TransactionID e = ID t) (ledger_entries d))) \<and>
    (\<forall>e\<in>set (ledger_entries d). TransactionID e \<in> ID ` set (transactions d))"

text \<open>
  A reversed transaction has one reversal and any other has none; a reversal is complete, undoes a
  transaction that is marked reversed and is no reversal itself, and moves its amount back.
\<close>

definition reversal_of :: "transaction \<Rightarrow> transaction \<Rightarrow> bool" where
  "reversal_of r t \<longleftrightarrow> RelatedTransactionID r = Some (ID t) \<and> Status t = TransactionStatusReversed \<and>
    Type t \<noteq> TransactionTypeReversal \<and> SourceWalletID r = DestinationWalletID t \<and>
    DestinationWalletID r = SourceWalletID t \<and> AmountMinor r = AmountMinor t \<and> Currency r = Currency t"

definition reversals_ok :: "db \<Rightarrow> bool" where
  "reversals_ok d \<longleftrightarrow> (\<forall>t\<in>set (transactions d).
    length (filter (\<lambda>r. RelatedTransactionID r = Some (ID t)) (transactions d)) =
      (if Status t = TransactionStatusReversed then 1 else 0) \<and>
    (if Type t = TransactionTypeReversal
     then Status t = TransactionStatusCompleted \<and> (\<exists>orig\<in>set (transactions d). reversal_of t orig)
     else RelatedTransactionID t = None))"

text \<open>There is one event for each transaction, in the same order, and its payload decodes to it.\<close>

definition event_type_of :: "transaction \<Rightarrow> string" where
  "event_type_of t = (if Type t = TransactionTypeReversal then ''transaction.reversed''
     else ''transaction.completed'')"

definition event_of :: "'h runtime \<Rightarrow> outbox_event \<Rightarrow> transaction \<Rightarrow> bool" where
  "event_of R e t \<longleftrightarrow> AggregateID e = ID t \<and> EventType e = event_type_of t \<and>
    (\<exists>eid. ParsePayload R (PayloadJSON e) = Inr (event_payload eid (event_type_of t) t))"

definition outbox_ok :: "'h runtime \<Rightarrow> db \<Rightarrow> bool" where
  "outbox_ok R d \<longleftrightarrow> list_all2 (event_of R) (outbox_events d) (transactions d)"

text \<open>
  A committed idempotency record holds the response of a transaction that carries its key, and a
  transaction that carries a key has exactly one record.
\<close>

definition endpoint_of :: "transaction \<Rightarrow> string" where
  "endpoint_of t = (if Type t = TransactionTypeTopUp then ''POST:/api/v1/transactions/topup''
     else if Type t = TransactionTypeTransfer then ''POST:/api/v1/transactions/transfer''
     else ''POST:/api/v1/transactions/reverse'')"

definition response_of :: "transaction \<Rightarrow> transaction_response \<Rightarrow> bool" where
  "response_of t resp \<longleftrightarrow> (\<exists>ua. resp = (TransactionFromModel t)
     \<lparr>resp_Status := TransactionStatusCompleted, resp_UpdatedAt := ua\<rparr>)"

definition record_of :: "'h runtime \<Rightarrow> idempotency_key \<Rightarrow> transaction \<Rightarrow> bool" where
  "record_of R k t \<longleftrightarrow> idem_Key k \<noteq> [] \<and> IdempotencyKey t = Some (idem_Key k) \<and>
    idem_Endpoint k = endpoint_of t \<and> ResourceID k = Some (ID t) \<and> ResponseStatusCode k = Some 201 \<and>
    (\<exists>resp. ResponseBodyJSON k = Some (response_to_json R resp) \<and>
       response_of_json R (response_to_json R resp) = Inr resp \<and> response_of t resp)"

definition idempotency_ok :: "'h runtime \<Rightarrow> db \<Rightarrow> bool" where
  "idempotency_ok R d \<longleftrightarrow>
    (\<forall>k\<in>set (idempotency_keys d). \<exists>t\<in>set (transactions d). record_of R k t) \<and>
    (\<forall>t\<in>set (transactions d). IdempotencyKey t \<noteq> None \<longrightarrow>
       (\<exists>k\<in>set (idempotency_keys d). record_of R k t))"

definition transactions_ok :: "db \<Rightarrow> bool" where
  "transactions_ok d \<longleftrightarrow> (\<forall>t\<in>set (transactions d). ID t \<noteq> uuid_Nil \<and> MetadataJSON t \<noteq> Some [] \<and>
    Currency t \<noteq> [] \<and> Type t \<in> {TransactionTypeTopUp, TransactionTypeTransfer, TransactionTypeReversal} \<and>
    Status t \<in> {TransactionStatusCompleted, TransactionStatusReversed})"

definition inv_db :: "'h runtime \<Rightarrow> db \<Rightarrow> bool" where
  "inv_db R d \<longleftrightarrow> wf_db d \<and> ledger_ok d \<and> total_balance d = 0 \<and> transactions_ok d \<and> double_entry d \<and>
    reversals_ok d \<and> outbox_ok R d \<and> idempotency_ok R d"

section \<open>Postings\<close>

text \<open>
  What the database transaction of an operation does: \<open>t\<close> is the new transaction, \<open>marked\<close> the
  ID of the transaction it reverses.
\<close>

definition mark_reversed :: "time \<Rightarrow> uuid option \<Rightarrow> transaction \<Rightarrow> transaction" where
  "mark_reversed at marked x = (if Some (ID x) = marked
     then touch at (x\<lparr>Status := TransactionStatusReversed\<rparr>) else x)"

definition idem_record :: "'h runtime \<Rightarrow> transaction \<Rightarrow> string \<Rightarrow> string \<Rightarrow> idempotency_key \<Rightarrow> bool" where
  "idem_record R t key hash k \<longleftrightarrow> idem_Key k = key \<and> idem_Endpoint k = endpoint_of t \<and>
    RequestHash k = hash \<and> ResourceID k = Some (ID t) \<and> ResponseStatusCode k = Some 201 \<and>
    ResponseBodyJSON k = Some (response_to_json R (TransactionFromModel t))"

definition posting :: "'h runtime \<Rightarrow> db \<Rightarrow> string \<Rightarrow> string \<Rightarrow> transaction \<Rightarrow> db \<Rightarrow> bool" where
  "posting R d key hash t d' \<longleftrightarrow>
    (\<exists>a b at e1 e2 ev eid ks. SourceWalletID t = Some a \<and> DestinationWalletID t = Some b \<and> a \<noteq> b \<and>
      a \<in> ID ` set (wallets d) \<and> b \<in> ID ` set (wallets d) \<and>
      users d' = users d \<and>
      list_all2 (wallet_moved a b (AmountMinor t)) (wallets d) (wallets d') \<and>
      (\<forall>x\<in>set (transactions d). \<not> transaction_clash t x) \<and>
      transactions d' = map (mark_reversed at (RelatedTransactionID t)) (transactions d) @ [t] \<and>
      is_entry e1 t a LedgerEntryTypeDebit \<and> is_entry e2 t b LedgerEntryTypeCredit \<and>
      (\<forall>x\<in>set (ledger_entries d). entry_ID e1 \<noteq> entry_ID x \<and> entry_ID e2 \<noteq> entry_ID x) \<and>
      entry_ID e1 \<noteq> entry_ID e2 \<and> ledger_entries d' = ledger_entries d @ [e1, e2] \<and>
      AggregateID ev = ID t \<and> EventType ev = event_type_of t \<and>
      PayloadJSON ev = payload_to_json R (event_payload eid (event_type_of t) t) \<and>
      outbox_Status ev = OutboxStatusPending \<and> PublishedAt ev = None \<and>
      (\<forall>x\<in>set (outbox_events d). \<not> outbox_event_clash ev x) \<and>
      outbox_events d' = outbox_events d @ [ev] \<and>
      IdempotencyKey t = optionalString key \<and>
      (if key = [] then ks = [] else \<exists>k. ks = [k] \<and> idem_record R t key hash k \<and>
        (\<forall>x\<in>set (idempotency_keys d). \<not> idempotency_key_clash k x)) \<and>
      idempotency_keys d' = idempotency_keys d @ ks)"

text \<open>What makes a transaction the record of a top-up, a transfer or a reversal.\<close>

definition proper :: "db \<Rightarrow> transaction \<Rightarrow> bool" where
  "proper d t \<longleftrightarrow> ID t \<noteq> uuid_Nil \<and> MetadataJSON t \<noteq> Some [] \<and> Currency t \<noteq> [] \<and>
    Status t = TransactionStatusCompleted \<and>
    (Type t \<in> {TransactionTypeTopUp, TransactionTypeTransfer} \<and> RelatedTransactionID t = None \<or>
     Type t = TransactionTypeReversal \<and> (\<exists>orig\<in>set (transactions d).
       RelatedTransactionID t = Some (ID orig) \<and> Status orig = TransactionStatusCompleted \<and>
       Type orig \<noteq> TransactionTypeReversal \<and> SourceWalletID t = DestinationWalletID orig \<and>
       DestinationWalletID t = SourceWalletID orig \<and> AmountMinor t = AmountMinor orig \<and> Currency t = Currency orig))"

subsection \<open>Postings keep the invariants\<close>

lemma mark_reversed_fields [simp]:
  "ID (mark_reversed at m x) = ID x" "Type (mark_reversed at m x) = Type x"
  "ReferenceCode (mark_reversed at m x) = ReferenceCode x"
  "SourceWalletID (mark_reversed at m x) = SourceWalletID x"
  "DestinationWalletID (mark_reversed at m x) = DestinationWalletID x"
  "AmountMinor (mark_reversed at m x) = AmountMinor x" "Currency (mark_reversed at m x) = Currency x"
  "IdempotencyKey (mark_reversed at m x) = IdempotencyKey x"
  "RelatedTransactionID (mark_reversed at m x) = RelatedTransactionID x"
  "MetadataJSON (mark_reversed at m x) = MetadataJSON x" "CreatedAt (mark_reversed at m x) = CreatedAt x"
  "Status (mark_reversed at m x) = (if Some (ID x) = m then TransactionStatusReversed else Status x)"
  by (simp_all add: mark_reversed_def touch_def)

lemma mark_reversed_None [simp]: "mark_reversed at None = (\<lambda>x. x)"
  by (simp add: mark_reversed_def fun_eq_iff)

lemma status_neq [simp]:
  "TransactionStatusCompleted \<noteq> TransactionStatusReversed" "TransactionStatusReversed \<noteq> TransactionStatusCompleted"
  "TransactionTypeTopUp \<noteq> TransactionTypeReversal" "TransactionTypeTransfer \<noteq> TransactionTypeReversal"
  "TransactionTypeReversal \<noteq> TransactionTypeTopUp" "TransactionTypeReversal \<noteq> TransactionTypeTransfer"
  "TransactionTypeTopUp \<noteq> TransactionTypeTransfer" "TransactionTypeTransfer \<noteq> TransactionTypeTopUp"
  "LedgerEntryTypeDebit \<noteq> LedgerEntryTypeCredit" "LedgerEntryTypeCredit \<noteq> LedgerEntryTypeDebit"
  by (simp_all add: const_defs)

lemma entries_of_mark [simp]: "entries_of (mark_reversed at m x) es = entries_of x es"
  by (simp add: entries_of_def is_entry_def split: option.splits list.splits)

lemma event_of_mark [simp]: "event_of R e (mark_reversed at m x) = event_of R e x"
  by (simp add: event_of_def event_type_of_def event_payload_def)

lemma response_of_mark [simp]: "response_of (mark_reversed at m x) r = response_of x r"
  by (simp add: response_of_def TransactionFromModel_def)

lemma record_of_mark [simp]: "record_of R k (mark_reversed at m x) = record_of R k x"
  by (simp add: record_of_def endpoint_of_def)

lemma ledger_balance_append [simp]:
  "ledger_balance (es @ fs) i = ledger_balance es i + ledger_balance fs i"
  by (simp add: ledger_balance_def)

lemma uniq_moved: "uniq wallet_clash xs \<Longrightarrow> list_all2 (wallet_moved a b n) xs ys \<Longrightarrow> uniq wallet_clash ys"
  by (erule uniq_list_all2, assumption) (auto simp: wallet_moved_def wallet_clash_def)

lemma uniq_marked: "uniq transaction_clash xs \<Longrightarrow> uniq transaction_clash (map (mark_reversed at m) xs)"
  by (erule uniq_list_all2 [where P = "\<lambda>x y. y = mark_reversed at m x"])
    (auto simp: transaction_clash_def intro!: list_all2_map_self)

lemma posting_wf:
  assumes "posting R d key hash t d'" "wf_db d"
  shows "wf_db d'"
  using assms(1) unfolding posting_def
proof (elim exE conjE)
  fix a b at e1 e2 ev and eid :: uuid and ks :: "idempotency_key list"
  assume "users d' = users d" "list_all2 (wallet_moved a b (AmountMinor t)) (wallets d) (wallets d')"
    and t: "\<forall>x\<in>set (transactions d). \<not> transaction_clash t x"
      "transactions d' = map (mark_reversed at (RelatedTransactionID t)) (transactions d) @ [t]"
    and e: "\<forall>x\<in>set (ledger_entries d). entry_ID e1 \<noteq> entry_ID x \<and> entry_ID e2 \<noteq> entry_ID x"
      "entry_ID e1 \<noteq> entry_ID e2" "ledger_entries d' = ledger_entries d @ [e1, e2]"
    and ev: "\<forall>x\<in>set (outbox_events d). \<not> outbox_event_clash ev x"
      "outbox_events d' = outbox_events d @ [ev]"
    and k: "if key = [] then ks = [] else \<exists>k. ks = [k] \<and> idem_record R t key hash k \<and>
        (\<forall>x\<in>set (idempotency_keys d). \<not> idempotency_key_clash k x)"
      "idempotency_keys d' = idempotency_keys d @ ks"
  moreover from assms(2) have w: "uniq user_clash (users d)" "uniq wallet_clash (wallets d)"
    "uniq transaction_clash (transactions d)" "uniq ledger_entry_clash (ledger_entries d)"
    "uniq idempotency_key_clash (idempotency_keys d)" "uniq outbox_event_clash (outbox_events d)"
    by (simp_all add: wf_db_def)
  moreover have "uniq transaction_clash (transactions d')"
    unfolding t(2) using uniq_marked [OF w(3)] t(1) by (auto simp: transaction_clash_def)
  moreover have "uniq ledger_entry_clash ((ledger_entries d @ [e1]) @ [e2])"
    using w(4) e(1,2) by (auto simp: ledger_entry_clash_def simp del: append_assoc)
  moreover have "uniq idempotency_key_clash (idempotency_keys d')"
    using w(5) k by (auto split: if_splits)
  ultimately show "wf_db d'"
    by (simp add: wf_db_def uniq_moved)
qed

lemma posting_ledger:
  assumes "posting R d key hash t d'" "ledger_ok d"
  shows "ledger_ok d'"
  using assms(1) unfolding posting_def
proof (elim exE conjE)
  fix a b and e1 e2 :: ledger_entry
  assume ab: "a \<noteq> b" "a \<in> ID ` set (wallets d)" "b \<in> ID ` set (wallets d)"
    and m: "list_all2 (wallet_moved a b (AmountMinor t)) (wallets d) (wallets d')"
    and e: "is_entry e1 t a LedgerEntryTypeDebit" "is_entry e2 t b LedgerEntryTypeCredit"
      "ledger_entries d' = ledger_entries d @ [e1, e2]"
  have ids: "ID ` set (wallets d') = ID ` set (wallets d)"
    using arg_cong [OF wallet_moved_keys(1) [OF m], of set] by simp
  have "BalanceCachedMinor x' = ledger_balance (ledger_entries d') (ID x')" if "x' \<in> set (wallets d')" for x'
  proof -
    from list_all2_in2 [OF m that] obtain x where
      x: "x \<in> set (wallets d)" "wallet_moved a b (AmountMinor t) x x'" by blast
    with assms(2) have "BalanceCachedMinor x = ledger_balance (ledger_entries d) (ID x)"
      by (simp add: ledger_ok_def)
    with x(2) e ab(1) show ?thesis
      by (auto simp: wallet_moved_def ledger_balance_def entry_delta_def is_entry_def)
  qed
  with e ab assms(2) ids show "ledger_ok d'"
    unfolding ledger_ok_def by (auto simp: is_entry_def)
qed

lemma posting_total:
  assumes "posting R d key hash t d'" "wf_db d"
  shows "total_balance d' = total_balance d"
  using assms by (auto simp: posting_def intro: total_moved)

lemma posting_rows:
  assumes "posting R d key hash t d'"
  shows "\<exists>at. transactions d' = map (mark_reversed at (RelatedTransactionID t)) (transactions d) @ [t]"
    and "\<forall>x\<in>set (transactions d). \<not> transaction_clash t x"
  using assms by (auto simp: posting_def)

lemma posting_transactions:
  assumes "posting R d key hash t d'" "proper d t" "transactions_ok d"
  shows "transactions_ok d'"
proof -
  obtain at where t: "transactions d' = map (mark_reversed at (RelatedTransactionID t)) (transactions d) @ [t]"
    using posting_rows [OF assms(1)] by blast
  show ?thesis
    unfolding transactions_ok_def t using assms(2,3) by (auto simp: proper_def transactions_ok_def)
qed

text \<open>Transactions are found by their ID, and the ID of the new one is not among the old.\<close>

lemma posting_double_entry:
  assumes "posting R d key hash t d'" "double_entry d"
  shows "double_entry d'"
  using assms(1) unfolding posting_def
proof (elim exE conjE)
  fix a b at and e1 e2 :: ledger_entry
  assume ab: "SourceWalletID t = Some a" "DestinationWalletID t = Some b" "a \<noteq> b"
    and t: "\<forall>x\<in>set (transactions d). \<not> transaction_clash t x"
      "transactions d' = map (mark_reversed at (RelatedTransactionID t)) (transactions d) @ [t]"
    and e: "is_entry e1 t a LedgerEntryTypeDebit" "is_entry e2 t b LedgerEntryTypeCredit"
      "ledger_entries d' = ledger_entries d @ [e1, e2]"
  have new: "ID x \<noteq> ID t" if "x \<in> set (transactions d)" for x
    using t(1) that by (auto simp: transaction_clash_def)
  have old: "entries_of x (filter (\<lambda>e. TransactionID e = ID x) (ledger_entries d'))"
    if "x \<in> set (transactions d)" for x
    using assms(2) that e new [OF that] by (auto simp: double_entry_def is_entry_def)
  have "filter (\<lambda>e. TransactionID e = ID t) (ledger_entries d) = []"
    using assms(2) new by (fastforce simp: double_entry_def filter_empty_conv)
  then have "entries_of t (filter (\<lambda>e. TransactionID e = ID t) (ledger_entries d'))"
    using e ab by (simp add: entries_of_def is_entry_def)
  moreover have "ID ` set (transactions d') = insert (ID t) (ID ` set (transactions d))"
    by (simp add: t(2) image_image)
  then have "\<forall>x\<in>set (ledger_entries d'). TransactionID x \<in> ID ` set (transactions d')"
    using assms(2) e by (auto simp: double_entry_def is_entry_def)
  ultimately show "double_entry d'"
    unfolding double_entry_def t(2) using old by auto
qed

lemma posting_outbox:
  assumes "runtime_laws R" "posting R d key hash t d'" "outbox_ok R d"
  shows "outbox_ok R d'"
  using assms(2) unfolding posting_def
proof (elim exE conjE)
  fix at ev and eid :: uuid
  assume t: "transactions d' = map (mark_reversed at (RelatedTransactionID t)) (transactions d) @ [t]"
    and ev: "AggregateID ev = ID t" "EventType ev = event_type_of t"
      "PayloadJSON ev = payload_to_json R (event_payload eid (event_type_of t) t)"
      "outbox_events d' = outbox_events d @ [ev]"
  have "event_of R ev t"
    using ev runtime_laws.payload_roundtrip [OF assms(1)] by (auto simp: event_of_def)
  then show "outbox_ok R d'"
    using assms(3) unfolding outbox_ok_def t ev(4) by (simp add: list_all2_appendI list_all2_map2)
qed

text \<open>
  A reversal marks the one transaction it names, which had no reversal; a top-up or a transfer
  names none.
\<close>

lemma posting_reversals:
  assumes "posting R d key hash t d'" "proper d t" "reversals_ok d" "wf_db d"
  shows "reversals_ok d'"
proof -
  let ?m = "RelatedTransactionID t" and ?ts = "transactions d"
  obtain at where t: "transactions d' = map (mark_reversed at ?m) ?ts @ [t]"
    using posting_rows [OF assms(1)] by blast
  have new: "ID x \<noteq> ID t" if "x \<in> set ?ts" for x
    using posting_rows(2) [OF assms(1)] that by (auto simp: transaction_clash_def)
  have rel: "RelatedTransactionID x \<noteq> Some (ID t)" if x: "x \<in> set ?ts" for x
  proof (cases "Type x = TransactionTypeReversal")
    case True
    with assms(3) x obtain orig where "orig \<in> set ?ts" "reversal_of x orig"
      unfolding reversals_ok_def by (metis (full_types))
    with new show ?thesis by (auto simp: reversal_of_def)
  qed (use assms(3) x in \<open>auto simp: reversals_ok_def\<close>)
  have self: "?m \<noteq> Some (ID t)" using assms(2) new by (auto simp: proper_def)
  have marked: "Status x = TransactionStatusCompleted \<and> Type x \<noteq> TransactionTypeReversal"
    if "x \<in> set ?ts" "?m = Some (ID x)" for x
  proof -
    from assms(2) that obtain orig where "orig \<in> set ?ts" "ID orig = ID x"
      "Status orig = TransactionStatusCompleted" "Type orig \<noteq> TransactionTypeReversal"
      by (auto simp: proper_def)
    with distinct_key_eq [OF wf_db_distinct(3) [OF assms(4)]] that show ?thesis by metis
  qed
  have number: "length (filter (\<lambda>r. RelatedTransactionID r = Some (ID x)) (transactions d')) =
      (if Status (mark_reversed at ?m x) = TransactionStatusReversed then 1 else 0)" if x: "x \<in> set ?ts" for x
    using assms(3) x marked [OF x] by (auto simp: t reversals_ok_def comp_def)
  have "filter (\<lambda>r. RelatedTransactionID r = Some (ID t)) (transactions d') = []"
    using self rel by (auto simp: t filter_empty_conv)
  moreover have "\<exists>y\<in>set (transactions d'). reversal_of (mark_reversed at ?m x) y"
    if x: "x \<in> set ?ts" "Type x = TransactionTypeReversal" for x
  proof -
    from assms(3) x obtain orig where "orig \<in> set ?ts" "reversal_of x orig"
      unfolding reversals_ok_def by (metis (full_types))
    then show ?thesis
      by (intro bexI[of _ "mark_reversed at ?m orig"]) (auto simp: t reversal_of_def)
  qed
  moreover have "Type t = TransactionTypeReversal \<Longrightarrow> \<exists>y\<in>set (transactions d'). reversal_of t y"
  proof -
    assume "Type t = TransactionTypeReversal"
    with assms(2) obtain orig where "orig \<in> set ?ts" "?m = Some (ID orig)"
      "Type orig \<noteq> TransactionTypeReversal" "SourceWalletID t = DestinationWalletID orig"
      "DestinationWalletID t = SourceWalletID orig" "AmountMinor t = AmountMinor orig"
      "Currency t = Currency orig"
      by (auto simp: proper_def)
    then show ?thesis
      by (intro bexI[of _ "mark_reversed at ?m orig"]) (auto simp: t reversal_of_def)
  qed
  ultimately show ?thesis
    unfolding reversals_ok_def t set_append set_map ball_Un ball_simps
    using number marked assms(2,3) unfolding t by (auto simp: proper_def reversals_ok_def)
qed

lemma idem_record_of:
  assumes "runtime_laws R" "idem_record R t key hash k" "key \<noteq> []"
    "IdempotencyKey t = Some key" "Status t = TransactionStatusCompleted" "MetadataJSON t \<noteq> Some []"
  shows "record_of R k t"
proof -
  have "response_of_json R (response_to_json R (TransactionFromModel t)) = Inr (TransactionFromModel t)"
    using runtime_laws.response_json_roundtrip [OF assms(1)] assms(6)
    by (simp add: TransactionFromModel_def)
  moreover have "response_of t (TransactionFromModel t)"
    using assms(5) by (auto simp: response_of_def TransactionFromModel_def)
  ultimately show ?thesis
    using assms by (auto simp: record_of_def idem_record_def)
qed

lemma posting_idempotency:
  assumes "runtime_laws R" "posting R d key hash t d'" "proper d t" "idempotency_ok R d"
  shows "idempotency_ok R d'"
  using assms(2) unfolding posting_def
proof (elim exE conjE)
  fix at and ks :: "idempotency_key list"
  assume t: "transactions d' = map (mark_reversed at (RelatedTransactionID t)) (transactions d) @ [t]"
    and opt: "IdempotencyKey t = optionalString key"
    and k: "if key = [] then ks = [] else \<exists>k. ks = [k] \<and> idem_record R t key hash k \<and>
        (\<forall>x\<in>set (idempotency_keys d). \<not> idempotency_key_clash k x)"
      "idempotency_keys d' = idempotency_keys d @ ks"
  have new: "\<forall>k\<in>set ks. record_of R k t"
    using k(1) idem_record_of [OF assms(1)] opt assms(3)
    by (auto simp: optionalString_def proper_def split: if_splits)
  have "IdempotencyKey t \<noteq> None \<longrightarrow> ks \<noteq> []"
    using k(1) opt by (auto simp: optionalString_def split: if_splits)
  with new have "IdempotencyKey t \<noteq> None \<longrightarrow> (\<exists>k\<in>set ks. record_of R k t)"
    by (cases ks) auto
  with new assms(4) show "idempotency_ok R d'"
    unfolding idempotency_ok_def t k(2) by (auto simp: bex_Un)
qed

theorem posting_inv:
  assumes "runtime_laws R" "posting R d key hash t d'" "proper d t" "inv_db R d"
  shows "inv_db R d'"
  using assms posting_wf [OF assms(2)] posting_ledger [OF assms(2)] posting_total [OF assms(2)]
    posting_transactions [OF assms(2,3)] posting_double_entry [OF assms(2)]
    posting_reversals [OF assms(2,3)] posting_outbox [OF assms(1,2)] posting_idempotency [OF assms(1-3)]
  by (simp add: inv_db_def)

end
