(* ===== verification/Money.thy ===== *)
theory Money
  imports TransactionService Ledger
begin

text \<open>
  The bodies of the three money transactions refine the abstract posting of \<open>Ledger\<close>: a body that
  returns has made a proper posting, and a body that fails names a reason that holds. The outer
  functions then either commit such a posting, replay a stored response, or change nothing.
\<close>

section \<open>Outside the database\<close>

definition outside :: "'h world \<Rightarrow> (string \<rightharpoonup> string) \<times> (string \<times> stream_values) list" where
  "outside w = (kv w, streams w)"

lemma visible_split: "visible w = (d, k, s) \<longleftrightarrow> db w = d \<and> outside w = (k, s)"
  by (auto simp: visible_def outside_def)

lemma visible_iff: "visible w = visible v \<longleftrightarrow> db w = db v \<and> outside w = outside v"
  by (auto simp: visible_def outside_def)

lemma keeps_visible_outside: "keeps visible m \<Longrightarrow> keeps outside m"
  by (simp add: keeps_def visible_iff)

lemma keeps_outsideI:
  assumes "\<And>w e w'. m w = (Inl e, w') \<Longrightarrow> visible w' = visible w"
    and "\<And>w a w'. m w = (Inr a, w') \<Longrightarrow> \<exists>d. visible w' = (d, kv w, streams w)"
  shows "keeps outside m"
proof (rule keepsI)
  fix s r s' assume m: "m s = (r, s')"
  show "outside s' = outside s"
  proof (cases r)
    case (Inl e)
    with m assms(1) show ?thesis by (simp add: visible_iff)
  next
    case (Inr a)
    with m assms(2) show ?thesis by (fastforce simp: visible_split outside_def)
  qed
qed

context env_laws
begin

lemmas keeps_outside_reads [keeps_intros] =
  keeps_New [THEN keeps_visible_outside] keeps_Now [THEN keeps_visible_outside]
  keeps_NewOutboxEvent [THEN keeps_visible_outside]
  keeps_newReferenceCode [THEN keeps_visible_outside]
  keeps_GetByIDsForUpdate [THEN keeps_visible_outside]
  keeps_Get [THEN keeps_visible_outside]

lemma keeps_writes [keeps_intros]:
  "keeps outside (TransactionRepository_Create E t)" "keeps outside (IdempotencyRepository_Create E k)"
  "keeps outside (OutboxRepository_Create E ev)"
  "keeps outside (TransactionRepository_CreateLedgerEntries E es)"
  "keeps outside (IdempotencyRepository_SaveResponse E i st body rid)"
proof -
  show "keeps outside (TransactionRepository_Create E t)"
    by (rule keeps_outsideI [OF Create_Inl(3)]) (use TransactionRepository_Create_Inr in blast)+
  show "keeps outside (IdempotencyRepository_Create E k)"
    by (rule keeps_outsideI [OF Create_Inl(4)]) (use IdempotencyRepository_Create_Inr in blast)+
  show "keeps outside (OutboxRepository_Create E ev)"
    by (rule keeps_outsideI [OF Create_Inl(5)]) (use OutboxRepository_Create_Inr in blast)+
  show "keeps outside (TransactionRepository_CreateLedgerEntries E es)"
  proof (cases "es = []")
    case True
    then show ?thesis by (simp add: TransactionRepository_CreateLedgerEntries_def keeps_returnE)
  next
    case False
    then show ?thesis
      by (intro keeps_outsideI [OF CreateLedgerEntries_Inl]) (use CreateLedgerEntries_Inr(4) in blast)+
  qed
  show "keeps outside (IdempotencyRepository_SaveResponse E i st body rid)"
    by (rule keeps_outsideI [OF IdempotencyRepository_SaveResponse_Inl])
      (use IdempotencyRepository_SaveResponse_Inr in blast)+
qed

end

section \<open>Resolution\<close>

lemma resolve_fold:
  "foldl (\<lambda>(s, t) wl. if ID wl = a then (Some wl, t) else if ID wl = b then (s, Some wl) else (s, t))
     (s0, t0) ws = (s, t) \<Longrightarrow>
    (s = s0 \<and> a \<notin> ID ` set ws \<or> (\<exists>x\<in>set ws. s = Some x \<and> ID x = a)) \<and>
    (t = t0 \<and> (a = b \<or> b \<notin> ID ` set ws) \<or> (\<exists>y\<in>set ws. t = Some y \<and> ID y = b \<and> a \<noteq> b))"
proof (induction ws arbitrary: s0 t0)
  case Nil
  then show ?case by simp
next
  case (Cons x ws)
  then show ?case by (fastforce split: if_splits)
qed

lemma resolve_Inr:
  assumes "resolveTransferWallets ws a b = Inr (x, y)"
  shows "x \<in> set ws \<and> ID x = a \<and> y \<in> set ws \<and> ID y = b \<and> a \<noteq> b"
  using assms resolve_fold [of a b None None ws]
  by (fastforce simp: resolveTransferWallets_def split: option.splits prod.splits)

lemma resolve_Inl:
  assumes "resolveTransferWallets ws a b = Inl e"
  shows "e = not_found \<and> (a = b \<or> a \<notin> ID ` set ws \<or> b \<notin> ID ` set ws)"
  using assms resolve_fold [of a b None None ws]
  by (fastforce simp: resolveTransferWallets_def split: option.splits prod.splits)

text \<open>On rows with distinct keys the loop is two look-ups.\<close>

lemma find_row:
  assumes "distinct (map ID ws)" "q = None \<and> a \<notin> ID ` set ws \<or> (\<exists>x\<in>set ws. q = Some x \<and> ID x = a)"
  shows "q = find (\<lambda>wl. ID wl = a) (ws :: wallet list)"
proof (cases "find (\<lambda>wl. ID wl = a) ws")
  case None
  then have "a \<notin> ID ` set ws" by (auto simp: find_None_iff)
  with assms(2) have "q = None" by auto
  with None show ?thesis by simp
next
  case (Some y)
  then have y: "y \<in> set ws" "ID y = a" by (auto simp: find_Some_iff)
  then have "a \<in> ID ` set ws" by blast
  with assms(2) obtain x where x: "x \<in> set ws" "q = Some x" "ID x = a" by blast
  with y distinct_key_eq [OF assms(1), of x y] Some show ?thesis by simp
qed

lemma resolve_find:
  assumes "distinct (map ID ws)" "a \<noteq> b"
  shows "resolveTransferWallets ws a b = (case (find (\<lambda>wl. ID wl = a) ws, find (\<lambda>wl. ID wl = b) ws) of
    (Some x, Some y) \<Rightarrow> Inr (x, y) | _ \<Rightarrow> Inl not_found)"
proof -
  obtain s t where f: "foldl (\<lambda>(s, t) wl. if ID wl = a then (Some wl, t) else if ID wl = b then (s, Some wl)
      else (s, t)) (None, None) ws = (s, t)" by fastforce
  from resolve_fold [OF f] assms(2) have "s = find (\<lambda>wl. ID wl = a) ws" "t = find (\<lambda>wl. ID wl = b) ws"
    by (auto intro!: find_row [OF assms(1)])
  with f show ?thesis by (simp add: resolveTransferWallets_def)
qed

lemma resolveTopUp_eq: "resolveTopUpWallets ws b = resolveTransferWallets ws SystemWalletID b"
  by (simp add: resolveTopUpWallets_def resolveTransferWallets_def)

section \<open>The steps of a body\<close>

definition row_add :: "uuid \<Rightarrow> int64 \<Rightarrow> wallet \<Rightarrow> wallet \<Rightarrow> bool" where
  "row_add i n x x' \<longleftrightarrow> (\<exists>t. x' = x\<lparr>BalanceCachedMinor :=
     (if ID x = i then BalanceCachedMinor x + n else BalanceCachedMinor x), UpdatedAt := t\<rparr>)"

context env_laws
begin

lemma locked_wallets:
  assumes "WalletRepository_GetByIDsForUpdate E ids w = (Inr ws, w')"
  shows "set ws = {x \<in> set (wallets (db w)). wallet_live x \<and> ID x \<in> set ids}" "db w' = db w"
proof -
  have "mset ws = mset (filter (\<lambda>x. wallet_live x \<and> ID x \<in> set ids) (wallets (db w)))"
    by (rule GetByIDsForUpdate_Inr [OF assms])
  then show "set ws = {x \<in> set (wallets (db w)). wallet_live x \<and> ID x \<in> set ids}"
    by (metis set_filter set_mset_mset)
  show "db w' = db w" by (rule visible_db [OF keepsD [OF keeps_GetByIDsForUpdate assms]])
qed

lemma update_one:
  assumes "WalletRepository_Update E (add_balance n x) w = (Inr x', w')"
    and "x \<in> set (wallets (db w))" "wallet_live x" "distinct (map ID (wallets (db w)))"
  shows "\<exists>t. x' = touch t (add_balance n x)"
    "\<exists>ws. db w' = (db w)\<lparr>wallets := ws\<rparr> \<and> list_all2 (row_add (ID x) n) (wallets (db w)) ws \<and>
      (\<forall>y\<in>set (wallets (db w)). ID y \<noteq> ID x \<longrightarrow> y \<in> set ws)"
proof -
  have f: "ID (add_balance n x) = ID x" "wallet_live (add_balance n x)"
    using assms(3) by (simp_all add: add_balance_def wallet_live_def)
  then have ex: "\<exists>y\<in>set (wallets (db w)). ID y = ID (add_balance n x) \<and> wallet_live y"
    using assms(2,3) by auto
  note u = WalletRepository_Update_Inr [OF assms(1) ex, unfolded f(1)]
  then show t: "\<exists>t. x' = touch t (add_balance n x)" by blast
  have "list_all2 (row_add (ID x) n) (wallets (db w))
    (replace_row (\<lambda>y. ID y = ID x \<and> wallet_live y) x' (wallets (db w)))"
  proof (rule list_all2_replace_row)
    fix y assume "y \<in> set (wallets (db w))" "ID y = ID x \<and> wallet_live y"
    with assms(2,4) have "y = x" by (blast intro: distinct_key_eq)
    with t show "row_add (ID x) n y x'" by (auto simp: row_add_def touch_def add_balance_def)
  next
    fix y assume "y \<in> set (wallets (db w))" "\<not> (ID y = ID x \<and> wallet_live y)"
    with assms have "ID y \<noteq> ID x" using distinct_key_eq by metis
    then show "row_add (ID x) n y y" by (auto simp: row_add_def intro!: exI[of _ "UpdatedAt y"])
  qed
  with u show "\<exists>ws. db w' = (db w)\<lparr>wallets := ws\<rparr> \<and> list_all2 (row_add (ID x) n) (wallets (db w)) ws \<and>
      (\<forall>y\<in>set (wallets (db w)). ID y \<noteq> ID x \<longrightarrow> y \<in> set ws)"
    by (auto simp: visible_split in_replace_row)
qed

lemma update_two:
  assumes "WalletRepository_Update E (add_balance m x) w = (Inr x', w1)"
    and "WalletRepository_Update E (add_balance n y) w1 = (Inr y', w2)"
    and "x \<in> set (wallets (db w))" "wallet_live x" "y \<in> set (wallets (db w))" "wallet_live y"
    and "ID x \<noteq> ID y" "distinct (map ID (wallets (db w)))"
  shows "\<exists>s t ws. x' = touch s (add_balance m x) \<and> y' = touch t (add_balance n y) \<and>
    db w2 = (db w)\<lparr>wallets := ws\<rparr> \<and>
    list_all2 (\<lambda>z z'. \<exists>z1. row_add (ID x) m z z1 \<and> row_add (ID y) n z1 z') (wallets (db w)) ws"
proof -
  obtain s where x': "x' = touch s (add_balance m x)" using update_one(1) [OF assms(1,3,4,8)] by blast
  obtain ws where ws: "db w1 = (db w)\<lparr>wallets := ws\<rparr>" "list_all2 (row_add (ID x) m) (wallets (db w)) ws"
    "\<forall>y\<in>set (wallets (db w)). ID y \<noteq> ID x \<longrightarrow> y \<in> set ws"
    using update_one(2) [OF assms(1,3,4,8)] by blast
  have "map ID ws = map ID (wallets (db w))"
    using ws(2) by (induction rule: list_all2_induct) (auto simp: row_add_def)
  with assms(8) ws(1) have d: "distinct (map ID (wallets (db w1)))" by simp
  have y: "y \<in> set (wallets (db w1))" using ws(1,3) assms(5,7) by simp
  obtain t where y': "y' = touch t (add_balance n y)" using update_one(1) [OF assms(2) y assms(6) d] by blast
  obtain vs where vs: "db w2 = (db w1)\<lparr>wallets := vs\<rparr>" "list_all2 (row_add (ID y) n) (wallets (db w1)) vs"
    using update_one(2) [OF assms(2) y assms(6) d] by blast
  have "list_all2 (\<lambda>z z'. \<exists>z1. row_add (ID x) m z z1 \<and> row_add (ID y) n z1 z') (wallets (db w)) vs"
    by (rule list_all2_trans [OF _ ws(2), of "row_add (ID y) n"]) (use ws(1) vs(2) in auto)
  moreover have "db w2 = (db w)\<lparr>wallets := vs\<rparr>" using vs(1) ws(1) by simp
  ultimately show ?thesis using x' y' by blast
qed

lemma row_add_moved:
  "a \<noteq> b \<Longrightarrow> row_add a (- n) z z1 \<Longrightarrow> row_add b n z1 z' \<Longrightarrow> wallet_moved a b n z z'"
  "a \<noteq> b \<Longrightarrow> row_add b n z z1 \<Longrightarrow> row_add a (- n) z1 z' \<Longrightarrow> wallet_moved a b n z z'"
  by (auto simp: row_add_def wallet_moved_def)

lemma ledger_two:
  assumes "TransactionRepository_CreateLedgerEntries E
    [new_entry i a LedgerEntryTypeDebit n, new_entry i b LedgerEntryTypeCredit n] w = (Inr es, w')"
  shows "\<exists>e1 e2. db w' = (db w)\<lparr>ledger_entries := ledger_entries (db w) @ [e1, e2]\<rparr> \<and>
    TransactionID e1 = i \<and> WalletID e1 = a \<and> EntryType e1 = LedgerEntryTypeDebit \<and> entry_AmountMinor e1 = n \<and>
    TransactionID e2 = i \<and> WalletID e2 = b \<and> EntryType e2 = LedgerEntryTypeCredit \<and> entry_AmountMinor e2 = n \<and>
    (\<forall>x\<in>set (ledger_entries (db w)). entry_ID e1 \<noteq> entry_ID x \<and> entry_ID e2 \<noteq> entry_ID x) \<and>
    entry_ID e1 \<noteq> entry_ID e2"
proof -
  note c = CreateLedgerEntries_Inr [OF assms, simplified]
  from c(1) obtain e1 e2 where es: "es = [e1, e2]"
    and "e1 = (new_entry i a LedgerEntryTypeDebit n)\<lparr>entry_ID := entry_ID e1, entry_CreatedAt := entry_CreatedAt e1\<rparr>"
    and "e2 = (new_entry i b LedgerEntryTypeCredit n)\<lparr>entry_ID := entry_ID e2, entry_CreatedAt := entry_CreatedAt e2\<rparr>"
    by (auto simp: list_all2_Cons1)
  then have "TransactionID e1 = i" "WalletID e1 = a" "EntryType e1 = LedgerEntryTypeDebit"
    "entry_AmountMinor e1 = n" "TransactionID e2 = i" "WalletID e2 = b"
    "EntryType e2 = LedgerEntryTypeCredit" "entry_AmountMinor e2 = n"
    by (metis ledger_entry.simps new_entry_def)+
  with c(2-4) es show ?thesis by (auto simp: visible_split)
qed

lemma outbox_one:
  assumes "NewOutboxEvent (RT E) ty t w = (Inr ev0, w1)" "OutboxRepository_Create E ev0 w1 = (Inr ev, w')"
  shows "\<exists>eid. db w' = (db w)\<lparr>outbox_events := outbox_events (db w) @ [ev]\<rparr> \<and> AggregateID ev = ID t \<and>
    EventType ev = ty \<and> PayloadJSON ev = payload_to_json (RT E) (event_payload eid ty t) \<and>
    outbox_Status ev = OutboxStatusPending \<and> PublishedAt ev = None \<and>
    (\<forall>x\<in>set (outbox_events (db w)). \<not> outbox_event_clash ev x)"
proof -
  have "db w1 = db w" by (rule visible_db [OF keepsD [OF keeps_NewOutboxEvent assms(1)]])
  with NewOutboxEvent_Inr [OF assms(1)] OutboxRepository_Create_Inr [OF assms(2)] show ?thesis
    by (fastforce simp: visible_split born_def OutboxStatusPending_def)
qed

text \<open>The record of the request at the start, and its response at the end.\<close>

lemma record_start:
  assumes "createIdempotencyRecord E key ep h ttl w = (Inr rec, w')"
  shows "\<exists>ks. db w' = (db w)\<lparr>idempotency_keys := idempotency_keys (db w) @ ks\<rparr> \<and>
    (case rec of None \<Rightarrow> key = [] \<and> ks = []
     | Some r \<Rightarrow> key \<noteq> [] \<and> ks = [r] \<and> idem_Key r = key \<and> idem_Endpoint r = ep \<and> RequestHash r = h \<and>
        (\<forall>x\<in>set (idempotency_keys (db w)). \<not> idempotency_key_clash r x))"
proof (cases rec)
  case None
  with createIdempotencyRecord_None [of key ep h ttl w w'] assms show ?thesis by simp
next
  case (Some r)
  from createIdempotencyRecord_Some [OF assms [unfolded Some]] Some show ?thesis
    by (auto simp: visible_split)
qed

lemma save_end:
  assumes "saveResponse E rec resp i w = (Inr u, w')"
    and "idempotency_keys (db w) = ks0 @ ks"
    and "case rec of None \<Rightarrow> ks = [] | Some r \<Rightarrow> ks = [r] \<and> (\<forall>x\<in>set ks0. \<not> idempotency_key_clash r x)"
  shows "db w' = (db w)\<lparr>idempotency_keys := ks0 @ map (\<lambda>x. x\<lparr>ResponseStatusCode := Some 201,
      ResponseBodyJSON := Some (response_to_json (RT E) resp), ResourceID := Some i\<rparr>) ks\<rparr>"
proof (cases rec)
  case None
  with assms show ?thesis by (simp add: saveResponse_def prog_simps)
next
  case (Some r)
  then have s: "IdempotencyRepository_SaveResponse E (idem_ID r) 201 resp (Some i) w = (Inr u, w')"
    using assms(1) by (simp add: saveResponse_def prog_simps)
  have "idem_ID x \<noteq> idem_ID r" if "x \<in> set ks0" for x
    using assms(3) Some that by (auto simp: idempotency_key_clash_def)
  then have "map (\<lambda>x. if idem_ID x = idem_ID r then F x else x) ks0 = ks0" for F
    by (induction ks0) auto
  with IdempotencyRepository_SaveResponse_Inr [OF s] assms(2,3) Some show ?thesis
    by (simp add: visible_split)
qed

end

end
