(* ===== verification/Postings.thy ===== *)
theory Postings
  imports Money
begin

text \<open>
  The refinement: a body of a money transaction that returns has made a proper posting.
\<close>

text \<open>The rows handed to the cache carry the balances of the database, and no other balance changed.\<close>

definition fresh_rows :: "db \<Rightarrow> db \<Rightarrow> wallet list \<Rightarrow> bool" where
  "fresh_rows d d' ws \<longleftrightarrow> (\<forall>x\<in>set ws. balances d' (ID x) = Some (BalanceCachedMinor x)) \<and>
    (\<forall>i. i \<notin> ID ` set ws \<longrightarrow> balances d' i = balances d i)"

lemma posting_move:
  assumes "posting R d key hash t d'" "SourceWalletID t = Some a" "DestinationWalletID t = Some b"
  shows "balances d' = move a b (AmountMinor t) (balances d)"
  using assms by (auto simp: posting_def intro: balances_moved)

lemma toJSONMap_nonempty [simp]: "toJSONMap m \<noteq> Some []"
  by (simp add: toJSONMap_def split: option.splits)

lemma const_nonempty [simp]: "CurrencyTHB \<noteq> []" "TransactionStatusCompleted \<noteq> []"
  by (simp_all add: const_defs)

lemma endpoint_of_type [simp]:
  "Type t = TransactionTypeTopUp \<Longrightarrow> endpoint_of t = topUpEndpoint"
  "Type t = TransactionTypeTransfer \<Longrightarrow> endpoint_of t = transferEndpoint"
  "Type t = TransactionTypeReversal \<Longrightarrow> endpoint_of t = reverseEndpoint"
  by (simp_all add: endpoint_of_def endpoint_defs)

lemma event_type_of_type:
  "Type t = TransactionTypeTopUp \<Longrightarrow> event_type_of t = ''transaction.completed''"
  "Type t = TransactionTypeTransfer \<Longrightarrow> event_type_of t = ''transaction.completed''"
  "Type t = TransactionTypeReversal \<Longrightarrow> event_type_of t = ''transaction.reversed''"
  by (simp_all add: event_type_of_def)

context env_laws
begin

text \<open>The steps of a body, put together.\<close>

lemma assemble:
  assumes rec: "createIdempotencyRecord E key (endpoint_of t) h ttl w0 = (Inr rec, w1)"
    and ab: "SourceWalletID t = Some a" "DestinationWalletID t = Some b" "AmountMinor t = n" "a \<noteq> b"
      "a \<in> ID ` set (wallets (db w0))" "b \<in> ID ` set (wallets (db w0))"
    and opt: "IdempotencyKey t = optionalString key"
    and d2: "db w2 = (db w1)\<lparr>transactions := transactions (db w1) @ [t]\<rparr>"
      "\<forall>x\<in>set (transactions (db w1)). \<not> transaction_clash t x"
    and d4: "db w4 = (db w2)\<lparr>wallets := ws\<rparr>" "list_all2 (wallet_moved a b n) (wallets (db w2)) ws"
    and l: "TransactionRepository_CreateLedgerEntries E [new_entry (ID t) a LedgerEntryTypeDebit n,
      new_entry (ID t) b LedgerEntryTypeCredit n] w4 = (Inr es, w5)"
    and d6: "db w6 = (db w5)\<lparr>transactions := map (mark_reversed at (RelatedTransactionID t)) (transactions (db w0)) @ [t]\<rparr>"
    and o: "NewOutboxEvent (RT E) (event_type_of t) t w6 = (Inr ev0, w7)"
      "OutboxRepository_Create E ev0 w7 = (Inr ev, w8)"
    and s: "saveResponse E rec (TransactionFromModel t) (ID t) w8 = (Inr u, w9)"
  shows "posting (RT E) (db w0) key h t (db w9)"
proof -
  obtain ks where ks: "db w1 = (db w0)\<lparr>idempotency_keys := idempotency_keys (db w0) @ ks\<rparr>"
    "case rec of None \<Rightarrow> key = [] \<and> ks = []
     | Some r \<Rightarrow> key \<noteq> [] \<and> ks = [r] \<and> idem_Key r = key \<and> idem_Endpoint r = endpoint_of t \<and>
         RequestHash r = h \<and> (\<forall>x\<in>set (idempotency_keys (db w0)). \<not> idempotency_key_clash r x)"
    using record_start [OF rec] by blast
  obtain e1 e2 where l5: "db w5 = (db w4)\<lparr>ledger_entries := ledger_entries (db w4) @ [e1, e2]\<rparr>"
    "is_entry e1 t a LedgerEntryTypeDebit" "is_entry e2 t b LedgerEntryTypeCredit"
    "\<forall>x\<in>set (ledger_entries (db w4)). entry_ID e1 \<noteq> entry_ID x \<and> entry_ID e2 \<noteq> entry_ID x"
    "entry_ID e1 \<noteq> entry_ID e2"
    using ledger_two [OF l] ab(3) by (auto simp: is_entry_def)
  obtain eid where o8: "db w8 = (db w6)\<lparr>outbox_events := outbox_events (db w6) @ [ev]\<rparr>"
    "AggregateID ev = ID t" "EventType ev = event_type_of t"
    "PayloadJSON ev = payload_to_json (RT E) (event_payload eid (event_type_of t) t)"
    "outbox_Status ev = OutboxStatusPending" "PublishedAt ev = None"
    "\<forall>x\<in>set (outbox_events (db w6)). \<not> outbox_event_clash ev x"
    using outbox_one [OF o] by blast
  let ?f = "\<lambda>x. x\<lparr>ResponseStatusCode := Some 201, ResponseBodyJSON :=
      Some (response_to_json (RT E) (TransactionFromModel t)), ResourceID := Some (ID t)\<rparr>"
  have k8: "idempotency_keys (db w8) = idempotency_keys (db w0) @ ks"
    by (simp add: o8(1) d6 l5(1) d4(1) d2(1) ks(1))
  have "case rec of None \<Rightarrow> ks = [] | Some r \<Rightarrow> ks = [r] \<and>
      (\<forall>x\<in>set (idempotency_keys (db w0)). \<not> idempotency_key_clash r x)"
    using ks(2) by (auto split: option.splits)
  from save_end [OF s k8 this]
  have d9: "db w9 = (db w8)\<lparr>idempotency_keys := idempotency_keys (db w0) @ map ?f ks\<rparr>" .
  have "if key = [] then map ?f ks = [] else \<exists>k. map ?f ks = [k] \<and> idem_record (RT E) t key h k \<and>
      (\<forall>x\<in>set (idempotency_keys (db w0)). \<not> idempotency_key_clash k x)"
    using ks(2) by (auto simp: idem_record_def idempotency_key_clash_def split: option.splits)
  moreover have "users (db w9) = users (db w0)" "wallets (db w9) = ws" "wallets (db w2) = wallets (db w0)"
    "transactions (db w9) = map (mark_reversed at (RelatedTransactionID t)) (transactions (db w0)) @ [t]"
    "transactions (db w1) = transactions (db w0)"
    "ledger_entries (db w9) = ledger_entries (db w0) @ [e1, e2]" "ledger_entries (db w4) = ledger_entries (db w0)"
    "outbox_events (db w9) = outbox_events (db w0) @ [ev]" "outbox_events (db w6) = outbox_events (db w0)"
    "idempotency_keys (db w9) = idempotency_keys (db w0) @ map ?f ks"
    by (simp_all add: d9 o8(1) d6 l5(1) d4(1) d2(1) ks(1))
  ultimately show ?thesis
    unfolding posting_def using ab opt d2(2) d4(2) l5(2-5) o8(2-7)
    by (intro exI[of _ a] exI[of _ b] exI[of _ at] exI[of _ e1] exI[of _ e2] exI[of _ ev] exI[of _ eid]
        exI[of _ "map ?f ks"]) simp
qed

text \<open>The rows a body works on: two live wallets of the database it started from.\<close>

lemma resolved:
  assumes "createIdempotencyRecord E key ep h ttl w = (Inr rec, w1)" "db v = db w1"
    and "WalletRepository_GetByIDsForUpdate E [a, b] v = (Inr rows, w2)"
    and "resolveTransferWallets rows a b = Inr (x, y)"
  shows "x \<in> set (wallets (db w)) \<and> wallet_live x \<and> ID x = a" "y \<in> set (wallets (db w)) \<and> wallet_live y \<and> ID y = b"
    "a \<noteq> b" "db w2 = db w1" "wallets (db w1) = wallets (db w)" "transactions (db w1) = transactions (db w)"
    "a \<in> ID ` set (wallets (db w))" "b \<in> ID ` set (wallets (db w))"
proof -
  show w: "wallets (db w1) = wallets (db w)" "transactions (db w1) = transactions (db w)"
    using record_start [OF assms(1)] by auto
  show "x \<in> set (wallets (db w)) \<and> wallet_live x \<and> ID x = a" "y \<in> set (wallets (db w)) \<and> wallet_live y \<and> ID y = b"
    "a \<noteq> b" "db w2 = db w1"
    using locked_wallets [OF assms(3)] resolve_Inr [OF assms(4)] w assms(2) by auto
  then show "a \<in> ID ` set (wallets (db w))" "b \<in> ID ` set (wallets (db w))" by blast+
qed

lemma new_transaction:
  assumes "newReferenceCode (RT E) pre w = (ref, w1)" "TransactionRepository_Create E t0 w1 = (Inr t, w')"
  shows "\<exists>i ca ua. i \<noteq> uuid_Nil \<and> t = t0\<lparr>ID := i, CreatedAt := ca, UpdatedAt := ua,
      Currency := if Currency t0 = [] then CurrencyTHB else Currency t0,
      Status := if Status t0 = [] then TransactionStatusPending else Status t0\<rparr>"
    "db w' = (db w)\<lparr>transactions := transactions (db w) @ [t]\<rparr>"
    "\<forall>x\<in>set (transactions (db w)). \<not> transaction_clash t x"
proof -
  have "db w1 = db w" by (rule visible_db [OF newReferenceCode_visible [OF runtime_laws_axioms assms(1)]])
  with TransactionRepository_Create_Inr [OF assms(2)]
  show "db w' = (db w)\<lparr>transactions := transactions (db w) @ [t]\<rparr>"
    "\<forall>x\<in>set (transactions (db w)). \<not> transaction_clash t x"
    by (auto simp: visible_split)
  from TransactionRepository_Create_Inr [OF assms(2)] obtain i at where "i \<noteq> uuid_Nil"
    "t = born at (t0\<lparr>ID := i, Currency := if Currency t0 = [] then CurrencyTHB else Currency t0,
      Status := if Status t0 = [] then TransactionStatusPending else Status t0\<rparr>)"
    by blast
  then show "\<exists>i ca ua. i \<noteq> uuid_Nil \<and> t = t0\<lparr>ID := i, CreatedAt := ca, UpdatedAt := ua,
      Currency := if Currency t0 = [] then CurrencyTHB else Currency t0,
      Status := if Status t0 = [] then TransactionStatusPending else Status t0\<rparr>"
    by (intro exI[of _ i] exI[of _ "CreatedAt t"] exI[of _ "UpdatedAt t"]) (simp add: born_def)
qed

text \<open>The two saved wallets are the rows of the new database.\<close>

lemma fresh_two:
  assumes "balances d' = move a b n (balances d)" "a \<noteq> b" "distinct (map ID (wallets d))"
    and "x \<in> set (wallets d)" "ID x = a" "y \<in> set (wallets d)" "ID y = b"
    and "x' = touch s (add_balance (- n) x)" "y' = touch r (add_balance n y)"
  shows "fresh_rows d d' [x', y'] \<and> fresh_rows d d' [y', x']"
proof -
  have "balances d a = Some (BalanceCachedMinor x)" "balances d b = Some (BalanceCachedMinor y)"
    using balances_row [OF assms(3)] assms(4-7) by auto
  with assms show ?thesis by (auto simp: fresh_rows_def move_def touch_def add_balance_def)
qed

text \<open>The body of a top-up and of a transfer, from the creation of the transaction on.\<close>

lemma completed_body:
  assumes r1: "createIdempotencyRecord E key ep h ttl w = (Inr rec, w1)"
    and r2: "WalletRepository_GetByIDsForUpdate E [a, b] w1 = (Inr rows, w2)"
    and r3: "resolveTransferWallets rows a b = Inr (x, y)"
    and r4: "newReferenceCode (RT E) pre w2 = (ref, w3)"
    and r5: "TransactionRepository_Create E \<lparr>ID = uuid_Nil, CreatedAt = 0, UpdatedAt = 0,
       ReferenceCode = ref, Type = ty, Status = TransactionStatusCompleted,
       SourceWalletID = Some (ID x), DestinationWalletID = Some (ID y), AmountMinor = n,
       Currency = CurrencyTHB, IdempotencyKey = optionalString key, RelatedTransactionID = None,
       MetadataJSON = toJSONMap meta\<rparr> w3 = (Inr t, w4)"
    and r6: "WalletRepository_Update E (add_balance (- n) x) w4 = (Inr x', w5)"
    and r7: "WalletRepository_Update E (add_balance n y) w5 = (Inr y', w6)"
    and r8: "TransactionRepository_CreateLedgerEntries E [new_entry (ID t) (ID x') LedgerEntryTypeDebit n,
       new_entry (ID t) (ID y') LedgerEntryTypeCredit n] w6 = (Inr es, w7)"
    and r9: "NewOutboxEvent (RT E) ''transaction.completed'' t w7 = (Inr ev0, w8)"
    and r10: "OutboxRepository_Create E ev0 w8 = (Inr ev, w9)"
    and r11: "saveResponse E rec (TransactionFromModel t) (ID t) w9 = (Inr u, w')"
    and ty: "ty = TransactionTypeTopUp \<and> ep = topUpEndpoint \<or> ty = TransactionTypeTransfer \<and> ep = transferEndpoint"
    and wf: "wf_db (db w)"
  shows "posting (RT E) (db w) key h t (db w') \<and> proper (db w) t \<and> Type t = ty \<and>
    SourceWalletID t = Some a \<and> DestinationWalletID t = Some b \<and> AmountMinor t = n \<and>
    MetadataJSON t = toJSONMap meta \<and> fresh_rows (db w) (db w') [x', y']"
proof -
  note xy = resolved [OF r1 refl r2 r3] and t = new_transaction [OF r4 r5]
  obtain i ca ua where ti: "i \<noteq> uuid_Nil" "t = \<lparr>ID = i, CreatedAt = ca, UpdatedAt = ua,
      ReferenceCode = ref, Type = ty, Status = TransactionStatusCompleted, SourceWalletID = Some a,
      DestinationWalletID = Some b, AmountMinor = n, Currency = CurrencyTHB,
      IdempotencyKey = optionalString key, RelatedTransactionID = None, MetadataJSON = toJSONMap meta\<rparr>"
    using t(1) xy(1,2) by auto
  have w4: "wallets (db w4) = wallets (db w)" "distinct (map ID (wallets (db w)))"
    using t(2) xy(4,5) wf_db_distinct(2) [OF wf] by simp_all
  obtain s1 s2 vs where u: "x' = touch s1 (add_balance (- n) x)" "y' = touch s2 (add_balance n y)"
    "db w6 = (db w4)\<lparr>wallets := vs\<rparr>" and vs: "list_all2 (\<lambda>z z'. \<exists>z1. row_add a (- n) z z1 \<and>
      row_add b n z1 z') (wallets (db w4)) vs"
    using update_two [OF r6 r7] xy(1-3) w4 by auto
  have moved: "list_all2 (wallet_moved a b n) (wallets (db w4)) vs"
    using vs by (rule list_all2_mono) (use row_add_moved(1) xy(3) in blast)
  have ids: "ID x' = a" "ID y' = b" using u xy(1,2) by (simp_all add: add_balance_def)
  obtain l where l: "db w7 = (db w6)\<lparr>ledger_entries := l\<rparr>" using ledger_two [OF r8] by blast
  have post: "posting (RT E) (db w) key h t (db w')"
  proof (rule assemble [where n = n and a = a and b = b, OF _ _ _ _ _ _ _ _ _ _ u(3) moved _ _ _ r10 r11])
    show "createIdempotencyRecord E key (endpoint_of t) h ttl w = (Inr rec, w1)" using r1 ti(2) ty by auto
    show "db w7 = (db w7)\<lparr>transactions :=
        map (mark_reversed at (RelatedTransactionID t)) (transactions (db w)) @ [t]\<rparr>"
      using u(3) t(2) xy(4,6) ti(2) l by simp
    show "NewOutboxEvent (RT E) (event_type_of t) t w7 = (Inr ev0, w8)"
      using r9 ti(2) ty by (auto simp: event_type_of_type)
  qed (use xy ti(2) t(2,3) r8 ids in \<open>auto simp del: image_iff\<close>)
  moreover have "proper (db w) t" using ti ty by (auto simp: proper_def)
  moreover have "fresh_rows (db w) (db w') [x', y']"
    using fresh_two [OF posting_move [OF post], of a b] xy(1-3) w4(2) u(1,2) ti(2) by auto
  ultimately show ?thesis using ti(2) by simp
qed

text \<open>Marking the original: every other transaction stays, and the new one is not it.\<close>

lemma mark_original:
  assumes "TransactionRepository_Update E (orig\<lparr>Status := TransactionStatusReversed\<rparr>) w = (Inr orig', w')"
    and "transactions (db w) = ts @ [t]" "orig \<in> set ts" "distinct (map ID ts)" "ID t \<noteq> ID orig"
  shows "\<exists>at. db w' = (db w)\<lparr>transactions := map (mark_reversed at (Some (ID orig))) ts @ [t]\<rparr>"
proof -
  have ex: "\<exists>x\<in>set (transactions (db w)). ID x = ID (orig\<lparr>Status := TransactionStatusReversed\<rparr>)"
    using assms(2,3) by auto
  from TransactionRepository_Update_Inr [OF assms(1) ex] obtain at where
    o: "orig' = touch at (orig\<lparr>Status := TransactionStatusReversed\<rparr>)" and
    d: "db w' = (db w)\<lparr>transactions := replace_row (\<lambda>x. ID x = ID orig) orig' (ts @ [t])\<rparr>"
    using assms(2) by (auto simp: visible_split)
  have "replace_row (\<lambda>x. ID x = ID orig) orig' ts = map (mark_reversed at (Some (ID orig))) ts"
    unfolding replace_row_def
  proof (rule map_cong [OF refl])
    fix x assume "x \<in> set ts"
    with assms(3,4) have "ID x = ID orig \<Longrightarrow> x = orig" by (blast intro: distinct_key_eq)
    with o show "(if ID x = ID orig then orig' else x) = mark_reversed at (Some (ID orig)) x"
      by (auto simp: mark_reversed_def)
  qed
  moreover have "replace_row (\<lambda>x. ID x = ID orig) orig' (ts @ [t]) =
      replace_row (\<lambda>x. ID x = ID orig) orig' ts @ [t]"
    using assms(5) by (simp add: replace_row_def)
  ultimately show ?thesis using d by metis
qed

text \<open>The body of a reversal, from the creation of the reversal on.\<close>

lemma reversed_body:
  assumes r1: "createIdempotencyRecord E key reverseEndpoint h ttl w = (Inr rec, w1)"
    and orig: "orig \<in> set (transactions (db w))" and v: "db v = db w1"
    and r2: "WalletRepository_GetByIDsForUpdate E [a, b] v = (Inr rows, w2)"
    and r3: "resolveTransferWallets rows a b = Inr (x, y)"
    and r4: "newReferenceCode (RT E) pre w2 = (ref, w3)"
    and r5: "TransactionRepository_Create E \<lparr>ID = uuid_Nil, CreatedAt = 0, UpdatedAt = 0,
       ReferenceCode = ref, Type = TransactionTypeReversal, Status = TransactionStatusCompleted,
       SourceWalletID = Some (ID y), DestinationWalletID = Some (ID x), AmountMinor = AmountMinor orig,
       Currency = Currency orig, IdempotencyKey = optionalString key,
       RelatedTransactionID = Some (ID orig), MetadataJSON = MetadataJSON orig\<rparr> w3 = (Inr t, w4)"
    and r6: "WalletRepository_Update E (add_balance (AmountMinor orig) x) w4 = (Inr x', w5)"
    and r7: "WalletRepository_Update E (add_balance (- AmountMinor orig) y) w5 = (Inr y', w6)"
    and r8: "TransactionRepository_CreateLedgerEntries E
       [new_entry (ID t) (ID y') LedgerEntryTypeDebit (AmountMinor orig),
        new_entry (ID t) (ID x') LedgerEntryTypeCredit (AmountMinor orig)] w6 = (Inr es, w7)"
    and r8': "TransactionRepository_Update E (orig\<lparr>Status := TransactionStatusReversed\<rparr>) w7 = (Inr orig', w8)"
    and r9: "NewOutboxEvent (RT E) ''transaction.reversed'' t w8 = (Inr ev0, w9)"
    and r10: "OutboxRepository_Create E ev0 w9 = (Inr ev, w10)"
    and r11: "saveResponse E rec (TransactionFromModel t) (ID t) w10 = (Inr u, w')"
    and wf: "wf_db (db w)" and cur: "Currency orig \<noteq> []"
  shows "posting (RT E) (db w) key h t (db w')" "fresh_rows (db w) (db w') [x', y']"
    "\<exists>i ca ua. i \<noteq> uuid_Nil \<and> t = \<lparr>ID = i, CreatedAt = ca, UpdatedAt = ua, ReferenceCode = ref,
      Type = TransactionTypeReversal, Status = TransactionStatusCompleted, SourceWalletID = Some b,
      DestinationWalletID = Some a, AmountMinor = AmountMinor orig, Currency = Currency orig,
      IdempotencyKey = optionalString key, RelatedTransactionID = Some (ID orig),
      MetadataJSON = MetadataJSON orig\<rparr>"
proof -
  let ?n = "AmountMinor orig"
  note xy = resolved [OF r1 v r2 r3] and t = new_transaction [OF r4 r5]
  show ex: "\<exists>i ca ua. i \<noteq> uuid_Nil \<and> t = \<lparr>ID = i, CreatedAt = ca, UpdatedAt = ua, ReferenceCode = ref,
      Type = TransactionTypeReversal, Status = TransactionStatusCompleted, SourceWalletID = Some b,
      DestinationWalletID = Some a, AmountMinor = AmountMinor orig, Currency = Currency orig,
      IdempotencyKey = optionalString key, RelatedTransactionID = Some (ID orig),
      MetadataJSON = MetadataJSON orig\<rparr>"
    using t(1) xy(1,2) cur by auto
  then have ti: "Type t = TransactionTypeReversal" "SourceWalletID t = Some b" "DestinationWalletID t = Some a"
    "AmountMinor t = ?n" "IdempotencyKey t = optionalString key" "RelatedTransactionID t = Some (ID orig)"
    by auto
  have w4: "wallets (db w4) = wallets (db w)" "distinct (map ID (wallets (db w)))"
    "transactions (db w4) = transactions (db w) @ [t]"
    using t(2) xy(4-6) wf_db_distinct(2) [OF wf] by simp_all
  obtain s1 s2 vs where u: "x' = touch s1 (add_balance ?n x)" "y' = touch s2 (add_balance (- ?n) y)"
    "db w6 = (db w4)\<lparr>wallets := vs\<rparr>" and vs: "list_all2 (\<lambda>z z'. \<exists>z1. row_add a ?n z z1 \<and>
      row_add b (- ?n) z1 z') (wallets (db w4)) vs"
    using update_two [OF r6 r7] xy(1-3) w4 by auto
  have moved: "list_all2 (wallet_moved b a ?n) (wallets (db w4)) vs"
    using vs by (rule list_all2_mono) (use row_add_moved(2) [OF xy(3) [symmetric]] in blast)
  have ids: "ID x' = a" "ID y' = b" using u xy(1,2) by (simp_all add: add_balance_def)
  obtain l where l: "db w7 = (db w6)\<lparr>ledger_entries := l\<rparr>" using ledger_two [OF r8] by blast
  have new: "ID t \<noteq> ID orig" using t(3) xy(4,6) orig by (auto simp: transaction_clash_def)
  have "transactions (db w7) = transactions (db w) @ [t]" using l u(3) w4(3) by simp
  from mark_original [OF r8' this orig wf_db_distinct(3) [OF wf] new] obtain at where
    m: "db w8 = (db w7)\<lparr>transactions := map (mark_reversed at (RelatedTransactionID t)) (transactions (db w)) @ [t]\<rparr>"
    using ti(6) by auto
  show post: "posting (RT E) (db w) key h t (db w')"
  proof (rule assemble [where n = ?n and a = b and b = a, OF _ _ _ _ _ _ _ _ _ _ u(3) moved _ m _ r10 r11])
    show "createIdempotencyRecord E key (endpoint_of t) h ttl w = (Inr rec, w1)" using r1 ti(1) by simp
    show "NewOutboxEvent (RT E) (event_type_of t) t w8 = (Inr ev0, w9)"
      using r9 ti(1) by (simp add: event_type_of_type)
  qed (use xy ti t(2,3) r8 ids in \<open>auto simp del: image_iff\<close>)
  show "fresh_rows (db w) (db w') [x', y']"
    using fresh_two [OF posting_move [OF post], of b a] xy(1-3) w4(2) u(1,2) ti by auto
qed

end

section \<open>The bodies\<close>

locale transaction_service_laws = env_laws "ts_env S" for S :: "'h transaction_service"
begin

lemma TopUp_tx_posting:
  assumes run: "TopUp_tx S req key h w = (Inr (resp, ws), w')" and wf: "wf_db (db w)"
  shows "\<exists>t y. posting (RT (ts_env S)) (db w) key h t (db w') \<and> proper (db w) t \<and>
    resp = TransactionFromModel t \<and> Type t = TransactionTypeTopUp \<and>
    SourceWalletID t = Some SystemWalletID \<and> DestinationWalletID t = Some (tu_WalletID req) \<and>
    AmountMinor t = tu_AmountMinor req \<and> MetadataJSON t = toJSONMap (tu_Metadata req) \<and>
    y \<in> set (wallets (db w)) \<and> ID y = tu_WalletID req \<and> wallet_live y \<and> IsActive y \<and>
    fresh_rows (db w) (db w') ws"
proof -
  from run obtain rec w1 rows w2 x y ref w3 t w4 x' w5 y' w6 es w7 ev0 w8 ev w9 u where
    r1: "createIdempotencyRecord (ts_env S) key topUpEndpoint h (idempotencyTTL S) w = (Inr rec, w1)" and
    r2: "WalletRepository_GetByIDsForUpdate (ts_env S) [SystemWalletID, tu_WalletID req] w1 = (Inr rows, w2)" and
    r3: "resolveTopUpWallets rows (tu_WalletID req) = Inr (x, y)" and act: "IsActive y" and
    r4: "newReferenceCode (RT (ts_env S)) ''TOPUP'' w2 = (ref, w3)" and
    r5: "TransactionRepository_Create (ts_env S) \<lparr>ID = uuid_Nil, CreatedAt = 0, UpdatedAt = 0,
      ReferenceCode = ref, Type = TransactionTypeTopUp, Status = TransactionStatusCompleted,
      SourceWalletID = Some (ID x), DestinationWalletID = Some (ID y), AmountMinor = tu_AmountMinor req,
      Currency = CurrencyTHB, IdempotencyKey = optionalString key, RelatedTransactionID = None,
      MetadataJSON = toJSONMap (tu_Metadata req)\<rparr> w3 = (Inr t, w4)" and
    r6: "WalletRepository_Update (ts_env S) (add_balance (- tu_AmountMinor req) x) w4 = (Inr x', w5)" and
    r7: "WalletRepository_Update (ts_env S) (add_balance (tu_AmountMinor req) y) w5 = (Inr y', w6)" and
    r8: "TransactionRepository_CreateLedgerEntries (ts_env S)
      [new_entry (ID t) (ID x') LedgerEntryTypeDebit (tu_AmountMinor req),
       new_entry (ID t) (ID y') LedgerEntryTypeCredit (tu_AmountMinor req)] w6 = (Inr es, w7)" and
    r9: "NewOutboxEvent (RT (ts_env S)) ''transaction.completed'' t w7 = (Inr ev0, w8)" and
    r10: "OutboxRepository_Create (ts_env S) ev0 w8 = (Inr ev, w9)" and
    r11: "saveResponse (ts_env S) rec (TransactionFromModel t) (ID t) w9 = (Inr u, w')" and
    res: "resp = TransactionFromModel t" "ws = [x', y']"
    unfolding TopUp_tx_def Let_def
    by (elim run_elims) (simp only: not_not de_Morgan_disj, clarify, rule that, (assumption | rule refl)+)
  note r3' = r3 [unfolded resolveTopUp_eq]
  from completed_body [OF r1 r2 r3' r4 r5 r6 r7 r8 r9 r10 r11 _ wf] resolved(2) [OF r1 refl r2 r3'] act res
  show ?thesis by (intro exI[of _ t] exI[of _ y]) simp
qed

lemma Transfer_tx_posting:
  assumes run: "Transfer_tx S req key h w = (Inr (resp, ws), w')" and wf: "wf_db (db w)"
  shows "\<exists>t x y. posting (RT (ts_env S)) (db w) key h t (db w') \<and> proper (db w) t \<and>
    resp = TransactionFromModel t \<and> Type t = TransactionTypeTransfer \<and>
    SourceWalletID t = Some (tr_SourceWalletID req) \<and>
    DestinationWalletID t = Some (tr_DestinationWalletID req) \<and>
    AmountMinor t = tr_AmountMinor req \<and> MetadataJSON t = toJSONMap (tr_Metadata req) \<and>
    x \<in> set (wallets (db w)) \<and> ID x = tr_SourceWalletID req \<and> wallet_live x \<and> IsActive x \<and>
    y \<in> set (wallets (db w)) \<and> ID y = tr_DestinationWalletID req \<and> wallet_live y \<and> IsActive y \<and>
    sint (tr_AmountMinor req) \<le> sint (BalanceCachedMinor x) \<and> fresh_rows (db w) (db w') ws"
proof -
  from run obtain rec w1 rows w2 x y ref w3 t w4 x' w5 y' w6 es w7 ev0 w8 ev w9 u where
    r1: "createIdempotencyRecord (ts_env S) key transferEndpoint h (idempotencyTTL S) w = (Inr rec, w1)" and
    r2: "WalletRepository_GetByIDsForUpdate (ts_env S) [tr_SourceWalletID req, tr_DestinationWalletID req] w1 = (Inr rows, w2)" and
    r3: "resolveTransferWallets rows (tr_SourceWalletID req) (tr_DestinationWalletID req) = Inr (x, y)" and act: "IsActive x" "IsActive y" and
    funds: "\<not> sint (BalanceCachedMinor x) < sint (tr_AmountMinor req)" and
    r4: "newReferenceCode (RT (ts_env S)) ''TRF'' w2 = (ref, w3)" and
    r5: "TransactionRepository_Create (ts_env S) \<lparr>ID = uuid_Nil, CreatedAt = 0, UpdatedAt = 0,
      ReferenceCode = ref, Type = TransactionTypeTransfer, Status = TransactionStatusCompleted,
      SourceWalletID = Some (ID x), DestinationWalletID = Some (ID y), AmountMinor = tr_AmountMinor req,
      Currency = CurrencyTHB, IdempotencyKey = optionalString key, RelatedTransactionID = None,
      MetadataJSON = toJSONMap (tr_Metadata req)\<rparr> w3 = (Inr t, w4)" and
    r6: "WalletRepository_Update (ts_env S) (add_balance (- tr_AmountMinor req) x) w4 = (Inr x', w5)" and
    r7: "WalletRepository_Update (ts_env S) (add_balance (tr_AmountMinor req) y) w5 = (Inr y', w6)" and
    r8: "TransactionRepository_CreateLedgerEntries (ts_env S)
      [new_entry (ID t) (ID x') LedgerEntryTypeDebit (tr_AmountMinor req),
       new_entry (ID t) (ID y') LedgerEntryTypeCredit (tr_AmountMinor req)] w6 = (Inr es, w7)" and
    r9: "NewOutboxEvent (RT (ts_env S)) ''transaction.completed'' t w7 = (Inr ev0, w8)" and
    r10: "OutboxRepository_Create (ts_env S) ev0 w8 = (Inr ev, w9)" and
    r11: "saveResponse (ts_env S) rec (TransactionFromModel t) (ID t) w9 = (Inr u, w')" and
    res: "resp = TransactionFromModel t" "ws = [x', y']"
    unfolding Transfer_tx_def Let_def
    by (elim run_elims) (simp only: not_not de_Morgan_disj, clarify, rule that, (assumption | rule refl)+)
  from completed_body [OF r1 r2 r3 r4 r5 r6 r7 r8 r9 r10 r11 _ wf] resolved(1,2) [OF r1 refl r2 r3] act funds res
  show ?thesis by (intro exI[of _ t] exI[of _ x] exI[of _ y]) simp
qed

lemma Reverse_tx_posting:
  assumes run: "Reverse_tx S i key h w = (Inr (resp, ws), w')"
    and wf: "wf_db (db w)" and ok: "transactions_ok (db w)"
  shows "\<exists>t orig y. posting (RT (ts_env S)) (db w) key h t (db w') \<and> proper (db w) t \<and>
    resp = TransactionFromModel t \<and> Type t = TransactionTypeReversal \<and>
    orig \<in> set (transactions (db w)) \<and> ID orig = i \<and> RelatedTransactionID t = Some i \<and>
    Status orig = TransactionStatusCompleted \<and> Type orig \<noteq> TransactionTypeReversal \<and>
    SourceWalletID t = DestinationWalletID orig \<and> DestinationWalletID t = SourceWalletID orig \<and>
    AmountMinor t = AmountMinor orig \<and> y \<in> set (wallets (db w)) \<and> wallet_live y \<and>
    DestinationWalletID orig = Some (ID y) \<and> sint (AmountMinor orig) \<le> sint (BalanceCachedMinor y) \<and>
    fresh_rows (db w) (db w') ws"
proof -
  from run obtain rec w1 orig w1' a b rows w2 x y ref w3 t w4 x' w5 y' w6 es w7 orig' w8 ev0 w9 ev w10 u where
    r1: "createIdempotencyRecord (ts_env S) key reverseEndpoint h (idempotencyTTL S) w = (Inr rec, w1)" and
    g: "TransactionRepository_GetByIDForUpdate (ts_env S) i w1 = (Inr orig, w1')" and
    st: "Status orig \<noteq> TransactionStatusReversed" and
    ty: "\<not> (Type orig \<noteq> TransactionTypeTopUp \<and> Type orig \<noteq> TransactionTypeTransfer)" and
    ab: "SourceWalletID orig = Some a" "DestinationWalletID orig = Some b" and
    r2: "WalletRepository_GetByIDsForUpdate (ts_env S) [a, b] w1' = (Inr rows, w2)" and
    r3: "resolveTransferWallets rows a b = Inr (x, y)" and
    funds: "\<not> sint (BalanceCachedMinor y) < sint (AmountMinor orig)" and
    r4: "newReferenceCode (RT (ts_env S)) ''REV'' w2 = (ref, w3)" and
    r5: "TransactionRepository_Create (ts_env S) \<lparr>ID = uuid_Nil, CreatedAt = 0, UpdatedAt = 0,
      ReferenceCode = ref, Type = TransactionTypeReversal, Status = TransactionStatusCompleted,
      SourceWalletID = Some (ID y), DestinationWalletID = Some (ID x), AmountMinor = AmountMinor orig,
      Currency = Currency orig, IdempotencyKey = optionalString key,
      RelatedTransactionID = Some (ID orig), MetadataJSON = MetadataJSON orig\<rparr> w3 = (Inr t, w4)" and
    r6: "WalletRepository_Update (ts_env S) (add_balance (AmountMinor orig) x) w4 = (Inr x', w5)" and
    r7: "WalletRepository_Update (ts_env S) (add_balance (- AmountMinor orig) y) w5 = (Inr y', w6)" and
    r8: "TransactionRepository_CreateLedgerEntries (ts_env S)
      [new_entry (ID t) (ID y') LedgerEntryTypeDebit (AmountMinor orig),
       new_entry (ID t) (ID x') LedgerEntryTypeCredit (AmountMinor orig)] w6 = (Inr es, w7)" and
    r8': "TransactionRepository_Update (ts_env S) (orig\<lparr>Status := TransactionStatusReversed\<rparr>) w7 = (Inr orig', w8)" and
    r9: "NewOutboxEvent (RT (ts_env S)) ''transaction.reversed'' t w8 = (Inr ev0, w9)" and
    r10: "OutboxRepository_Create (ts_env S) ev0 w9 = (Inr ev, w10)" and
    r11: "saveResponse (ts_env S) rec (TransactionFromModel t) (ID t) w10 = (Inr u, w')" and
    res: "resp = TransactionFromModel t" "ws = [x', y']"
    unfolding Reverse_tx_def Let_def
    by (elim run_elims) (simp only: prod.inject, clarify, rule that, (assumption | rule refl)+)
  have v: "db w1' = db w1" by (rule visible_db [OF keepsD [OF keeps_Get(5) g]])
  have o: "orig \<in> set (transactions (db w))" "ID orig = i"
    using Get_Inr(5) [OF g] record_start [OF r1] by auto
  then have ok': "Status orig = TransactionStatusCompleted" "MetadataJSON orig \<noteq> Some []" "Currency orig \<noteq> []"
    "Type orig \<noteq> TransactionTypeReversal"
    using ok st ty by (auto simp: transactions_ok_def)
  note body = reversed_body [OF r1 o(1) v r2 r3 r4 r5 r6 r7 r8 r8' r9 r10 r11 wf ok'(3)]
  have "proper (db w) t"
    using body(3) o(1) ok' ab by (auto simp: proper_def)
  with body ab o ok' resolved(2) [OF r1 v r2 r3] funds res show ?thesis
    by (intro exI[of _ t] exI[of _ orig] exI[of _ y]) auto
qed

end

end
