(* ===== verification/Reasons.thy ===== *)
theory Reasons
  imports Postings
begin

text \<open>
  The errors of the money operations: each error of a body names a reason that holds of the
  database, or is internal.
\<close>

section \<open>The errors of the bodies\<close>

text \<open>The steps after the checks fail with an internal error only.\<close>

abbreviation is_internal :: "go_error \<Rightarrow> bool" where
  "is_internal e \<equiv> \<exists>e'. e = internal e'"

definition in_use :: go_error where
  "in_use = AppErr (Conflict ''idempotency key is already in use'')"

context transaction_service_laws
begin

lemma internal_ex: "is_internal (internal e)"
  by blast

lemma errs_saveResponse [errs_intros]: "errs is_internal (saveResponse E rec resp i)"
  unfolding saveResponse_def by (intro errs_intros internal_ex)

lemma record_error:
  "createIdempotencyRecord (ts_env S) key ep h ttl w = (Inl e, w') \<Longrightarrow> e = in_use \<and> key \<noteq> [] \<or> is_internal e"
  by (auto simp: createIdempotencyRecord_def prog_simps in_use_def split: if_splits)

lemma missing_wallet:
  assumes "createIdempotencyRecord (ts_env S) key ep h ttl w = (Inr rec, w1)" "db v = db w1"
    and "WalletRepository_GetByIDsForUpdate (ts_env S) [a, b] v = (Inr rows, w2)"
    and "resolveTransferWallets rows a b = Inl e"
  shows "e = not_found \<and> (a = b \<or> (\<forall>x\<in>set (wallets (db w)). wallet_live x \<longrightarrow> ID x \<noteq> a) \<or>
    (\<forall>x\<in>set (wallets (db w)). wallet_live x \<longrightarrow> ID x \<noteq> b))"
  using locked_wallets(1) [OF assms(3)] resolve_Inl [OF assms(4)] record_start [OF assms(1)] assms(2) by auto

text \<open>The lookup of the two wallets fails for a reason, or hands two live rows to the rest.\<close>

lemma lookup_errors:
  assumes c: "createIdempotencyRecord (ts_env S) key ep h ttl w = (Inr rec, w1)" "db v = db w1"
    and run: "bindE (onErr internal (WalletRepository_GetByIDsForUpdate (ts_env S) [a, b])) (\<lambda>rows.
      bindE (liftR (resolveTransferWallets rows a b)) k) v = (Inl e, w')"
  shows "is_internal e \<or>
    e = not_found \<and> (a = b \<or> (\<forall>x\<in>set (wallets (db w)). wallet_live x \<longrightarrow> ID x \<noteq> a) \<or>
      (\<forall>x\<in>set (wallets (db w)). wallet_live x \<longrightarrow> ID x \<noteq> b)) \<or>
    (\<exists>x y w2. x \<in> set (wallets (db w)) \<and> wallet_live x \<and> ID x = a \<and>
      y \<in> set (wallets (db w)) \<and> wallet_live y \<and> ID y = b \<and> k (x, y) w2 = (Inl e, w'))"
proof (cases "WalletRepository_GetByIDsForUpdate (ts_env S) [a, b] v")
  case (Pair q w2)
  show ?thesis
  proof (cases q)
    case (Inl e')
    with Pair run have "e = internal e'" by (simp add: bindE_stop onErr_stop)
    then show ?thesis by blast
  next
    case (Inr rows)
    note g = Pair [unfolded Inr]
    have run2: "bindE (liftR (resolveTransferWallets rows a b)) k w2 = (Inl e, w')"
      using run by (simp add: bindE_def onErr_def handleE_def g)
    show ?thesis
    proof (cases "resolveTransferWallets rows a b")
      case (Inl e')
      with run2 have "e = e'" by (simp add: bindE_def liftR_def)
      with missing_wallet [OF c g Inl] show ?thesis by blast
    next
      case (Inr xy)
      obtain x y where xy: "xy = (x, y)" by (cases xy)
      have "k (x, y) w2 = (Inl e, w')" using run2 Inr xy by (simp add: bindE_def liftR_def)
      with resolved(1,2) [OF c g Inr [unfolded xy]] show ?thesis by blast
    qed
  qed
qed

lemma record_errors:
  assumes "bindE (createIdempotencyRecord (ts_env S) key ep h ttl) k w = (Inl e, w')"
  shows "is_internal e \<or> e = in_use \<and> key \<noteq> [] \<or>
    (\<exists>rec w1. createIdempotencyRecord (ts_env S) key ep h ttl w = (Inr rec, w1) \<and> k rec w1 = (Inl e, w'))"
  using assms record_error by (elim bindE_InlE) blast+

lemma check_errors:
  "bindE (failWhen c err) k w = (Inl e, w') \<Longrightarrow> (c \<Longrightarrow> e = err \<Longrightarrow> P) \<Longrightarrow>
    (\<not> c \<Longrightarrow> k () w = (Inl e, w') \<Longrightarrow> P) \<Longrightarrow> P"
  by (auto simp: bindE_def failWhen_def split: if_splits)

lemma try_errors: "tryE m g f s = (Inl e, s') \<Longrightarrow> m s = (Inr a, s1) \<Longrightarrow> f a s1 = (Inl e, s')"
  by (simp add: tryE_def)

lemma tail_internal: "m s = (Inl e, s') \<Longrightarrow> errs is_internal m \<Longrightarrow> is_internal e"
  by (auto simp: errs_def)

text \<open>Every error of a body names a reason that holds of the database.\<close>

lemma TopUp_tx_errors:
  assumes "TopUp_tx S req key h w = (Inl e, w')"
  shows "is_internal e \<or> e = in_use \<and> key \<noteq> [] \<or>
    e = not_found \<and> (SystemWalletID = tu_WalletID req \<or>
      (\<forall>x\<in>set (wallets (db w)). wallet_live x \<longrightarrow> ID x \<noteq> SystemWalletID) \<or>
      (\<forall>x\<in>set (wallets (db w)). wallet_live x \<longrightarrow> ID x \<noteq> tu_WalletID req)) \<or>
    e = AppErr WalletNotActive \<and> (\<exists>x\<in>set (wallets (db w)). wallet_live x \<and> \<not> IsActive x \<and>
      ID x = tu_WalletID req)"
  using record_errors [OF assms [unfolded TopUp_tx_def Let_def resolveTopUp_eq]]
proof (elim disjE exE conjE, goal_cases)
  case (3 rec w1)
  from lookup_errors [OF 3(1) refl 3(2)] show ?case
  proof (elim disjE exE conjE, goal_cases)
    case (5 x y w2)
    from 5(7) [unfolded case_prod_conv] have "e = AppErr WalletNotActive \<and> \<not> IsActive y \<or> is_internal e"
    proof (rule check_errors, goal_cases)
      case 2
      from 2(2) have "is_internal e" by (rule tail_internal) (intro errs_intros internal_ex)
      then show ?case ..
    qed blast
    with 5 show ?case by blast
  qed blast+
qed blast+

lemma Transfer_tx_errors:
  assumes "Transfer_tx S req key h w = (Inl e, w')"
  shows "is_internal e \<or> e = in_use \<and> key \<noteq> [] \<or>
    e = not_found \<and> (tr_SourceWalletID req = tr_DestinationWalletID req \<or>
      (\<forall>x\<in>set (wallets (db w)). wallet_live x \<longrightarrow> ID x \<noteq> tr_SourceWalletID req) \<or>
      (\<forall>x\<in>set (wallets (db w)). wallet_live x \<longrightarrow> ID x \<noteq> tr_DestinationWalletID req)) \<or>
    e = AppErr WalletNotActive \<and> (\<exists>x\<in>set (wallets (db w)). wallet_live x \<and> \<not> IsActive x \<and>
      (ID x = tr_SourceWalletID req \<or> ID x = tr_DestinationWalletID req)) \<or>
    e = AppErr InsufficientFunds \<and> (\<exists>x\<in>set (wallets (db w)). wallet_live x \<and>
      ID x = tr_SourceWalletID req \<and> sint (BalanceCachedMinor x) < sint (tr_AmountMinor req))"
  using record_errors [OF assms [unfolded Transfer_tx_def Let_def]]
proof (elim disjE exE conjE, goal_cases)
  case (3 rec w1)
  from lookup_errors [OF 3(1) refl 3(2)] show ?case
  proof (elim disjE exE conjE, goal_cases)
    case (5 x y w2)
    from 5(7) [unfolded case_prod_conv] have
      "e = AppErr WalletNotActive \<and> (\<not> IsActive x \<or> \<not> IsActive y) \<or>
       e = AppErr InsufficientFunds \<and> sint (BalanceCachedMinor x) < sint (tr_AmountMinor req) \<or> is_internal e"
    proof (rule check_errors, goal_cases)
      case 2
      from 2(2) show ?case
      proof (rule check_errors, goal_cases)
        case 2
        from 2(2) have "is_internal e" by (rule tail_internal) (intro errs_intros internal_ex)
        then show ?case by blast
      qed blast
    qed blast
    with 5 show ?case by blast
  qed blast+
qed blast+

text \<open>The reversal: the original is looked up first.\<close>

lemma Reverse_tx_errors:
  assumes "Reverse_tx S i key h w = (Inl e, w')"
  shows "is_internal e \<or> e = in_use \<and> key \<noteq> [] \<or> e = not_found \<or> e = invalid \<or>
    (\<exists>orig\<in>set (transactions (db w)). ID orig = i \<and>
      (e = AppErr AlreadyReversed \<and> Status orig = TransactionStatusReversed \<or>
       e = AppErr InsufficientFunds \<and> (\<exists>y\<in>set (wallets (db w)). wallet_live y \<and>
         DestinationWalletID orig = Some (ID y) \<and>
         sint (BalanceCachedMinor y) < sint (AmountMinor orig))))"
  using record_errors [OF assms [unfolded Reverse_tx_def Let_def]]
proof (elim disjE exE conjE, goal_cases)
  case (3 rec w1)
  obtain q v where g: "TransactionRepository_GetByIDForUpdate (ts_env S) i w1 = (q, v)"
    by (cases "TransactionRepository_GetByIDForUpdate (ts_env S) i w1")
  have v: "db v = db w1" by (rule visible_db [OF keepsD [OF keeps_Get(5) g]])
  show ?case
  proof (cases q)
    case (Inl e')
    with 3(2) g show ?thesis by (auto simp: tryE_def throwE_def split: if_splits)
  next
    case (Inr orig)
    have o: "orig \<in> set (transactions (db w))" "ID orig = i"
      using Get_Inr(5) [OF g [unfolded Inr]] record_start [OF 3(1)] by auto
    from try_errors [OF 3(2) g [unfolded Inr]] show ?thesis
    proof (rule check_errors, goal_cases)
      case 1
      with o show ?case by blast
    next
      case 2
      from 2(2) show ?case
      proof (rule check_errors, goal_cases)
        case 1
        then show ?case by blast
      next
        case run: 2
        show ?case
        proof (cases "\<exists>a b. SourceWalletID orig = Some a \<and> DestinationWalletID orig = Some b")
          case True
          then obtain a b where ab: "SourceWalletID orig = Some a" "DestinationWalletID orig = Some b"
            by blast
          from lookup_errors [OF 3(1) v run(2) [unfolded ab prod.case option.case]] show ?thesis
          proof (elim disjE exE conjE, goal_cases)
            case (5 x y w2)
            from 5(7) [unfolded case_prod_conv] have
              "e = AppErr InsufficientFunds \<and> sint (BalanceCachedMinor y) < sint (AmountMinor orig) \<or> is_internal e"
            proof (rule check_errors, goal_cases)
              case 2
              from 2(2) have "is_internal e" by (rule tail_internal) (intro errs_intros internal_ex)
              then show ?case ..
            qed blast
            with 5 o ab show ?case by blast
          qed blast+
        next
          case False
          with run(2) show ?thesis by (auto simp: throwE_def split: option.splits)
        qed
      qed
    qed
  qed
qed blast+

end

end
