(* ===== verification/Operations.thy ===== *)
theory Operations
  imports Reasons
begin

text \<open>
  The outer functions of the transaction service: every run of \<open>TopUp\<close>, \<open>Transfer\<close> and \<open>Reverse\<close>
  fails and changes nothing, or replays a stored response and changes nothing, or commits one
  proper posting and refreshes the cache.
\<close>

section \<open>The bodies work on the database only, and their errors have reasons\<close>

context transaction_service_laws
begin

lemma keeps_createIdempotencyRecord [keeps_intros]:
  "keeps outside (createIdempotencyRecord (ts_env S) key ep h ttl)"
  unfolding createIdempotencyRecord_def by (intro keeps_intros)

lemma keeps_Update [keeps_intros]:
  "keeps outside (WalletRepository_Update (ts_env S) wl)"
  "keeps outside (TransactionRepository_Update (ts_env S) t)"
  using wallets.keeps_Save[of wl] transactions.keeps_Save[of t]
  by (simp_all add: keeps_def outside_def WalletRepository_Update_def TransactionRepository_Update_def)

lemma keeps_saveResponse [keeps_intros]: "keeps outside (saveResponse (ts_env S) rec resp i)"
  unfolding saveResponse_def by (intro keeps_intros)

lemma keeps_bodies:
  "keeps outside (TopUp_tx S req key h)" "keeps outside (Transfer_tx S treq key h)"
  "keeps outside (Reverse_tx S i key h)"
  unfolding TopUp_tx_def Transfer_tx_def Reverse_tx_def Let_def by (intro keeps_intros)+

lemma Transaction_fails:
  assumes "withTransaction (ts_env S) f w = (Inl e, w')" "keeps outside f"
  shows "visible w' = visible w"
proof (rule Transaction_Inl [OF assms(1) [unfolded withTransaction_def]])
  show "keeps kv f" "keeps streams f" using assms(2) by (auto simp: keeps_def outside_def)
qed

end

text \<open>
  The common shape of the three operations: \<open>body\<close> is the function passed to the transaction,
  \<open>hash\<close> the hash of the request, \<open>ep\<close> the endpoint.
\<close>

definition guarded :: "'h transaction_service \<Rightarrow> string \<Rightarrow> string \<Rightarrow> string \<Rightarrow> ('h, tx_result) go \<Rightarrow> ('h, transaction_response \<times> int) go" where
  "guarded S key ep hash body =
    bindE (getIdempotencyReplay (ts_env S) key ep hash) (\<lambda>(replayed, statusCode, _).
    if statusCode \<noteq> 0 then returnE (replayed, statusCode)
    else bindE (withTransaction (ts_env S) body) (\<lambda>(response, touched).
      bindE (touchedWallets (ts_cacheStore S) touched) (\<lambda>_. returnE (response, 201))))"

text \<open>A replay: the stored response of the same key, endpoint and request.\<close>

definition replays :: "'h runtime \<Rightarrow> string \<Rightarrow> string \<Rightarrow> string \<Rightarrow> db \<Rightarrow> transaction_response \<Rightarrow> int \<Rightarrow> bool" where
  "replays R key ep hash d resp st \<longleftrightarrow> (\<exists>r\<in>set (idempotency_keys d). idem_Key r = key \<and>
    idem_Endpoint r = ep \<and> RequestHash r = hash \<and> ResponseStatusCode r = Some st \<and> st \<noteq> 0 \<and>
    (\<exists>body. ResponseBodyJSON r = Some body \<and> response_of_json R body = Inr resp))"

definition committed ::
  "'h runtime \<Rightarrow> db \<Rightarrow> string \<Rightarrow> string \<Rightarrow> transaction \<Rightarrow> transaction_response \<Rightarrow> db \<Rightarrow> bool" where
  "committed R d key hash t resp d' \<longleftrightarrow>
    posting R d key hash t d' \<and> proper d t \<and> resp = TransactionFromModel t"

text \<open>What an operation does to the database, in one statement.\<close>

definition money_step :: "'h runtime \<Rightarrow> 'h world \<Rightarrow> 'h world \<Rightarrow> bool" where
  "money_step R w w' \<longleftrightarrow> visible w' = visible w \<or>
    (streams w' = streams w \<and> (\<exists>key hash t. posting R (db w) key hash t (db w') \<and> proper (db w) t))"

text \<open>The cache the service holds, if any.\<close>

locale money_laws = transaction_service_laws S + balance_cache_laws C content
  for S :: "'h transaction_service" and C content +
  assumes cacheStore: "ts_cacheStore S = Some C \<or> ts_cacheStore S = None"
begin

lemma touched_db:
  assumes "touchedWallets (ts_cacheStore S) ws w = (r, w')"
  shows "db w' = db w \<and> streams w' = streams w"
  using cacheStore
proof
  assume "ts_cacheStore S = Some C"
  with keepsD [OF keeps_touchedWallets, of ws w r w'] assms show ?thesis by simp
next
  assume "ts_cacheStore S = None"
  with assms show ?thesis by (simp add: returnE_eq)
qed

lemma touched_Inr: "\<exists>w'. touchedWallets (ts_cacheStore S) ws w = (Inr (), w')"
  using cacheStore touchedWallets_Inr[of ws w] by (auto simp: returnE_def)

lemma hash_step: "bindE (onErr internal (liftR (hashRequest R j))) f = f (sha256_hex R j)"
  by (simp add: hashRequest_def fun_eq_iff bindE_def onErr_def handleE_def liftR_def)

lemma TopUp_guarded: "TopUp S req key = guarded S key topUpEndpoint
    (sha256_hex (RT (ts_env S)) (top_up_to_json (RT (ts_env S)) req))
    (TopUp_tx S req key (sha256_hex (RT (ts_env S)) (top_up_to_json (RT (ts_env S)) req)))"
  by (simp add: TopUp_def guarded_def Let_def hash_step)

lemma Transfer_guarded: "tr_SourceWalletID req \<noteq> tr_DestinationWalletID req \<Longrightarrow>
    Transfer S req key = guarded S key transferEndpoint
    (sha256_hex (RT (ts_env S)) (transfer_to_json (RT (ts_env S)) req))
    (Transfer_tx S req key (sha256_hex (RT (ts_env S)) (transfer_to_json (RT (ts_env S)) req)))"
  by (simp add: Transfer_def guarded_def Let_def hash_step)

lemma Reverse_guarded: "Reverse S i key = guarded S key reverseEndpoint
    (sha256_hex (RT (ts_env S)) (reverse_to_json (RT (ts_env S)) i))
    (Reverse_tx S i key (sha256_hex (RT (ts_env S)) (reverse_to_json (RT (ts_env S)) i)))"
  by (simp add: Reverse_def guarded_def Let_def hash_step)

lemma guarded_Inr:
  assumes "guarded S key ep hash body w = (Inr (resp, st), w')"
  obtains (replay) "replays (RT (ts_env S)) key ep hash (db w) resp st" "visible w' = visible w"
  | (commit) w1 w2 touched where "visible w1 = visible w" "body w1 = (Inr (resp, touched), w2)"
      "st = 201" "db w' = db w2" "streams w' = streams w2"
      "\<exists>w3 r. visible w3 = visible w2 \<and> touchedWallets (ts_cacheStore S) touched w3 = (r, w')"
proof -
  obtain resp0 st0 rec w1 where g: "getIdempotencyReplay (ts_env S) key ep hash w = (Inr (resp0, st0, rec), w1)"
    and rest: "(if st0 \<noteq> 0 then returnE (resp0, st0)
      else bindE (withTransaction (ts_env S) body) (\<lambda>(response, touched).
        bindE (touchedWallets (ts_cacheStore S) touched) (\<lambda>_. returnE (response, 201)))) w1 = (Inr (resp, st), w')"
    using assms unfolding guarded_def by (auto simp: bindE_Inr)
  have v: "visible w1 = visible w" by (rule keepsD [OF keeps_getIdempotencyReplay g])
  show thesis
  proof (cases "st0 = 0")
    case False
    with rest v getIdempotencyReplay_Inr [OF g False] show thesis
      by (intro replay) (auto simp: returnE_eq replays_def)
  next
    case True
    with rest obtain touched w2 w3 where t: "withTransaction (ts_env S) body w1 = (Inr (resp, touched), w2)"
      and c: "touchedWallets (ts_cacheStore S) touched w2 = (Inr (), w3)" "w' = w3" "st = 201"
      by (auto simp: bindE_Inr returnE_eq)
    from t obtain v1 v2 where b: "visible v1 = visible w1" "body v1 = (Inr (resp, touched), v2)"
      "visible w2 = visible v2"
      unfolding withTransaction_def by (rule Transaction_Inr)
    show thesis
      by (rule commit [OF _ b(2)]) (use b v c touched_db [OF c(1)] in \<open>auto simp: visible_eq\<close>)
  qed
qed

lemma guarded_Inl:
  assumes "guarded S key ep hash body w = (Inl e, w')" "keeps outside body"
  shows "visible w' = visible w"
proof -
  obtain r w1 where g: "getIdempotencyReplay (ts_env S) key ep hash w = (r, w1)"
    by (cases "getIdempotencyReplay (ts_env S) key ep hash w")
  have v: "visible w1 = visible w" by (rule keepsD [OF keeps_getIdempotencyReplay g])
  show ?thesis
  proof (cases r)
    case (Inl err)
    with assms g v show ?thesis by (simp add: guarded_def bindE_def)
  next
    case (Inr a)
    obtain resp0 st0 rec where a: "a = (resp0, st0, rec)" by (cases a)
    with assms(1) g Inr have "st0 = 0" by (auto simp: guarded_def bindE_def returnE_def split: if_splits)
    moreover obtain q w2 where t: "withTransaction (ts_env S) body w1 = (q, w2)"
      by (cases "withTransaction (ts_env S) body w1")
    ultimately have "q = Inl e \<and> w' = w2"
    proof (cases q)
      case Inr': (Inr x)
      obtain resp touched where "x = (resp, touched)" by (cases x)
      moreover obtain w3 where "touchedWallets (ts_cacheStore S) touched w2 = (Inr (), w3)"
        using touched_Inr by blast
      ultimately show ?thesis using assms(1) g Inr a \<open>st0 = 0\<close> t Inr'
        by (simp add: guarded_def bindE_def returnE_def)
    qed (use assms(1) g Inr a t in \<open>simp add: guarded_def bindE_def\<close>)
    with Transaction_fails [OF _ assms(2), of w1 e w2] t v show ?thesis by simp
  qed
qed

text \<open>An application error comes from the replay check or from the body.\<close>

lemma guarded_AppErr:
  assumes "guarded S key ep hash body w = (Inl (AppErr a), w')"
  obtains (conflict) "key \<noteq> []" "a = IdempotencyConflict"
      "\<exists>r\<in>set (idempotency_keys (db w)). idem_Key r = key \<and> idem_Endpoint r = ep \<and> RequestHash r \<noteq> hash"
  | (failed) e where "AppErr a = internal e"
  | (body) w1 w2 where "visible w1 = visible w" "body w1 = (Inl (AppErr a), w2)"
proof -
  obtain r w1 where g: "getIdempotencyReplay (ts_env S) key ep hash w = (r, w1)"
    by (cases "getIdempotencyReplay (ts_env S) key ep hash w")
  have v: "visible w1 = visible w" by (rule keepsD [OF keeps_getIdempotencyReplay g])
  show thesis
  proof (cases r)
    case (Inl err)
    with assms g have "getIdempotencyReplay (ts_env S) key ep hash w = (Inl (AppErr a), w1)"
      by (simp add: guarded_def bindE_def)
    then have "key \<noteq> [] \<and> ((\<exists>e. AppErr a = internal e) \<or> a = IdempotencyConflict \<and>
      (\<exists>r s. IdempotencyRepository_Get (ts_env S) key ep w = (Inr r, s) \<and> RequestHash r \<noteq> hash))"
      by (auto simp: getIdempotencyReplay_def prog_simps split: if_splits)
    then show thesis using conflict failed Get_Inr(6) by blast
  next
    case (Inr x)
    obtain resp0 st0 rec where x: "x = (resp0, st0, rec)" by (cases x)
    with assms(1) g Inr have s: "st0 = 0" by (auto simp: guarded_def bindE_def returnE_def split: if_splits)
    obtain q w2 where t: "withTransaction (ts_env S) body w1 = (q, w2)"
      by (cases "withTransaction (ts_env S) body w1")
    have "q = Inl (AppErr a)"
    proof (cases q)
      case Inr': (Inr y)
      obtain resp touched where "y = (resp, touched)" by (cases y)
      moreover obtain w3 where "touchedWallets (ts_cacheStore S) touched w2 = (Inr (), w3)"
        using touched_Inr by blast
      ultimately show ?thesis using assms(1) g Inr x s t Inr'
        by (simp add: guarded_def bindE_def returnE_def)
    qed (use assms(1) g Inr x s t in \<open>simp add: guarded_def bindE_def\<close>)
    with t Transaction_AppErr [of body w1 a w2] v show thesis
      unfolding withTransaction_def by (metis body)
  qed
qed

section \<open>The operations\<close>

lemma TopUp_Inr:
  assumes "TopUp S req key w = (Inr (resp, st), w')" "wf_db (db w)"
  obtains (replay) "replays (RT (ts_env S)) key topUpEndpoint
      (sha256_hex (RT (ts_env S)) (top_up_to_json (RT (ts_env S)) req)) (db w) resp st" "visible w' = visible w"
  | (commit) t y where "committed (RT (ts_env S)) (db w) key
      (sha256_hex (RT (ts_env S)) (top_up_to_json (RT (ts_env S)) req)) t resp (db w')"
      "st = 201" "streams w' = streams w" "Type t = TransactionTypeTopUp"
      "SourceWalletID t = Some SystemWalletID" "DestinationWalletID t = Some (tu_WalletID req)"
      "AmountMinor t = tu_AmountMinor req" "MetadataJSON t = toJSONMap (tu_Metadata req)"
      "y \<in> set (wallets (db w))" "ID y = tu_WalletID req" "wallet_live y" "IsActive y"
  using assms(1) [unfolded TopUp_guarded]
proof (cases rule: guarded_Inr)
  case replay
  then show thesis by (rule that(1))
next
  case (commit w1 w2 touched)
  have d: "db w1 = db w" "outside w2 = outside w1" "outside w1 = outside w"
    using commit(1) keepsD [OF keeps_bodies(1) commit(2)] by (simp_all add: visible_iff)
  from TopUp_tx_posting [OF commit(2)] assms(2) d(1) obtain t y where
    "posting (RT (ts_env S)) (db w) key
      (sha256_hex (RT (ts_env S)) (top_up_to_json (RT (ts_env S)) req)) t (db w2)"
    "proper (db w) t" "resp = TransactionFromModel t" "Type t = TransactionTypeTopUp"
    "SourceWalletID t = Some SystemWalletID" "DestinationWalletID t = Some (tu_WalletID req)"
    "AmountMinor t = tu_AmountMinor req" "MetadataJSON t = toJSONMap (tu_Metadata req)"
    "y \<in> set (wallets (db w))" "ID y = tu_WalletID req" "wallet_live y" "IsActive y"
    by auto
  then show thesis
    by (intro that(2) [of t y]) (use commit d in \<open>auto simp: committed_def outside_def\<close>)
qed

lemma Transfer_Inr:
  assumes "Transfer S req key w = (Inr (resp, st), w')" "wf_db (db w)"
  obtains (replay) "replays (RT (ts_env S)) key transferEndpoint
      (sha256_hex (RT (ts_env S)) (transfer_to_json (RT (ts_env S)) req)) (db w) resp st" "visible w' = visible w"
  | (commit) t x y where "committed (RT (ts_env S)) (db w) key
      (sha256_hex (RT (ts_env S)) (transfer_to_json (RT (ts_env S)) req)) t resp (db w')"
      "st = 201" "streams w' = streams w" "Type t = TransactionTypeTransfer"
      "SourceWalletID t = Some (tr_SourceWalletID req)"
      "DestinationWalletID t = Some (tr_DestinationWalletID req)"
      "AmountMinor t = tr_AmountMinor req" "MetadataJSON t = toJSONMap (tr_Metadata req)"
      "x \<in> set (wallets (db w))" "ID x = tr_SourceWalletID req" "wallet_live x" "IsActive x"
      "y \<in> set (wallets (db w))" "ID y = tr_DestinationWalletID req" "wallet_live y" "IsActive y"
      "sint (tr_AmountMinor req) \<le> sint (BalanceCachedMinor x)"
proof -
  have "tr_SourceWalletID req \<noteq> tr_DestinationWalletID req"
    using assms(1) by (auto simp: Transfer_def throwE_def)
  note run = assms(1) [unfolded Transfer_guarded [OF this]]
  from run show thesis
  proof (cases rule: guarded_Inr)
    case replay
    then show thesis by (rule that(1))
  next
    case (commit w1 w2 touched)
    have d: "db w1 = db w" "outside w2 = outside w1" "outside w1 = outside w"
      using commit(1) keepsD [OF keeps_bodies(2) commit(2)] by (simp_all add: visible_iff)
    from Transfer_tx_posting [OF commit(2)] assms(2) d(1) obtain t x y where
      "posting (RT (ts_env S)) (db w) key
        (sha256_hex (RT (ts_env S)) (transfer_to_json (RT (ts_env S)) req)) t (db w2)"
      "proper (db w) t" "resp = TransactionFromModel t" "Type t = TransactionTypeTransfer"
      "SourceWalletID t = Some (tr_SourceWalletID req)"
      "DestinationWalletID t = Some (tr_DestinationWalletID req)"
      "AmountMinor t = tr_AmountMinor req" "MetadataJSON t = toJSONMap (tr_Metadata req)"
      "x \<in> set (wallets (db w))" "ID x = tr_SourceWalletID req" "wallet_live x" "IsActive x"
      "y \<in> set (wallets (db w))" "ID y = tr_DestinationWalletID req" "wallet_live y" "IsActive y"
      "sint (tr_AmountMinor req) \<le> sint (BalanceCachedMinor x)"
      by auto
    then show thesis
      by (intro that(2) [of t x y]) (use commit d in \<open>auto simp: committed_def outside_def\<close>)
  qed
qed

lemma Reverse_Inr:
  assumes "Reverse S i key w = (Inr (resp, st), w')" "wf_db (db w)" "transactions_ok (db w)"
  obtains (replay) "replays (RT (ts_env S)) key reverseEndpoint
      (sha256_hex (RT (ts_env S)) (reverse_to_json (RT (ts_env S)) i)) (db w) resp st" "visible w' = visible w"
  | (commit) t orig y where "committed (RT (ts_env S)) (db w) key
      (sha256_hex (RT (ts_env S)) (reverse_to_json (RT (ts_env S)) i)) t resp (db w')"
      "st = 201" "streams w' = streams w" "Type t = TransactionTypeReversal"
      "orig \<in> set (transactions (db w))" "ID orig = i" "RelatedTransactionID t = Some i"
      "Status orig = TransactionStatusCompleted" "Type orig \<noteq> TransactionTypeReversal"
      "SourceWalletID t = DestinationWalletID orig" "DestinationWalletID t = SourceWalletID orig"
      "AmountMinor t = AmountMinor orig" "y \<in> set (wallets (db w))" "wallet_live y"
      "DestinationWalletID orig = Some (ID y)"
      "sint (AmountMinor orig) \<le> sint (BalanceCachedMinor y)"
  using assms(1) [unfolded Reverse_guarded]
proof (cases rule: guarded_Inr)
  case replay
  then show thesis by (rule that(1))
next
  case (commit w1 w2 touched)
  have d: "db w1 = db w" "outside w2 = outside w1" "outside w1 = outside w"
    using commit(1) keepsD [OF keeps_bodies(3) commit(2)] by (simp_all add: visible_iff)
  from Reverse_tx_posting [OF commit(2)] assms(2,3) d(1) obtain t orig y where
    "posting (RT (ts_env S)) (db w) key
      (sha256_hex (RT (ts_env S)) (reverse_to_json (RT (ts_env S)) i)) t (db w2)"
    "proper (db w) t" "resp = TransactionFromModel t" "Type t = TransactionTypeReversal"
    "orig \<in> set (transactions (db w))" "ID orig = i" "RelatedTransactionID t = Some i"
    "Status orig = TransactionStatusCompleted" "Type orig \<noteq> TransactionTypeReversal"
    "SourceWalletID t = DestinationWalletID orig" "DestinationWalletID t = SourceWalletID orig"
    "AmountMinor t = AmountMinor orig" "y \<in> set (wallets (db w))" "wallet_live y"
    "DestinationWalletID orig = Some (ID y)" "sint (AmountMinor orig) \<le> sint (BalanceCachedMinor y)"
    by auto
  then show thesis
    by (intro that(2) [of t orig y]) (use commit d in \<open>auto simp: committed_def outside_def\<close>)
qed

text \<open>An operation that fails has changed nothing.\<close>

lemma money_Inl:
  "TopUp S req key w = (Inl e, w') \<Longrightarrow> visible w' = visible w"
  "Transfer S treq key w = (Inl e, w') \<Longrightarrow> visible w' = visible w"
  "Reverse S i key w = (Inl e, w') \<Longrightarrow> visible w' = visible w"
proof -
  show "TopUp S req key w = (Inl e, w') \<Longrightarrow> visible w' = visible w"
    unfolding TopUp_guarded by (rule guarded_Inl [OF _ keeps_bodies(1)])
  show "Reverse S i key w = (Inl e, w') \<Longrightarrow> visible w' = visible w"
    unfolding Reverse_guarded by (rule guarded_Inl [OF _ keeps_bodies(3)])
  assume t: "Transfer S treq key w = (Inl e, w')"
  show "visible w' = visible w"
  proof (cases "tr_SourceWalletID treq = tr_DestinationWalletID treq")
    case True
    with t show ?thesis by (simp add: Transfer_def throwE_def)
  next
    case False
    from t [unfolded Transfer_guarded [OF False]] show ?thesis
      by (rule guarded_Inl [OF _ keeps_bodies(2)])
  qed
qed

lemma TopUp_step:
  assumes "TopUp S req key w = (r, w')" "wf_db (db w)"
  shows "money_step (RT (ts_env S)) w w'"
proof (cases r)
  case (Inl e)
  with money_Inl(1) assms(1) show ?thesis by (auto simp: money_step_def)
next
  case (Inr a)
  obtain resp st where "a = (resp, st)" by (cases a)
  with Inr assms(1) have run: "TopUp S req key w = (Inr (resp, st), w')" by simp
  from TopUp_Inr [OF run assms(2)] show ?thesis
    by cases (auto simp: money_step_def committed_def)
qed

lemma Transfer_step:
  assumes "Transfer S req key w = (r, w')" "wf_db (db w)"
  shows "money_step (RT (ts_env S)) w w'"
proof (cases r)
  case (Inl e)
  with money_Inl(2) assms(1) show ?thesis by (auto simp: money_step_def)
next
  case (Inr a)
  obtain resp st where "a = (resp, st)" by (cases a)
  with Inr assms(1) have run: "Transfer S req key w = (Inr (resp, st), w')" by simp
  from Transfer_Inr [OF run assms(2)] show ?thesis
    by cases (auto simp: money_step_def committed_def)
qed

lemma Reverse_step:
  assumes "Reverse S i key w = (r, w')" "wf_db (db w)" "transactions_ok (db w)"
  shows "money_step (RT (ts_env S)) w w'"
proof (cases r)
  case (Inl e)
  with money_Inl(3) assms(1) show ?thesis by (auto simp: money_step_def)
next
  case (Inr a)
  obtain resp st where "a = (resp, st)" by (cases a)
  with Inr assms(1) have run: "Reverse S i key w = (Inr (resp, st), w')" by simp
  from Reverse_Inr [OF run assms(2-3)] show ?thesis
    by cases (auto simp: money_step_def committed_def)
qed

end

end
