(* ===== verification/Config.thy ===== *)
theory Config
  imports AppError
begin

text \<open>
  \<open>internal/config/config.go\<close>: the configuration read from the environment. The environment is a
  map from names to values; \<open>time.ParseDuration\<close> is written out (the fraction of a unit is taken
  exactly and rounded down, where Go computes it in float64). A duration is a number of
  nanoseconds.
\<close>

section \<open>time.ParseDuration\<close>

fun leadingInt :: "nat \<Rightarrow> string \<Rightarrow> (nat \<times> string) option" where
  "leadingInt x [] = Some (x, [])"
| "leadingInt x (c # s) =
    (if \<not> is_digit c then Some (x, c # s)
     else if x > 2 ^ 63 div 10 then None
     else let y = x * 10 + digit_val c in if y > 2 ^ 63 then None else leadingInt y s)"

text \<open>Digits past the precision of 63 bits are read and dropped.\<close>

fun leadingFraction :: "nat \<Rightarrow> nat \<Rightarrow> bool \<Rightarrow> string \<Rightarrow> nat \<times> nat \<times> string" where
  "leadingFraction x scale over [] = (x, scale, [])"
| "leadingFraction x scale over (c # s) =
    (if \<not> is_digit c then (x, scale, c # s)
     else if over then leadingFraction x scale over s
     else if x > (2 ^ 63 - 1) div 10 then leadingFraction x scale True s
     else let y = x * 10 + digit_val c in
       if y > 2 ^ 63 then leadingFraction x scale True s else leadingFraction y (scale * 10) over s)"

definition Nanosecond :: nat where "Nanosecond = 1"
definition Microsecond :: nat where "Microsecond = 1000"
definition Millisecond :: nat where "Millisecond = 1000000"
definition Second :: nat where "Second = 1000000000"
definition Minute :: nat where "Minute = 60000000000"
definition Hour :: nat where "Hour = 3600000000000"

lemmas duration_defs = Nanosecond_def Microsecond_def Millisecond_def Second_def Minute_def Hour_def

text \<open>The micro sign has two encodings, each two bytes of UTF-8.\<close>

definition unitMap :: "string \<Rightarrow> nat option" where
  "unitMap = map_of
    [(''ns'', Nanosecond), (''us'', Microsecond), ([CHR 0xC2, CHR 0xB5, CHR ''s''], Microsecond),
     ([CHR 0xCE, CHR 0xBC, CHR ''s''], Microsecond), (''ms'', Millisecond), (''s'', Second),
     (''m'', Minute), (''h'', Hour)]"

definition in_unit :: "char \<Rightarrow> bool" where
  "in_unit c \<longleftrightarrow> c \<noteq> CHR ''.'' \<and> \<not> is_digit c"

text \<open>One round of the loop: a number, a unit, and what is left of the text.\<close>

definition duration_part :: "string \<Rightarrow> (nat \<times> string) option" where
  "duration_part s = (case s of [] \<Rightarrow> None | c # _ \<Rightarrow>
    if \<not> (c = CHR ''.'' \<or> is_digit c) then None
    else (case leadingInt 0 s of None \<Rightarrow> None | Some (v, s1) \<Rightarrow>
      let pre = (length s1 \<noteq> length s);
          dot = (s1 \<noteq> [] \<and> hd s1 = CHR ''.'');
          (f, scale, s2) = (if dot then leadingFraction 0 1 False (tl s1) else (0, 1, s1));
          post = (dot \<and> length s2 \<noteq> length (tl s1));
          u = takeWhile in_unit s2; s3 = dropWhile in_unit s2
      in if \<not> pre \<and> \<not> post then None
         else if u = [] then None
         else (case unitMap u of None \<Rightarrow> None | Some unit \<Rightarrow>
           if v > 2 ^ 63 div unit then None
           else let w = v * unit + (if f > 0 then f * unit div scale else 0)
                in if w > 2 ^ 63 then None else Some (w, s3))))"

lemma leadingInt_length: "leadingInt x s = Some (y, s') \<Longrightarrow> length s' \<le> length s"
proof (induction s arbitrary: x)
  case Nil
  then show ?case by simp
next
  case (Cons c s)
  then show ?case by (fastforce simp: Let_def split: if_splits)
qed

lemma leadingFraction_length: "leadingFraction x sc ov s = (y, sc', s') \<Longrightarrow> length s' \<le> length s"
proof (induction s arbitrary: x sc ov)
  case Nil
  then show ?case by simp
next
  case (Cons c s)
  then show ?case by (fastforce simp: Let_def split: if_splits)
qed

lemma duration_part_shorter:
  assumes "duration_part s = Some (w, s')"
  shows "length s' < length s"
proof -
  obtain v s1 where l: "leadingInt 0 s = Some (v, s1)"
    using assms by (auto simp: duration_part_def split: list.splits if_splits option.splits)
  define fs where "fs = (if s1 \<noteq> [] \<and> hd s1 = CHR ''.'' then leadingFraction 0 1 False (tl s1) else (0, 1, s1))"
  obtain f sc s2 where fs2: "fs = (f, sc, s2)" by (cases fs)
  have "length s2 \<le> length s1"
    using fs2 leadingFraction_length[of 0 1 False "tl s1" f sc s2]
    by (auto simp: fs_def split: if_splits)
  with leadingInt_length [OF l] have s2: "length s2 \<le> length s" by simp
  have "takeWhile in_unit s2 \<noteq> []" "s' = dropWhile in_unit s2"
    using assms l fs2 unfolding fs_def
    by (auto simp: duration_part_def Let_def split: list.splits if_splits option.splits)
  moreover have "length (takeWhile in_unit s2) + length (dropWhile in_unit s2) = length s2"
    by (metis length_append takeWhile_dropWhile_id)
  ultimately show ?thesis using s2 by (cases "takeWhile in_unit s2") auto
qed

function duration_parts :: "nat \<Rightarrow> string \<Rightarrow> nat option" where
  "duration_parts d s = (if s = [] then Some d else (case duration_part s of None \<Rightarrow> None
     | Some (v, s') \<Rightarrow> if d + v > 2 ^ 63 then None else duration_parts (d + v) s'))"
  by pat_completeness auto
termination by (relation "measure (\<lambda>(d, s). length s)") (auto dest: duration_part_shorter)

declare duration_parts.simps [simp del]

definition ParseDuration :: "string \<Rightarrow> int option" where
  "ParseDuration orig =
    (let neg = (case orig of c # _ \<Rightarrow> c = CHR ''-'' | [] \<Rightarrow> False);
         signed = (case orig of c # _ \<Rightarrow> c = CHR ''-'' \<or> c = CHR ''+'' | [] \<Rightarrow> False);
         s = (if signed then tl orig else orig)
     in if s = ''0'' then Some 0
        else if s = [] then None
        else (case duration_parts 0 s of None \<Rightarrow> None
          | Some d \<Rightarrow> if neg then Some (- int d) else if d > 2 ^ 63 - 1 then None else Some (int d)))"

lemma duration_parts_bound: "duration_parts d s = Some r \<Longrightarrow> d \<le> 2 ^ 63 \<Longrightarrow> r \<le> 2 ^ 63"
proof (induction d s rule: duration_parts.induct)
  case (1 d s)
  then show ?case
    by (subst (asm) (2) duration_parts.simps) (auto split: if_splits option.splits)
qed

text \<open>A parsed duration fits the 64-bit integer Go keeps it in.\<close>

lemma ParseDuration_range:
  assumes "ParseDuration s = Some d"
  shows "- (2 ^ 63) \<le> d \<and> d < 2 ^ 63"
  using assms duration_parts_bound[of 0]
  by (auto simp: ParseDuration_def Let_def split: if_splits option.splits list.splits)

section \<open>Load\<close>

type_synonym environ = "string \<Rightarrow> string option"

definition envString :: "environ \<Rightarrow> string \<Rightarrow> string \<Rightarrow> string" where
  "envString env key fallback = (case env key of Some v \<Rightarrow> if v \<noteq> [] then v else fallback | None \<Rightarrow> fallback)"

definition envInt :: "environ \<Rightarrow> string \<Rightarrow> int64 \<Rightarrow> int64" where
  "envInt env key fallback = (let v = envString env key [] in
     if v = [] then fallback else (case ParseInt v of Inl _ \<Rightarrow> fallback | Inr parsed \<Rightarrow> parsed))"

definition envDuration :: "environ \<Rightarrow> string \<Rightarrow> int \<Rightarrow> int" where
  "envDuration env key fallback = (let v = envString env key [] in
     if v = [] then fallback else (case ParseDuration v of None \<Rightarrow> fallback | Some parsed \<Rightarrow> parsed))"

record config =
  AppName :: string
  HTTPPort :: string
  DBDSN :: string
  RedisAddr :: string
  RedisPassword :: string
  RedisDB :: int64
  BalanceCacheTTL :: int
  OutboxPollInterval :: int
  OutboxBatchSize :: int64
  IdempotencyTTL :: int
  ShutdownTimeout :: int
  DefaultPageLimit :: int64
  MaxPageLimit :: int64
  PublisherClaimTimeout :: int

definition defaultDBDSN :: string where
  "defaultDBDSN = ''host=localhost user=testWallet password=Wallet11# dbname=wallet_service port=5432 sslmode=disable TimeZone=UTC''"

definition Load :: "environ \<Rightarrow> go_error + config" where
  "Load env = (let cfg =
     \<lparr>AppName = envString env ''APP_NAME'' ''wallet-service-mvp'',
      HTTPPort = envString env ''HTTP_PORT'' ''8080'',
      DBDSN = envString env ''DB_DSN'' defaultDBDSN,
      RedisAddr = envString env ''REDIS_ADDR'' ''localhost:6379'',
      RedisPassword = envString env ''REDIS_PASSWORD'' [],
      RedisDB = envInt env ''REDIS_DB'' 0,
      BalanceCacheTTL = envDuration env ''BALANCE_CACHE_TTL'' (5 * int Minute),
      OutboxPollInterval = envDuration env ''OUTBOX_POLL_INTERVAL'' (2 * int Second),
      OutboxBatchSize = envInt env ''OUTBOX_BATCH_SIZE'' 20,
      IdempotencyTTL = envDuration env ''IDEMPOTENCY_TTL'' (24 * int Hour),
      ShutdownTimeout = envDuration env ''SHUTDOWN_TIMEOUT'' (10 * int Second),
      DefaultPageLimit = envInt env ''DEFAULT_PAGE_LIMIT'' 20,
      MaxPageLimit = envInt env ''MAX_PAGE_LIMIT'' 100,
      PublisherClaimTimeout = envDuration env ''PUBLISHER_CLAIM_TIMEOUT'' (30 * int Second)\<rparr>
   in if sint (OutboxBatchSize cfg) \<le> 0 then Inl (PlainError ''OUTBOX_BATCH_SIZE must be positive'')
      else if sint (DefaultPageLimit cfg) \<le> 0 then Inl (PlainError ''DEFAULT_PAGE_LIMIT must be positive'')
      else if sint (MaxPageLimit cfg) < sint (DefaultPageLimit cfg)
      then Inl (PlainError ''MAX_PAGE_LIMIT must be greater than or equal to DEFAULT_PAGE_LIMIT'')
      else Inr cfg)"

lemma Load_limits:
  assumes "Load env = Inr cfg"
  shows "0 < sint (OutboxBatchSize cfg)" "0 < sint (DefaultPageLimit cfg)"
    "sint (DefaultPageLimit cfg) \<le> sint (MaxPageLimit cfg)"
  using assms by (auto simp: Load_def Let_def split: if_splits)

text \<open>A value that does not parse is not an error: the default is taken.\<close>

lemma envInt_fallback: "ParseInt v = Inl e \<Longrightarrow> env key = Some v \<Longrightarrow> envInt env key d = d"
  by (auto simp: envInt_def envString_def)

text \<open>Every duration of a configuration fits the type \<open>time.Duration\<close>; it may be zero or negative.\<close>

lemma envDuration_range:
  "- (2 ^ 63) \<le> d \<Longrightarrow> d < 2 ^ 63 \<Longrightarrow> - (2 ^ 63) \<le> envDuration env key d \<and> envDuration env key d < 2 ^ 63"
  using ParseDuration_range by (auto simp: envDuration_def Let_def split: option.splits)

lemma Load_durations:
  assumes "Load env = Inr cfg"
    and "d \<in> {BalanceCacheTTL cfg, OutboxPollInterval cfg, IdempotencyTTL cfg, ShutdownTimeout cfg,
      PublisherClaimTimeout cfg}"
  shows "- (2 ^ 63) \<le> d \<and> d < 2 ^ 63"
proof -
  have units: "int Minute = 60000000000" "int Second = 1000000000" "int Hour = 3600000000000"
    by (simp_all add: duration_defs)
  from assms have "d \<in> {envDuration env ''BALANCE_CACHE_TTL'' (5 * int Minute),
      envDuration env ''OUTBOX_POLL_INTERVAL'' (2 * int Second), envDuration env ''IDEMPOTENCY_TTL'' (24 * int Hour),
      envDuration env ''SHUTDOWN_TIMEOUT'' (10 * int Second), envDuration env ''PUBLISHER_CLAIM_TIMEOUT'' (30 * int Second)}"
    by (auto simp: Load_def Let_def split: if_splits)
  then show ?thesis unfolding units by - (elim insertE emptyE; hypsubst; rule envDuration_range; simp)
qed

lemma negative_interval: "Load [''OUTBOX_POLL_INTERVAL'' \<mapsto> ''-1s''] = Inr cfg \<Longrightarrow> OutboxPollInterval cfg < 0"
proof -
  have "duration_parts 0 ''1s'' = Some 1000000000" by code_simp
  then show "Load [''OUTBOX_POLL_INTERVAL'' \<mapsto> ''-1s''] = Inr cfg \<Longrightarrow> OutboxPollInterval cfg < 0"
    by (auto simp: Load_def Let_def envDuration_def envString_def ParseDuration_def split: if_splits)
qed

end
