(* ===== verification/System.thy ===== *)
theory System
  imports Operations Config
begin

text \<open>
  The whole program: the wiring of \<open>cmd/api/main.go\<close>, the step relation of its operations on the
  shared world, and the invariants of every world it can reach from a seeded database.
\<close>

section \<open>Wiring\<close>

record 'h app =
  app_users :: "'h user_service"
  app_wallets :: "'h wallet_service"
  app_transactions :: "'h transaction_service"
  app_worker :: "'h worker"

definition NewUserService :: "'h env \<Rightarrow> int64 \<Rightarrow> int64 \<Rightarrow> 'h user_service" where
  "NewUserService E d m = \<lparr>us_env = E, us_pagination = \<lparr>defaultLimit = d, maxLimit = m\<rparr>\<rparr>"

definition NewWalletService :: "'h env \<Rightarrow> 'h balance_cache option \<Rightarrow> 'h wallet_service" where
  "NewWalletService E cacheStore = \<lparr>ws_env = E, ws_cacheStore = cacheStore\<rparr>"

definition NewTransactionService ::
  "'h env \<Rightarrow> 'h balance_cache option \<Rightarrow> int \<Rightarrow> int64 \<Rightarrow> int64 \<Rightarrow> 'h transaction_service" where
  "NewTransactionService E cacheStore ttl d m = \<lparr>ts_env = E, ts_cacheStore = cacheStore,
     idempotencyTTL = ttl, ts_pagination = \<lparr>defaultLimit = d, maxLimit = m\<rparr>\<rparr>"

definition NewWorker :: "'h env \<Rightarrow> 'h stream_publisher \<Rightarrow> int64 \<Rightarrow> string \<Rightarrow> 'h worker" where
  "NewWorker E p n s = \<lparr>wk_env = E, publisher = p, batchSize = n, stream = s\<rparr>"

definition wire :: "'h env \<Rightarrow> 'h redis \<Rightarrow> config \<Rightarrow> 'h app" where
  "wire E redisClient cfg =
    (let cacheStore = NewRedisBalanceCache redisClient (RT E) (BalanceCacheTTL cfg);
         streamPublisher = NewRedisStreamPublisher redisClient
     in \<lparr>app_users = NewUserService E (DefaultPageLimit cfg) (MaxPageLimit cfg),
         app_wallets = NewWalletService E (Some cacheStore),
         app_transactions = NewTransactionService E (Some cacheStore) (IdempotencyTTL cfg)
           (DefaultPageLimit cfg) (MaxPageLimit cfg),
         app_worker = NewWorker E streamPublisher (OutboxBatchSize cfg) StreamName\<rparr>)"

lemmas wire_defs = wire_def Let_def NewUserService_def NewWalletService_def NewTransactionService_def
  NewWorker_def

lemma wire_env [simp]:
  "us_env (app_users (wire E C cfg)) = E" "ws_env (app_wallets (wire E C cfg)) = E"
  "ts_env (app_transactions (wire E C cfg)) = E" "wk_env (app_worker (wire E C cfg)) = E"
  "ws_cacheStore (app_wallets (wire E C cfg)) = Some (NewRedisBalanceCache C (RT E) (BalanceCacheTTL cfg))"
  "ts_cacheStore (app_transactions (wire E C cfg)) = Some (NewRedisBalanceCache C (RT E) (BalanceCacheTTL cfg))"
  "publisher (app_worker (wire E C cfg)) = NewRedisStreamPublisher C"
  "stream (app_worker (wire E C cfg)) = StreamName"
  "batchSize (app_worker (wire E C cfg)) = OutboxBatchSize cfg"
  by (simp_all add: wire_defs)

text \<open>The laws of a wired program are those of the database, the runtime and Redis.\<close>

locale app_laws = env_laws E + redis_laws client for E :: "'h env" and client :: "'h redis" +
  fixes cfg :: config
begin

abbreviation "app \<equiv> wire E client cfg"

end

sublocale app_laws \<subseteq> redis_cache client "RT E" "BalanceCacheTTL cfg"
  by unfold_locales

sublocale app_laws \<subseteq> us: user_service_laws "app_users (wire E client cfg)"
  unfolding user_service_laws_def wire_env by unfold_locales

sublocale app_laws \<subseteq> ws: wallet_service_laws "app_wallets (wire E client cfg)"
  "NewRedisBalanceCache client (RT E) (BalanceCacheTTL cfg)" "cached (RT E)"
  unfolding wallet_service_laws_def wallet_writes_def wallet_service_laws_axioms_def wire_env
  using env_laws_axioms cache.balance_cache_laws_axioms by simp

sublocale app_laws \<subseteq> ts: money_laws "app_transactions (wire E client cfg)"
  "NewRedisBalanceCache client (RT E) (BalanceCacheTTL cfg)" "cached (RT E)"
  unfolding money_laws_def transaction_service_laws_def money_laws_axioms_def wire_env
  using env_laws_axioms cache.balance_cache_laws_axioms by simp

sublocale app_laws \<subseteq> wk: worker_laws "app_worker (wire E client cfg)"
  unfolding worker_laws_def wire_env using env_laws_axioms publisher.stream_publisher_laws_axioms by simp

section \<open>Steps\<close>

text \<open>
  Between two operations only hidden state changes (time passes, connections come and go).
\<close>

inductive api_step :: "'h app \<Rightarrow> 'h world \<Rightarrow> 'h world \<Rightarrow> bool" for A where
  idle: "visible w' = visible w \<Longrightarrow> api_step A w w'"
| create_user: "UserService_Create (app_users A) req w = (r1, w') \<Longrightarrow> api_step A w w'"
| update_user: "UserService_Update (app_users A) i ureq w = (r2, w') \<Longrightarrow> api_step A w w'"
| delete_user: "UserService_Delete (app_users A) i w = (r3, w') \<Longrightarrow> api_step A w w'"
| create_wallet: "WalletService_Create (app_wallets A) wreq w = (r4, w') \<Longrightarrow> api_step A w w'"
| get_balance: "GetBalance (app_wallets A) i w = (r5, w') \<Longrightarrow> api_step A w w'"
| update_status: "UpdateStatus (app_wallets A) i status w = (r6, w') \<Longrightarrow> api_step A w w'"
| top_up: "TopUp (app_transactions A) treq key w = (r7, w') \<Longrightarrow> api_step A w w'"
| transfer: "Transfer (app_transactions A) freq key w = (r8, w') \<Longrightarrow> api_step A w w'"
| reverse: "Reverse (app_transactions A) i key w = (r9, w') \<Longrightarrow> api_step A w w'"
| publish: "PublishPending (app_worker A) w = (r10, w') \<Longrightarrow> api_step A w w'"
| restart: "SeedSystemAccounts (us_env (app_users A)) w = (r11, w') \<Longrightarrow> api_step A w w'"

inductive reachable :: "'h app \<Rightarrow> 'h world \<Rightarrow> 'h world \<Rightarrow> bool" for A w0 where
  start: "reachable A w0 w0"
| step: "reachable A w0 w \<Longrightarrow> api_step A w w' \<Longrightarrow> reachable A w0 w'"

text \<open>A deployment starts from an empty database.\<close>

definition deployed :: "'h app \<Rightarrow> 'h world \<Rightarrow> bool" where
  "deployed A w \<longleftrightarrow> (\<exists>w0. db w0 = empty_db \<and> reachable A w0 w)"

lemma reachable_trans: "reachable A w1 w2 \<Longrightarrow> reachable A w0 w1 \<Longrightarrow> reachable A w0 w2"
  by (induction rule: reachable.induct) (auto intro: reachable.step)

lemma reachable_one: "api_step A w w' \<Longrightarrow> reachable A w w'"
  by (rule reachable.step [OF reachable.start])

lemma deployed_later: "deployed A w \<Longrightarrow> reachable A w w' \<Longrightarrow> deployed A w'"
  unfolding deployed_def using reachable_trans by blast

lemma deployed_step: "deployed A w \<Longrightarrow> api_step A w w' \<Longrightarrow> deployed A w'"
  by (rule deployed_later [OF _ reachable_one])

section \<open>The invariants of the other tables\<close>

lemma inv_db_users:
  assumes "inv_db R d" "uniq user_clash us"
  shows "inv_db R (d\<lparr>users := us\<rparr>)"
  using assms by (simp add: inv_db_def wf_db_def ledger_ok_def total_balance_def transactions_ok_def
      double_entry_def reversals_ok_def outbox_ok_def idempotency_ok_def)

lemma inv_db_empty: "inv_db R empty_db"
  by (simp add: inv_db_def wf_db_def ledger_ok_def total_balance_def transactions_ok_def double_entry_def
      reversals_ok_def outbox_ok_def idempotency_ok_def empty_db_def)

text \<open>A new wallet has no ledger entries: they name wallets that are there.\<close>

lemma ledger_balance_none: "(\<And>e. e \<in> set es \<Longrightarrow> WalletID e \<noteq> i) \<Longrightarrow> ledger_balance es i = 0"
  unfolding ledger_balance_def by (induction es) (auto simp: entry_delta_def)

lemma inv_db_new_wallet:
  assumes "inv_db R d" "\<forall>x\<in>set (wallets d). \<not> wallet_clash wl x" "BalanceCachedMinor wl = 0"
  shows "inv_db R (d\<lparr>wallets := wallets d @ [wl]\<rparr>)"
proof -
  have "ID wl \<notin> ID ` set (wallets d)" using assms(2) by (auto simp: wallet_clash_def)
  then have "ledger_balance (ledger_entries d) (ID wl) = 0"
    using assms(1) unfolding inv_db_def ledger_ok_def by (intro ledger_balance_none) metis
  with assms show ?thesis
    by (auto simp: inv_db_def wf_db_def ledger_ok_def total_balance_def transactions_ok_def
      double_entry_def reversals_ok_def outbox_ok_def idempotency_ok_def)
qed

text \<open>Rows rewritten without touching the key, the owner or the balance.\<close>

lemma inv_db_same_wallets:
  assumes "inv_db R d"
    and "list_all2 (\<lambda>x x'. ID x' = ID x \<and> UserID x' = UserID x \<and> BalanceCachedMinor x' = BalanceCachedMinor x)
      (wallets d) ws"
  shows "inv_db R (d\<lparr>wallets := ws\<rparr>)"
proof -
  have "map BalanceCachedMinor ws = map BalanceCachedMinor (wallets d)" "map ID ws = map ID (wallets d)"
    using assms(2) by (induction rule: list_all2_induct) auto
  then have t: "sum_list (map BalanceCachedMinor ws) = total_balance d" "ID ` set ws = ID ` set (wallets d)"
    unfolding total_balance_def by (metis, metis list.set_map)
  have u: "uniq wallet_clash ws"
    by (rule uniq_list_all2 [OF _ assms(2)]) (use assms(1) in \<open>auto simp: inv_db_def wf_db_def wallet_clash_def\<close>)
  have "\<forall>x'\<in>set ws. BalanceCachedMinor x' = ledger_balance (ledger_entries d) (ID x')"
  proof
    fix x' assume "x' \<in> set ws"
    from list_all2_in2 [OF assms(2) this] assms(1)
    show "BalanceCachedMinor x' = ledger_balance (ledger_entries d) (ID x')"
      by (auto simp: inv_db_def ledger_ok_def)
  qed
  with assms(1) t u show ?thesis
    by (simp add: inv_db_def wf_db_def ledger_ok_def total_balance_def transactions_ok_def
      double_entry_def reversals_ok_def outbox_ok_def idempotency_ok_def)
qed

text \<open>Publication rewrites no column the invariants look at.\<close>

lemma inv_db_outbox:
  assumes "inv_db R d" "map core es = map core (outbox_events d)"
  shows "inv_db R (d\<lparr>outbox_events := es\<rparr>)"
proof -
  have l: "list_all2 (\<lambda>x x'. core x' = core x) (outbox_events d) es"
    using assms(2) by (auto simp: list_all2_conv_all_nth list_eq_iff_nth_eq)
  have "uniq outbox_event_clash es"
    by (rule uniq_list_all2 [OF _ l])
      (use assms(1) in \<open>auto simp: inv_db_def wf_db_def outbox_event_clash_def dest!: core_fields(1)\<close>)
  moreover have "outbox_ok R (d\<lparr>outbox_events := es\<rparr>)"
    using assms(1) l unfolding inv_db_def outbox_ok_def
    by (auto simp: list_all2_conv_all_nth event_of_def dest!: core_fields)
       (metis core_fields(4-6))+
  ultimately show ?thesis using assms(1)
    by (simp add: inv_db_def wf_db_def ledger_ok_def total_balance_def transactions_ok_def
      double_entry_def reversals_ok_def idempotency_ok_def)
qed

section \<open>Every step keeps the invariant\<close>

lemma money_step_inv:
  assumes "money_step R w w'" "inv_db R (db w)" "runtime_laws R"
  shows "inv_db R (db w')"
  using assms posting_inv by (auto simp: money_step_def dest: visible_db)

lemma inv_db_wf: "inv_db R d \<Longrightarrow> wf_db d" "inv_db R d \<Longrightarrow> transactions_ok d"
  by (simp_all add: inv_db_def)

context app_laws
begin

text \<open>Seeding adds a system user and a system wallet with balance 0, or leaves what is there.\<close>

lemma seed_hooks:
  "User_BeforeCreate (RT E) system_user w = (Inr u, w1) \<Longrightarrow> u = system_user"
  "Wallet_BeforeCreate (RT E) system_wallet w = (Inr wl, w1) \<Longrightarrow> wl = system_wallet"
  by (auto simp: system_user_def system_wallet_def SystemUserID_def SystemWalletID_def uuid_Nil_def const_defs
      dest!: User_BeforeCreate_Inr Wallet_BeforeCreate_Inr)

lemma seed_user:
  assumes "bindE (User_BeforeCreate (RT E) system_user) (gCreateDoNothing (Users (DB E))) w = (r, w')"
  shows "visible w' = visible w \<or> (\<exists>t. (\<forall>x\<in>set (users (db w)). \<not> user_clash system_user x) \<and>
    visible w' = ((db w)\<lparr>users := users (db w) @ [born t system_user]\<rparr>, kv w, streams w))"
  using users.hooked_CreateDoNothing [OF assms keeps_hook(2), of system_user] seed_hooks(1) by simp

lemma seed_wallet:
  assumes "bindE (Wallet_BeforeCreate (RT E) system_wallet) (gCreateDoNothing (Wallets (DB E))) w = (r, w')"
  shows "visible w' = visible w \<or> (\<exists>t. (\<forall>x\<in>set (wallets (db w)). \<not> wallet_clash system_wallet x) \<and>
    visible w' = ((db w)\<lparr>wallets := wallets (db w) @ [born t system_wallet]\<rparr>, kv w, streams w))"
  using wallets.hooked_CreateDoNothing [OF assms keeps_hook(3), of system_wallet] seed_hooks(2) by simp

lemma restart_inv:
  assumes "SeedSystemAccounts E w = (r, w')" "inv_db R (db w)"
  shows "inv_db R (db w')"
proof -
  obtain q w1 where s: "bindE (User_BeforeCreate (RT E) system_user) (gCreateDoNothing (Users (DB E))) w = (q, w1)"
    by (cases "bindE (User_BeforeCreate (RT E) system_user) (gCreateDoNothing (Users (DB E))) w")
  have i1: "inv_db R (db w1)"
  proof (cases "visible w1 = visible w")
    case True
    with assms(2) show ?thesis by (simp add: visible_eq)
  next
    case False
    with seed_user [OF s] obtain t where "\<forall>x\<in>set (users (db w)). \<not> user_clash system_user x"
      "db w1 = (db w)\<lparr>users := users (db w) @ [born t system_user]\<rparr>" by (auto simp: visible_split)
    moreover from this assms(2) have "uniq user_clash (users (db w) @ [born t system_user])"
      by (simp add: inv_db_def wf_db_def)
    ultimately show ?thesis using inv_db_users [OF assms(2)] by simp
  qed
  show ?thesis
  proof (cases "isl q")
    case True
    with assms(1) s have "w' = w1"
      by (auto simp: SeedSystemAccounts_def bindE_stop onErr_stop isl_def)
    with i1 show ?thesis by simp
  next
    case False
    then obtain u where q: "q = Inr u" by (cases q) auto
    obtain q2 w2 where s2: "bindE (Wallet_BeforeCreate (RT E) system_wallet)
        (gCreateDoNothing (Wallets (DB E))) w1 = (q2, w2)"
      by (cases "bindE (Wallet_BeforeCreate (RT E) system_wallet) (gCreateDoNothing (Wallets (DB E))) w1")
    have "w' = w2" using assms(1) s s2 unfolding q
      by (cases q2) (simp_all add: SeedSystemAccounts_def bindE_step bindE_stop onErr_step onErr_stop returnE_def)
    moreover have "inv_db R (db w2)"
    proof (cases "visible w2 = visible w1")
      case True
      with i1 show ?thesis by (simp add: visible_eq)
    next
      case False
      with seed_wallet [OF s2] obtain t where "\<forall>x\<in>set (wallets (db w1)). \<not> wallet_clash system_wallet x"
        "db w2 = (db w1)\<lparr>wallets := wallets (db w1) @ [born t system_wallet]\<rparr>" by (auto simp: visible_split)
      moreover have "BalanceCachedMinor (born t system_wallet) = 0" by (simp add: born_def system_wallet_def)
      ultimately show ?thesis using inv_db_new_wallet [OF i1] by simp
    qed
    ultimately show ?thesis by simp
  qed
qed

lemma create_user_inv:
  assumes "UserService_Create (app_users app) req w = (r, w')" "inv_db R (db w)"
  shows "inv_db R (db w')"
proof (cases r)
  case (Inl e)
  with us.UserService_Create_Inl assms show ?thesis by (metis visible_db)
next
  case (Inr a)
  from us.UserService_Create_Inr [OF assms(1) [unfolded Inr]] obtain u where
    "\<forall>x\<in>set (users (db w)). \<not> user_clash u x" "db w' = (db w)\<lparr>users := users (db w) @ [u]\<rparr>"
    by (auto simp: visible_split)
  moreover from this assms(2) have "uniq user_clash (users (db w) @ [u])"
    by (simp add: inv_db_def wf_db_def)
  ultimately show ?thesis using inv_db_users [OF assms(2)] by simp
qed

lemma update_user_inv:
  assumes "UserService_Update (app_users app) i req w = (r, w')" "inv_db R (db w)"
  shows "inv_db R (db w')"
proof (cases r)
  case (Inl e)
  with us.UserService_Update_Inl assms show ?thesis by (metis visible_db)
next
  case (Inr a)
  from us.UserService_Update_Inr [OF assms(1) [unfolded Inr]] obtain u u' where
    u: "u \<in> set (users (db w))" "user_live u" "ID u = i"
    "\<forall>x\<in>set (users (db w)). ID x \<noteq> i \<longrightarrow> \<not> user_clash u' x"
    "db w' = (db w)\<lparr>users := replace_row (\<lambda>x. ID x = i \<and> user_live x) u' (users (db w))\<rparr>"
    by (auto simp: visible_split)
  have w: "uniq user_clash (users (db w))" "distinct (map ID (users (db w)))"
    using assms(2) wf_db_distinct(1) by (auto simp: inv_db_def wf_db_def)
  have "uniq user_clash (users (db w'))"
    unfolding u(5) by (simp, rule uniq_replace_row [OF w(1) clash_sym(1)])
      (use u w(2) in \<open>auto simp: user_clash_def dest: distinct_key_eq\<close>)
  with inv_db_users [OF assms(2)] u(5) show ?thesis by simp
qed

lemma delete_user_inv:
  assumes "UserService_Delete (app_users app) i w = (r, w')" "inv_db R (db w)"
  shows "inv_db R (db w')"
proof (cases r)
  case (Inl e)
  with us.UserService_Delete_Inl assms show ?thesis by (metis visible_db)
next
  case (Inr a)
  from us.UserService_Delete_Inr [OF assms(1) [unfolded Inr]] obtain t where
    d: "db w' = (db w)\<lparr>users := map (\<lambda>x. if user_live x \<and> ID x = i
      then x\<lparr>user_DeletedAt := Some t\<rparr> else x) (users (db w))\<rparr>"
    by (auto simp: visible_split)
  have "list_all2 (\<lambda>x x'. ID x' = ID x \<and> Email x' = Email x \<and> PhoneNumber x' = PhoneNumber x \<and>
      ExternalRef x' = ExternalRef x) (users (db w)) (users (db w'))"
    unfolding d by (simp, rule list_all2_map_self) simp
  then have "uniq user_clash (users (db w'))"
    by (rule uniq_list_all2 [rotated]) (use assms(2) in \<open>auto simp: user_clash_def inv_db_def wf_db_def\<close>)
  with inv_db_users [OF assms(2)] d show ?thesis by simp
qed

lemma create_wallet_inv:
  assumes "WalletService_Create (app_wallets app) req w = (r, w')" "inv_db R (db w)"
  shows "inv_db R (db w')"
proof (cases r)
  case (Inl e)
  with ws.WalletService_Create_Inl assms show ?thesis by (metis visible_db)
next
  case (Inr a)
  from ws.WalletService_Create_Inr [OF assms(1) [unfolded Inr]] obtain wl where
    "\<forall>x\<in>set (wallets (db w)). \<not> wallet_clash wl x" "BalanceCachedMinor wl = 0"
    "db w' = (db w)\<lparr>wallets := wallets (db w) @ [wl]\<rparr>"
    by (auto simp: visible_split)
  with inv_db_new_wallet [OF assms(2)] show ?thesis by simp
qed

lemma update_status_inv:
  assumes "UpdateStatus (app_wallets app) i st w = (r, w')" "inv_db R (db w)"
  shows "inv_db R (db w')"
proof (cases r)
  case (Inl e)
  with ws.UpdateStatus_Inl assms show ?thesis by (metis visible_db)
next
  case (Inr a)
  from ws.UpdateStatus_Inr [OF assms(1) [unfolded Inr]] obtain wl t where
    wl: "wl \<in> set (wallets (db w))" "ID wl = i"
    and d: "db w' = (db w)\<lparr>wallets := replace_row (\<lambda>x. ID x = i \<and> wallet_live x)
      (touch t (wl\<lparr>wallet_Status := st\<rparr>)) (wallets (db w))\<rparr>"
    by (auto simp: visible_split)
  have "distinct (map ID (wallets (db w)))" using assms(2) wf_db_distinct(2) by (auto simp: inv_db_def)
  with wl have "\<And>x. x \<in> set (wallets (db w)) \<Longrightarrow> ID x = i \<Longrightarrow> x = wl" using distinct_key_eq by metis
  then have "list_all2 (\<lambda>x x'. ID x' = ID x \<and> UserID x' = UserID x \<and> BalanceCachedMinor x' = BalanceCachedMinor x)
      (wallets (db w)) (wallets (db w'))"
    unfolding d by (simp, intro list_all2_replace_row) (auto simp: touch_def)
  with inv_db_same_wallets [OF assms(2)] d show ?thesis by simp
qed

lemma get_balance_db:
  assumes "GetBalance (app_wallets app) i w = (r, w')"
  shows "db w' = db w"
proof (cases r)
  case (Inl e)
  with ws.GetBalance_Inl assms show ?thesis by (metis visible_db)
next
  case (Inr a)
  with ws.GetBalance_Inr assms show ?thesis by (metis visible_db)
qed

lemma publish_inv:
  assumes "PublishPending (app_worker app) w = (r, w')" "inv_db R (db w)"
  shows "inv_db R (db w')"
proof -
  have "distinct (map ID (outbox_events (db w)))" using assms(2) wf_db_distinct(4) by (auto simp: inv_db_def)
  from wk.PublishPending_step [OF assms(1) this] obtain es ss where
    "batch_step (app_worker app) es w ss w'" by blast
  then obtain rows where rows: "db w' = (db w)\<lparr>outbox_events := rows\<rparr>"
    "map core rows = map core (outbox_events (db w))"
    by (auto simp: batch_step_def dest: list_all2_map_cores)
  with inv_db_outbox [OF assms(2) rows(2)] show ?thesis by simp
qed

theorem api_step_inv:
  assumes "api_step app w w'" "inv_db (RT E) (db w)"
  shows "inv_db (RT E) (db w')"
  using assms(1)
proof cases
  case idle
  with assms(2) show ?thesis by (metis visible_db)
next
  case (create_user req r1)
  with create_user_inv assms(2) show ?thesis by blast
next
  case (update_user i ureq r2)
  with update_user_inv assms(2) show ?thesis by blast
next
  case (delete_user i r3)
  with delete_user_inv assms(2) show ?thesis by blast
next
  case (create_wallet wreq r4)
  with create_wallet_inv assms(2) show ?thesis by blast
next
  case (get_balance i r5)
  with get_balance_db assms(2) show ?thesis by metis
next
  case (update_status i status r6)
  with update_status_inv assms(2) show ?thesis by blast
next
  case (top_up treq key r7)
  from money_step_inv [OF ts.TopUp_step [OF this inv_db_wf(1) [OF assms(2)]]] assms(2) runtime_laws_axioms
  show ?thesis by simp
next
  case (transfer freq key r8)
  from money_step_inv [OF ts.Transfer_step [OF this inv_db_wf(1) [OF assms(2)]]] assms(2) runtime_laws_axioms
  show ?thesis by simp
next
  case (reverse i key r9)
  from money_step_inv [OF ts.Reverse_step [OF this inv_db_wf [OF assms(2)]]] assms(2) runtime_laws_axioms
  show ?thesis by simp
next
  case (publish r10)
  with publish_inv assms(2) show ?thesis by blast
next
  case (restart r11)
  with restart_inv assms(2) show ?thesis by simp
qed

theorem reachable_inv:
  assumes "reachable app w0 w" "inv_db (RT E) (db w0)"
  shows "inv_db (RT E) (db w)"
  using assms by (induction rule: reachable.induct) (auto intro: api_step_inv)

theorem deployed_inv: "deployed app w \<Longrightarrow> inv_db (RT E) (db w)"
  unfolding deployed_def using reachable_inv inv_db_empty by metis

end

end
