(* ===== verification/History.thy ===== *)
theory History
  imports System
begin

text \<open>
  What a run of the program never undoes: \<open>extends d d'\<close> says that the ledger, the idempotency
  records and the outbox of \<open>d\<close> are a prefix of those of \<open>d'\<close>, that every transaction is still there
  with at most its status changed from completed to reversed, and that users and wallets keep their
  place and their keys.
\<close>

definition prefix_of :: "('r \<Rightarrow> 'r \<Rightarrow> bool) \<Rightarrow> 'r list \<Rightarrow> 'r list \<Rightarrow> bool" where
  "prefix_of P xs ys \<longleftrightarrow> (\<exists>zs ws. ys = zs @ ws \<and> list_all2 P xs zs)"

definition tx_kept :: "transaction \<Rightarrow> transaction \<Rightarrow> bool" where
  "tx_kept x x' \<longleftrightarrow> x' = x \<or> (Status x = TransactionStatusCompleted \<and>
    (\<exists>t. x' = touch t (x\<lparr>Status := TransactionStatusReversed\<rparr>)))"

definition wallet_kept :: "wallet \<Rightarrow> wallet \<Rightarrow> bool" where
  "wallet_kept x x' \<longleftrightarrow> ID x' = ID x \<and> UserID x' = UserID x \<and> CreatedAt x' = CreatedAt x \<and>
    wallet_Currency x' = wallet_Currency x \<and> wallet_DeletedAt x' = wallet_DeletedAt x"

definition user_kept :: "user \<Rightarrow> user \<Rightarrow> bool" where
  "user_kept x x' \<longleftrightarrow> ID x' = ID x \<and> CreatedAt x' = CreatedAt x \<and> (user_live x' \<longrightarrow> user_live x)"

definition extends :: "db \<Rightarrow> db \<Rightarrow> bool" where
  "extends d d' \<longleftrightarrow> prefix_of (=) (ledger_entries d) (ledger_entries d') \<and>
    prefix_of (=) (idempotency_keys d) (idempotency_keys d') \<and>
    prefix_of tx_kept (transactions d) (transactions d') \<and>
    prefix_of (\<lambda>x x'. core x' = core x) (outbox_events d) (outbox_events d') \<and>
    prefix_of wallet_kept (wallets d) (wallets d') \<and> prefix_of user_kept (users d) (users d')"

section \<open>Prefixes\<close>

lemma prefix_of_refl: "(\<And>x. x \<in> set xs \<Longrightarrow> P x x) \<Longrightarrow> prefix_of P xs xs"
  unfolding prefix_of_def by (intro exI[of _ xs] exI[of _ "[]"]) (simp add: list.rel_refl_strong)

lemma prefix_of_append: "(\<And>x. x \<in> set xs \<Longrightarrow> P x x) \<Longrightarrow> prefix_of P xs (xs @ ys)"
  unfolding prefix_of_def by (intro exI[of _ xs] exI[of _ ys]) (simp add: list.rel_refl_strong)

lemma prefix_of_all2: "list_all2 P xs ys \<Longrightarrow> prefix_of P xs (ys @ zs)"
  unfolding prefix_of_def by blast

lemma prefix_of_all2': "list_all2 P xs ys \<Longrightarrow> prefix_of P xs ys"
  using prefix_of_all2 [of P xs ys "[]"] by simp

lemma prefix_of_trans:
  assumes "prefix_of P xs ys" "prefix_of P ys zs" "\<And>x y z. P x y \<Longrightarrow> P y z \<Longrightarrow> P x z"
  shows "prefix_of P xs zs"
proof -
  obtain y1 y2 where y: "ys = y1 @ y2" "list_all2 P xs y1" using assms(1) by (auto simp: prefix_of_def)
  obtain z1 z2 where z: "zs = z1 @ z2" "list_all2 P ys z1" using assms(2) by (auto simp: prefix_of_def)
  from y(1) z(2) obtain u v where "z1 = u @ v" "list_all2 P y1 u"
    by (auto simp: list_all2_append1)
  moreover from this y(2) assms(3) have "list_all2 P xs u" by (auto intro: list_all2_trans [of P P P])
  ultimately show ?thesis using z(1) by (auto simp: prefix_of_def)
qed

lemma prefix_of_eq: "prefix_of (=) xs ys \<longleftrightarrow> (\<exists>zs. ys = xs @ zs)"
  by (auto simp: prefix_of_def list.rel_eq)

lemma list_all2_in1: "list_all2 P xs ys \<Longrightarrow> x \<in> set xs \<Longrightarrow> \<exists>y\<in>set ys. P x y"
  by (induction rule: list_all2_induct) auto

lemma prefix_of_in: "prefix_of P xs ys \<Longrightarrow> x \<in> set xs \<Longrightarrow> \<exists>y\<in>set ys. P x y"
  unfolding prefix_of_def by (metis UnI1 list_all2_in1 set_append)

lemma tx_kept_trans: "tx_kept x y \<Longrightarrow> tx_kept y z \<Longrightarrow> tx_kept x z"
  by (auto simp: tx_kept_def touch_def)

lemma kept_refl [simp]: "tx_kept x x" "wallet_kept wl wl" "user_kept u u"
  by (simp_all add: tx_kept_def wallet_kept_def user_kept_def)

lemma extends_refl [simp]: "extends d d"
  by (simp add: extends_def prefix_of_refl)

lemma extends_trans: "extends d e \<Longrightarrow> extends e f \<Longrightarrow> extends d f"
  unfolding extends_def
  by (intro conjI; (rule prefix_of_trans, blast, blast))
    (auto intro: tx_kept_trans simp: wallet_kept_def user_kept_def)

section \<open>Every step extends the history\<close>

lemma extends_users: "prefix_of user_kept (users d) us \<Longrightarrow> extends d (d\<lparr>users := us\<rparr>)"
  by (simp add: extends_def prefix_of_refl)

lemma extends_wallets: "prefix_of wallet_kept (wallets d) ws \<Longrightarrow> extends d (d\<lparr>wallets := ws\<rparr>)"
  by (simp add: extends_def prefix_of_refl)

lemma extends_outbox: "map core es = map core (outbox_events d) \<Longrightarrow> extends d (d\<lparr>outbox_events := es\<rparr>)"
  by (auto simp: extends_def prefix_of_refl list_all2_conv_all_nth list_eq_iff_nth_eq intro!: prefix_of_all2')

lemma extends_posting:
  assumes "posting R d key hash t d'" "proper d t" "wf_db d"
  shows "extends d d'"
proof -
  have "list_all2 tx_kept (transactions d) (map (mark_reversed at (RelatedTransactionID t)) (transactions d))" for at
  proof (rule list_all2_map_self)
    fix x assume x: "x \<in> set (transactions d)"
    show "tx_kept x (mark_reversed at (RelatedTransactionID t) x)"
    proof (cases "Some (ID x) = RelatedTransactionID t")
      case True
      with assms(2) x distinct_key_eq [OF wf_db_distinct(3) [OF assms(3)]]
      have "Status x = TransactionStatusCompleted" by (fastforce simp: proper_def)
      with True show ?thesis by (auto simp: tx_kept_def mark_reversed_def)
    qed (simp add: mark_reversed_def)
  qed
  moreover from assms(1) obtain a b where "list_all2 (wallet_moved a b (AmountMinor t)) (wallets d) (wallets d')"
    by (auto simp: posting_def)
  then have "list_all2 wallet_kept (wallets d) (wallets d')"
    by (rule list_all2_mono) (auto simp: wallet_moved_def wallet_kept_def)
  ultimately show ?thesis using assms(1)
    by (auto simp: extends_def posting_def prefix_of_refl prefix_of_append prefix_of_all2 prefix_of_all2')
qed

lemma money_step_extends:
  assumes "money_step R w w'" "wf_db (db w)"
  shows "extends (db w) (db w')"
  using assms extends_posting by (auto simp: money_step_def dest: visible_db)

context app_laws
begin

lemma restart_extends:
  assumes "SeedSystemAccounts E w = (r, w')"
  shows "extends (db w) (db w')"
proof -
  obtain q w1 where s: "bindE (User_BeforeCreate (RT E) system_user) (gCreateDoNothing (Users (DB E))) w = (q, w1)"
    by (cases "bindE (User_BeforeCreate (RT E) system_user) (gCreateDoNothing (Users (DB E))) w")
  have 1: "extends (db w) (db w1)"
    using seed_user [OF s] by (auto simp: visible_eq visible_split intro!: extends_users prefix_of_append)
  obtain q2 w2 where s2: "bindE (Wallet_BeforeCreate (RT E) system_wallet) (gCreateDoNothing (Wallets (DB E))) w1 = (q2, w2)"
    by (cases "bindE (Wallet_BeforeCreate (RT E) system_wallet) (gCreateDoNothing (Wallets (DB E))) w1")
  have 2: "extends (db w1) (db w2)"
    using seed_wallet [OF s2] by (auto simp: visible_eq visible_split intro!: extends_wallets prefix_of_append)
  have "w' = w1 \<or> w' = w2" using assms s s2
    by (cases q; cases q2)
      (auto simp: SeedSystemAccounts_def bindE_step bindE_stop onErr_step onErr_stop returnE_def)
  with 1 2 extends_trans show ?thesis by blast
qed

lemma create_user_extends:
  assumes "UserService_Create (app_users app) req w = (r, w')"
  shows "extends (db w) (db w')"
proof (cases r)
  case (Inl e)
  with us.UserService_Create_Inl assms show ?thesis by (metis extends_refl visible_db)
next
  case (Inr a)
  from us.UserService_Create_Inr [OF assms [unfolded Inr]] show ?thesis
    by (auto simp: visible_split intro!: extends_users prefix_of_append)
qed

lemma update_user_extends:
  assumes "UserService_Update (app_users app) i req w = (r, w')" "wf_db (db w)"
  shows "extends (db w) (db w')"
proof (cases r)
  case (Inl e)
  with us.UserService_Update_Inl assms show ?thesis by (metis extends_refl visible_db)
next
  case (Inr a)
  from us.UserService_Update_Inr [OF assms(1) [unfolded Inr]] obtain u u' t where
    u: "u \<in> set (users (db w))" "user_live u" "ID u = i" and u': "u' = touch t (u\<lparr>ExternalRef := uu_ExternalRef req,
      FullName := uu_FullName req, Email := uu_Email req, PhoneNumber := uu_PhoneNumber req,
      user_Status := uu_Status req\<rparr>)"
    and d: "db w' = (db w)\<lparr>users := replace_row (\<lambda>x. ID x = i \<and> user_live x) u' (users (db w))\<rparr>"
    by (auto simp: visible_split)
  have "\<And>x. x \<in> set (users (db w)) \<Longrightarrow> ID x = i \<Longrightarrow> x = u"
    using u distinct_key_eq [OF wf_db_distinct(1) [OF assms(2)]] by metis
  then show ?thesis unfolding d u'
    by (intro extends_users prefix_of_all2' list_all2_replace_row) (auto simp: user_kept_def touch_def user_live_def)
qed

lemma delete_user_extends:
  assumes "UserService_Delete (app_users app) i w = (r, w')"
  shows "extends (db w) (db w')"
proof (cases r)
  case (Inl e)
  with us.UserService_Delete_Inl assms show ?thesis by (metis extends_refl visible_db)
next
  case (Inr a)
  from us.UserService_Delete_Inr [OF assms [unfolded Inr]] show ?thesis
    by (auto simp: visible_split user_kept_def user_live_def intro!: extends_users prefix_of_all2' list_all2_map_self)
qed

lemma create_wallet_extends:
  assumes "WalletService_Create (app_wallets app) req w = (r, w')"
  shows "extends (db w) (db w')"
proof (cases r)
  case (Inl e)
  with ws.WalletService_Create_Inl assms show ?thesis by (metis extends_refl visible_db)
next
  case (Inr a)
  from ws.WalletService_Create_Inr [OF assms [unfolded Inr]] show ?thesis
    by (auto simp: visible_split intro!: extends_wallets prefix_of_append)
qed

lemma update_status_extends:
  assumes "UpdateStatus (app_wallets app) i st w = (r, w')" "wf_db (db w)"
  shows "extends (db w) (db w')"
proof (cases r)
  case (Inl e)
  with ws.UpdateStatus_Inl assms show ?thesis by (metis extends_refl visible_db)
next
  case (Inr a)
  from ws.UpdateStatus_Inr [OF assms(1) [unfolded Inr]] obtain wl t where
    wl: "wl \<in> set (wallets (db w))" "ID wl = i"
    and d: "db w' = (db w)\<lparr>wallets := replace_row (\<lambda>x. ID x = i \<and> wallet_live x)
      (touch t (wl\<lparr>wallet_Status := st\<rparr>)) (wallets (db w))\<rparr>"
    by (auto simp: visible_split)
  have "\<And>x. x \<in> set (wallets (db w)) \<Longrightarrow> ID x = i \<Longrightarrow> x = wl"
    using wl distinct_key_eq [OF wf_db_distinct(2) [OF assms(2)]] by metis
  then show ?thesis unfolding d
    by (intro extends_wallets prefix_of_all2' list_all2_replace_row) (auto simp: wallet_kept_def touch_def)
qed

lemma publish_extends:
  assumes "PublishPending (app_worker app) w = (r, w')" "wf_db (db w)"
  shows "extends (db w) (db w')"
  using wk.PublishPending_step [OF assms(1) wf_db_distinct(4) [OF assms(2)]]
  by (auto simp: batch_step_def intro!: extends_outbox dest: list_all2_map_cores)

theorem api_step_extends:
  assumes "api_step app w w'" "inv_db (RT E) (db w)"
  shows "extends (db w) (db w')"
  using assms(1)
proof cases
  case idle
  then show ?thesis by (metis extends_refl visible_db)
next
  case (update_user i ureq r2)
  then show ?thesis using update_user_extends inv_db_wf(1) [OF assms(2)] by blast
next
  case (get_balance i r5)
  then show ?thesis using get_balance_db by (metis extends_refl)
next
  case (update_status i status r6)
  then show ?thesis using update_status_extends inv_db_wf(1) [OF assms(2)] by blast
next
  case (top_up treq key r7)
  from money_step_extends [OF ts.TopUp_step [OF this inv_db_wf(1) [OF assms(2)]]] inv_db_wf(1) [OF assms(2)]
  show ?thesis by blast
next
  case (transfer freq key r8)
  from money_step_extends [OF ts.Transfer_step [OF this inv_db_wf(1) [OF assms(2)]]] inv_db_wf(1) [OF assms(2)]
  show ?thesis by blast
next
  case (reverse i key r9)
  from money_step_extends [OF ts.Reverse_step [OF this inv_db_wf [OF assms(2)]]] inv_db_wf(1) [OF assms(2)]
  show ?thesis by blast
next
  case (publish r10)
  then show ?thesis using publish_extends inv_db_wf(1) [OF assms(2)] by blast
next
  case (restart r11)
  then show ?thesis using restart_extends by simp
qed (blast intro: create_user_extends delete_user_extends create_wallet_extends)+

theorem reachable_extends:
  assumes "reachable app w0 w" "inv_db (RT E) (db w0)"
  shows "extends (db w0) (db w)"
  using assms(1)
proof induction
  case (step w w')
  then show ?case using api_step_extends reachable_inv [OF _ assms(2)] extends_trans by blast
qed simp

end

end
