(* ===== verification/Outcomes.thy ===== *)
theory Outcomes
  imports History
begin

text \<open>
  What the money operations of the wired program return and do, in the terms of the balance sheet:
  the specification \<open>booked\<close> of one booking, the reasons of the errors, and what happens when a
  request is sent again, at any later time, with the same idempotency key.
\<close>

section \<open>Bookings\<close>

text \<open>
  The tables gained one transaction \<open>t\<close> with a debit and a credit of its amount and one pending
  event that decodes to it, the amount moved on the balance sheet, and no other column of a wallet
  changed but its balance and its time of update.
\<close>

definition booked :: "'h runtime \<Rightarrow> db \<Rightarrow> transaction \<Rightarrow> db \<Rightarrow> bool" where
  "booked R d t d' \<longleftrightarrow> Status t = TransactionStatusCompleted \<and> t \<in> set (transactions d') \<and>
    ID t \<notin> ID ` set (transactions d) \<and>
    (\<exists>a b. SourceWalletID t = Some a \<and> DestinationWalletID t = Some b \<and> a \<noteq> b \<and>
      a \<in> dom (balances d) \<and> b \<in> dom (balances d) \<and>
      balances d' = move a b (AmountMinor t) (balances d) \<and>
      (\<exists>e1 e2. ledger_entries d' = ledger_entries d @ [e1, e2] \<and>
        is_entry e1 t a LedgerEntryTypeDebit \<and> is_entry e2 t b LedgerEntryTypeCredit)) \<and>
    (\<exists>ev. outbox_events d' = outbox_events d @ [ev] \<and> outbox_Status ev = OutboxStatusPending \<and>
      event_of R ev t) \<and>
    users d' = users d \<and>
    map (\<lambda>x. x\<lparr>BalanceCachedMinor := 0, UpdatedAt := 0\<rparr>) (wallets d') =
      map (\<lambda>x. x\<lparr>BalanceCachedMinor := 0, UpdatedAt := 0\<rparr>) (wallets d)"

lemma moved_frame:
  "list_all2 (wallet_moved a b n) xs ys \<Longrightarrow>
    map (\<lambda>x. x\<lparr>BalanceCachedMinor := 0, UpdatedAt := 0\<rparr>) ys =
    map (\<lambda>x. x\<lparr>BalanceCachedMinor := 0, UpdatedAt := 0\<rparr>) xs"
  by (induction rule: list_all2_induct) (auto simp: wallet_moved_def)

lemma posting_event:
  assumes "posting R d key hash t d'" "runtime_laws R"
  shows "\<exists>ev. outbox_events d' = outbox_events d @ [ev] \<and> outbox_Status ev = OutboxStatusPending \<and>
    event_of R ev t"
  using assms(1) runtime_laws.payload_roundtrip [OF assms(2)] unfolding posting_def event_of_def by fastforce

lemma posting_booked:
  assumes "posting R d key hash t d'" "proper d t" "runtime_laws R"
  shows "booked R d t d'"
proof -
  from assms(1) obtain a b e1 e2 where ab: "SourceWalletID t = Some a" "DestinationWalletID t = Some b"
      "a \<noteq> b" "a \<in> ID ` set (wallets d)" "b \<in> ID ` set (wallets d)"
    and m: "list_all2 (wallet_moved a b (AmountMinor t)) (wallets d) (wallets d')"
    and e: "ledger_entries d' = ledger_entries d @ [e1, e2]" "is_entry e1 t a LedgerEntryTypeDebit"
      "is_entry e2 t b LedgerEntryTypeCredit" and u: "users d' = users d"
    by (auto simp: posting_def)
  have "a \<in> dom (balances d)" "b \<in> dom (balances d)" using ab balances_Some by blast+
  moreover have "ID t \<notin> ID ` set (transactions d)"
    using posting_rows(2) [OF assms(1)] by (auto simp: transaction_clash_def)
  moreover have "t \<in> set (transactions d')" using posting_rows(1) [OF assms(1)] by auto
  ultimately show ?thesis
    using ab e u posting_event [OF assms(1,3)] balances_moved [OF m ab(3-5)] moved_frame [OF m] assms(2)
    unfolding booked_def proper_def by blast
qed

text \<open>A booking that reverses nothing appends its transaction; a reversal marks the one it names.\<close>

lemma posting_plain:
  assumes "posting R d key hash t d'" "proper d t" "Type t \<noteq> TransactionTypeReversal"
  shows "transactions d' = transactions d @ [t]"
  using posting_rows(1) [OF assms(1)] assms(2,3) by (auto simp: proper_def)

section \<open>Idempotency records\<close>

text \<open>No booking is made under a key that has a record for its endpoint.\<close>

lemma posting_fresh_key:
  assumes "posting R d key hash t d'" "key \<noteq> []" "k \<in> set (idempotency_keys d)" "idem_Key k = key"
  shows "idem_Endpoint k \<noteq> endpoint_of t"
  using assms by (auto simp: posting_def idem_record_def idempotency_key_clash_def)

text \<open>What is replayed is determined by the key and the endpoint.\<close>

lemma replays_unique:
  assumes "wf_db d" "replays R key ep h d r s" "replays R key ep h' d r' s'"
  shows "h' = h \<and> r' = r \<and> s' = s"
proof -
  from assms(2,3) obtain k k' where k: "k \<in> set (idempotency_keys d)" "k' \<in> set (idempotency_keys d)"
      "idem_Key k = key" "idem_Key k' = key" "idem_Endpoint k = ep" "idem_Endpoint k' = ep"
      "RequestHash k = h" "RequestHash k' = h'" "ResponseStatusCode k = Some s" "ResponseStatusCode k' = Some s'"
      "\<exists>b. ResponseBodyJSON k = Some b \<and> response_of_json R b = Inr r"
      "\<exists>b. ResponseBodyJSON k' = Some b \<and> response_of_json R b = Inr r'"
    by (auto simp: replays_def)
  have "distinct (map (\<lambda>k. (idem_Key k, idem_Endpoint k)) (idempotency_keys d))"
    by (rule uniq_distinct [of idempotency_key_clash])
      (use assms(1) in \<open>auto simp: wf_db_def idempotency_key_clash_def\<close>)
  from distinct_key_eq [OF this k(1,2)] k have "k' = k" by simp
  with k show ?thesis by auto
qed

lemma replays_extends:
  assumes "replays R key ep h d r s" "extends d d'"
  shows "replays R key ep h d' r s"
proof -
  obtain ks where "idempotency_keys d' = idempotency_keys d @ ks"
    using assms(2) by (auto simp: extends_def prefix_of_eq)
  with assms(1) show ?thesis by (auto simp: replays_def)
qed

lemma replays_record: "replays R key ep h d r s \<Longrightarrow> key \<in> idem_Key ` {k \<in> set (idempotency_keys d). idem_Endpoint k = ep}"
  by (auto simp: replays_def)

text \<open>A booking under a key leaves the record that replays its response.\<close>

lemma posting_replays:
  assumes "posting R d key hash t d'" "proper d t" "runtime_laws R" "key \<noteq> []"
  shows "replays R key (endpoint_of t) hash d' (TransactionFromModel t) 201"
proof -
  have "\<exists>k\<in>set (idempotency_keys d'). idem_record R t key hash k"
    using assms(1,4) unfolding posting_def by fastforce
  then obtain k where k: "k \<in> set (idempotency_keys d')" "idem_record R t key hash k" by blast
  have "response_of_json R (response_to_json R (TransactionFromModel t)) = Inr (TransactionFromModel t)"
    using runtime_laws.response_json_roundtrip [OF assms(3)] assms(2)
    by (simp add: TransactionFromModel_def proper_def)
  with k show ?thesis by (auto simp: replays_def idem_record_def)
qed

text \<open>
  \<open>outcome\<close> is the common shape of a success: a replay, or a booking of the endpoint's type. A
  second success under the same key, in a world that extends the first, is a replay of the first.
\<close>

definition outcome ::
  "'h runtime \<Rightarrow> string \<Rightarrow> string \<Rightarrow> string \<Rightarrow> 'h world \<Rightarrow> transaction_response \<Rightarrow> int \<Rightarrow> 'h world \<Rightarrow> bool" where
  "outcome R key ep hash w resp st w' \<longleftrightarrow>
    (replays R key ep hash (db w) resp st \<and> visible w' = visible w) \<or>
    (st = 201 \<and> (\<exists>t. committed R (db w) key hash t resp (db w') \<and> endpoint_of t = ep))"

lemma outcome_replays:
  assumes "outcome R key ep hash w resp st w'" "runtime_laws R" "key \<noteq> []"
  shows "replays R key ep hash (db w') resp st"
  using assms posting_replays [OF _ _ assms(2,3)]
  by (auto simp: outcome_def committed_def dest: visible_db)

lemma outcome_again:
  assumes "outcome R key ep hash w resp st w1" "runtime_laws R" "key \<noteq> []"
    and "extends (db w1) (db w2)" "wf_db (db w2)" "outcome R key ep hash2 w2 resp2 st2 w3"
  shows "hash2 = hash \<and> resp2 = resp \<and> st2 = st \<and> visible w3 = visible w2"
proof -
  note r = replays_extends [OF outcome_replays [OF assms(1-3)] assms(4)]
  from r obtain k where "k \<in> set (idempotency_keys (db w2))" "idem_Key k = key" "idem_Endpoint k = ep"
    by (auto simp: replays_def)
  with assms(6) posting_fresh_key [OF _ assms(3)]
  have "replays R key ep hash2 (db w2) resp2 st2 \<and> visible w3 = visible w2"
    unfolding outcome_def committed_def by blast
  with replays_unique [OF assms(5) r] show ?thesis by blast
qed

lemma outcome_fresh:
  assumes "outcome R key ep hash w resp st w'"
    and "key \<notin> idem_Key ` {k \<in> set (idempotency_keys (db w)). idem_Endpoint k = ep}"
  shows "st = 201 \<and> (\<exists>t. committed R (db w) key hash t resp (db w') \<and> endpoint_of t = ep)"
  using assms replays_record unfolding outcome_def by metis

context money_laws
begin

lemma TopUp_outcome:
  assumes "TopUp S req key w = (Inr (resp, st), w')" "wf_db (db w)"
  shows "outcome (RT (ts_env S)) key topUpEndpoint
    (sha256_hex (RT (ts_env S)) (top_up_to_json (RT (ts_env S)) req)) w resp st w'"
  using TopUp_Inr [OF assms] by cases (auto simp: outcome_def endpoint_of_type)

lemma Transfer_outcome:
  assumes "Transfer S req key w = (Inr (resp, st), w')" "wf_db (db w)"
  shows "outcome (RT (ts_env S)) key transferEndpoint
    (sha256_hex (RT (ts_env S)) (transfer_to_json (RT (ts_env S)) req)) w resp st w'"
  using Transfer_Inr [OF assms] by cases (auto simp: outcome_def endpoint_of_type)

lemma Reverse_outcome:
  assumes "Reverse S i key w = (Inr (resp, st), w')" "wf_db (db w)" "transactions_ok (db w)"
  shows "outcome (RT (ts_env S)) key reverseEndpoint
    (sha256_hex (RT (ts_env S)) (reverse_to_json (RT (ts_env S)) i)) w resp st w'"
  using Reverse_Inr [OF assms] by cases (auto simp: outcome_def endpoint_of_type)

end

section \<open>Errors\<close>

text \<open>
  The errors: nothing has changed, and an application error names a reason that holds of the
  database; any other error comes from opening or committing the database transaction.
\<close>

definition other_request :: "string \<Rightarrow> string \<Rightarrow> string \<Rightarrow> db \<Rightarrow> bool" where
  "other_request key ep hash d \<longleftrightarrow> key \<noteq> [] \<and>
    (\<exists>r\<in>set (idempotency_keys d). idem_Key r = key \<and> idem_Endpoint r = ep \<and> RequestHash r \<noteq> hash)"

definition live_wallet :: "db \<Rightarrow> uuid \<Rightarrow> wallet \<Rightarrow> bool" where
  "live_wallet d i x \<longleftrightarrow> x \<in> set (wallets d) \<and> wallet_live x \<and> ID x = i"

definition topup_refused :: "db \<Rightarrow> top_up_request \<Rightarrow> string \<Rightarrow> go_error \<Rightarrow> bool" where
  "topup_refused d req key e \<longleftrightarrow> e = in_use \<and> key \<noteq> [] \<or>
    e = not_found \<and> (tu_WalletID req = SystemWalletID \<or> (\<nexists>x. live_wallet d SystemWalletID x) \<or>
      (\<nexists>x. live_wallet d (tu_WalletID req) x)) \<or>
    e = AppErr WalletNotActive \<and> (\<exists>x. live_wallet d (tu_WalletID req) x \<and> \<not> IsActive x)"

definition transfer_refused :: "db \<Rightarrow> transfer_request \<Rightarrow> string \<Rightarrow> go_error \<Rightarrow> bool" where
  "transfer_refused d req key e \<longleftrightarrow> e = in_use \<and> key \<noteq> [] \<or>
    e = invalid \<and> tr_SourceWalletID req = tr_DestinationWalletID req \<or>
    e = not_found \<and> ((\<nexists>x. live_wallet d (tr_SourceWalletID req) x) \<or>
      (\<nexists>x. live_wallet d (tr_DestinationWalletID req) x)) \<or>
    e = AppErr WalletNotActive \<and> (\<exists>x. \<not> IsActive x \<and> (live_wallet d (tr_SourceWalletID req) x \<or>
      live_wallet d (tr_DestinationWalletID req) x)) \<or>
    e = AppErr InsufficientFunds \<and> (\<exists>x. live_wallet d (tr_SourceWalletID req) x \<and>
      sint (BalanceCachedMinor x) < sint (tr_AmountMinor req))"

definition reverse_refused :: "db \<Rightarrow> uuid \<Rightarrow> string \<Rightarrow> go_error \<Rightarrow> bool" where
  "reverse_refused d i key e \<longleftrightarrow> e = in_use \<and> key \<noteq> [] \<or> e = not_found \<or> e = invalid \<or>
    (\<exists>orig\<in>set (transactions d). ID orig = i \<and>
      (e = AppErr AlreadyReversed \<and> Status orig = TransactionStatusReversed \<or>
       e = AppErr InsufficientFunds \<and> (\<exists>b y. DestinationWalletID orig = Some b \<and> live_wallet d b y \<and>
         sint (BalanceCachedMinor y) < sint (AmountMinor orig))))"

context money_laws
begin

lemma guarded_reason:
  assumes "guarded S key ep hash body w = (Inl e, w')"
    and "\<And>a w1 w2. visible w1 = visible w \<Longrightarrow> body w1 = (Inl (AppErr a), w2) \<Longrightarrow>
      is_internal (AppErr a) \<or> P (AppErr a)"
  shows "(\<forall>a. e \<noteq> AppErr a) \<or> is_internal e \<or>
    e = AppErr IdempotencyConflict \<and> other_request key ep hash (db w) \<or> P e"
proof (cases "\<exists>a. e = AppErr a")
  case True
  then obtain a where a: "e = AppErr a" by blast
  from assms(1) [unfolded a] show ?thesis unfolding a
    by (cases rule: guarded_AppErr) (use assms(2) in \<open>auto simp: other_request_def\<close>)
qed blast

lemma TopUp_reason:
  assumes "TopUp S req key w = (Inl e, w')"
  shows "(\<forall>a. e \<noteq> AppErr a) \<or> is_internal e \<or>
    e = AppErr IdempotencyConflict \<and> other_request key topUpEndpoint
      (sha256_hex (RT (ts_env S)) (top_up_to_json (RT (ts_env S)) req)) (db w) \<or>
    topup_refused (db w) req key e"
  by (rule guarded_reason [OF assms [unfolded TopUp_guarded]], drule TopUp_tx_errors, drule visible_db)
    (auto simp: topup_refused_def live_wallet_def)

lemma Transfer_reason:
  assumes "Transfer S req key w = (Inl e, w')"
  shows "(\<forall>a. e \<noteq> AppErr a) \<or> is_internal e \<or>
    e = AppErr IdempotencyConflict \<and> other_request key transferEndpoint
      (sha256_hex (RT (ts_env S)) (transfer_to_json (RT (ts_env S)) req)) (db w) \<or>
    transfer_refused (db w) req key e"
proof (cases "tr_SourceWalletID req = tr_DestinationWalletID req")
  case True
  with assms show ?thesis by (simp add: Transfer_def throwE_def transfer_refused_def)
next
  case False
  show ?thesis
    by (rule guarded_reason [OF assms [unfolded Transfer_guarded [OF False]]], drule Transfer_tx_errors,
        drule visible_db) (use False in \<open>auto simp: transfer_refused_def live_wallet_def\<close>)
qed

lemma Reverse_reason:
  assumes "Reverse S i key w = (Inl e, w')"
  shows "(\<forall>a. e \<noteq> AppErr a) \<or> is_internal e \<or>
    e = AppErr IdempotencyConflict \<and> other_request key reverseEndpoint
      (sha256_hex (RT (ts_env S)) (reverse_to_json (RT (ts_env S)) i)) (db w) \<or>
    reverse_refused (db w) i key e"
  by (rule guarded_reason [OF assms [unfolded Reverse_guarded]], drule Reverse_tx_errors, drule visible_db)
    (auto simp: reverse_refused_def live_wallet_def)

end

section \<open>The wired program\<close>

context app_laws
begin

lemma deployed_wf: "deployed app w \<Longrightarrow> wf_db (db w) \<and> transactions_ok (db w)"
  using deployed_inv inv_db_wf by blast

lemma committed_booked:
  "committed (RT E) d key hash t resp d' \<Longrightarrow> booked (RT E) d t d' \<and> resp = TransactionFromModel t"
  using posting_booked runtime_laws_axioms by (auto simp: committed_def)

lemma committed_plain:
  "committed R d key hash t resp d' \<Longrightarrow> Type t \<noteq> TransactionTypeReversal \<Longrightarrow>
    transactions d' = transactions d @ [t]"
  using posting_plain by (auto simp: committed_def)

lemma Transfer_cases:
  assumes "deployed app w" "Transfer (app_transactions app) req key w = (Inr (resp, st), w')"
  obtains (replay) "replays (RT E) key transferEndpoint (sha256_hex (RT E) (transfer_to_json (RT E) req))
      (db w) resp st" "visible w' = visible w"
  | (books) t x y where "st = 201" "streams w' = streams w" "booked (RT E) (db w) t (db w')"
      "transactions (db w') = transactions (db w) @ [t]" "resp = TransactionFromModel t"
      "Type t = TransactionTypeTransfer" "AmountMinor t = tr_AmountMinor req"
      "SourceWalletID t = Some (tr_SourceWalletID req)"
      "DestinationWalletID t = Some (tr_DestinationWalletID req)"
      "live_wallet (db w) (tr_SourceWalletID req) x" "IsActive x"
      "live_wallet (db w) (tr_DestinationWalletID req) y" "IsActive y"
      "sint (tr_AmountMinor req) \<le> sint (BalanceCachedMinor x)"
proof (rule ts.Transfer_Inr [OF assms(2)], goal_cases)
  case 1
  then show ?case using deployed_wf [OF assms(1)] by blast
next
  case 2
  then show ?case by (intro replay) simp_all
next
  case (3 t x y)
  then have c: "committed (RT E) (db w) key (sha256_hex (RT E) (transfer_to_json (RT E) req)) t resp (db w')"
    by simp
  show ?case
    by (rule books [of t x y]) (use 3 committed_booked [OF c] committed_plain [OF c] in \<open>simp_all add: live_wallet_def\<close>)
qed

lemma TopUp_cases:
  assumes "deployed app w" "TopUp (app_transactions app) req key w = (Inr (resp, st), w')"
  obtains (replay) "replays (RT E) key topUpEndpoint (sha256_hex (RT E) (top_up_to_json (RT E) req))
      (db w) resp st" "visible w' = visible w"
  | (books) t y where "st = 201" "streams w' = streams w" "booked (RT E) (db w) t (db w')"
      "transactions (db w') = transactions (db w) @ [t]" "resp = TransactionFromModel t"
      "Type t = TransactionTypeTopUp" "AmountMinor t = tu_AmountMinor req"
      "SourceWalletID t = Some SystemWalletID" "DestinationWalletID t = Some (tu_WalletID req)"
      "live_wallet (db w) (tu_WalletID req) y" "IsActive y"
proof (rule ts.TopUp_Inr [OF assms(2)], goal_cases)
  case 1
  then show ?case using deployed_wf [OF assms(1)] by blast
next
  case 2
  then show ?case by (intro replay) simp_all
next
  case (3 t y)
  then have c: "committed (RT E) (db w) key (sha256_hex (RT E) (top_up_to_json (RT E) req)) t resp (db w')"
    by simp
  show ?case
    by (rule books [of t y]) (use 3 committed_booked [OF c] committed_plain [OF c] in \<open>simp_all add: live_wallet_def\<close>)
qed

lemma Reverse_cases:
  assumes "deployed app w" "Reverse (app_transactions app) i key w = (Inr (resp, st), w')"
  obtains (replay) "replays (RT E) key reverseEndpoint (sha256_hex (RT E) (reverse_to_json (RT E) i))
      (db w) resp st" "visible w' = visible w"
  | (books) t orig at b y where "st = 201" "streams w' = streams w" "booked (RT E) (db w) t (db w')"
      "transactions (db w') = map (mark_reversed at (Some i)) (transactions (db w)) @ [t]"
      "resp = TransactionFromModel t" "Type t = TransactionTypeReversal" "RelatedTransactionID t = Some i"
      "orig \<in> set (transactions (db w))" "ID orig = i" "Status orig = TransactionStatusCompleted"
      "Type orig \<noteq> TransactionTypeReversal" "SourceWalletID t = DestinationWalletID orig"
      "DestinationWalletID t = SourceWalletID orig" "AmountMinor t = AmountMinor orig"
      "DestinationWalletID orig = Some b" "live_wallet (db w) b y"
      "sint (AmountMinor orig) \<le> sint (BalanceCachedMinor y)"
proof (rule ts.Reverse_Inr [OF assms(2)], goal_cases)
  case 1
  then show ?case using deployed_wf [OF assms(1)] by blast
next
  case 2
  then show ?case using deployed_wf [OF assms(1)] by blast
next
  case 3
  then show ?case by (intro replay) simp_all
next
  case (4 t orig y)
  then have c: "committed (RT E) (db w) key (sha256_hex (RT E) (reverse_to_json (RT E) i)) t resp (db w')"
    by simp
  then obtain at where "transactions (db w') = map (mark_reversed at (Some i)) (transactions (db w)) @ [t]"
    using 4 posting_rows(1) by (metis committed_def)
  then show ?case
    by (rule books [of t at orig "ID y" y, rotated 3]) (use 4 committed_booked [OF c] in \<open>simp_all add: live_wallet_def\<close>)
qed

text \<open>The same key again, at any later time.\<close>

lemma deployed_extends: "deployed app w \<Longrightarrow> reachable app w w' \<Longrightarrow> extends (db w) (db w')"
  using reachable_extends deployed_inv by blast

lemma retry:
  assumes "deployed app w" "api_step app w w1" "outcome (RT E) key ep hash w resp st w1" "key \<noteq> []"
    and "reachable app w1 w2" "outcome (RT E) key ep hash2 w2 resp2 st2 w3"
  shows "hash2 = hash \<and> resp2 = resp \<and> st2 = st \<and> visible w3 = visible w2"
proof -
  have d1: "deployed app w1" by (rule deployed_step [OF assms(1,2)])
  show ?thesis
    using outcome_again [OF assms(3) runtime_laws_axioms assms(4) deployed_extends [OF d1 assms(5)] _ assms(6)]
      deployed_wf [OF deployed_later [OF d1 assms(5)]] by blast
qed

lemma app_outcomes:
  assumes "deployed app w"
  shows "TopUp (app_transactions app) treq key w = (Inr (resp, st), w') \<Longrightarrow>
      outcome (RT E) key topUpEndpoint (sha256_hex (RT E) (top_up_to_json (RT E) treq)) w resp st w'"
    and "Transfer (app_transactions app) req key w = (Inr (resp, st), w') \<Longrightarrow>
      outcome (RT E) key transferEndpoint (sha256_hex (RT E) (transfer_to_json (RT E) req)) w resp st w'"
    and "Reverse (app_transactions app) i key w = (Inr (resp, st), w') \<Longrightarrow>
      outcome (RT E) key reverseEndpoint (sha256_hex (RT E) (reverse_to_json (RT E) i)) w resp st w'"
proof -
  note wf = deployed_wf [OF assms, THEN conjunct1] deployed_wf [OF assms, THEN conjunct2]
  show "TopUp (app_transactions app) treq key w = (Inr (resp, st), w') \<Longrightarrow>
      outcome (RT E) key topUpEndpoint (sha256_hex (RT E) (top_up_to_json (RT E) treq)) w resp st w'"
    using ts.TopUp_outcome [OF _ wf(1)] by simp
  show "Transfer (app_transactions app) req key w = (Inr (resp, st), w') \<Longrightarrow>
      outcome (RT E) key transferEndpoint (sha256_hex (RT E) (transfer_to_json (RT E) req)) w resp st w'"
    using ts.Transfer_outcome [OF _ wf(1)] by simp
  show "Reverse (app_transactions app) i key w = (Inr (resp, st), w') \<Longrightarrow>
      outcome (RT E) key reverseEndpoint (sha256_hex (RT E) (reverse_to_json (RT E) i)) w resp st w'"
    using ts.Reverse_outcome [OF _ wf] by simp
qed

text \<open>A transaction that is marked reversed is never reversed again.\<close>

lemma reversed_stays:
  assumes "deployed app w" "orig \<in> set (transactions (db w))" "Status orig = TransactionStatusReversed"
    and "reachable app w w2" "Reverse (app_transactions app) (ID orig) key w2 = (Inr (resp, st), w3)"
  shows "visible w3 = visible w2"
proof (rule Reverse_cases [OF deployed_later [OF assms(1,4)] assms(5)], goal_cases)
  case (2 t orig2 at b y)
  have "\<exists>x\<in>set (transactions (db w2)). tx_kept orig x"
    by (rule prefix_of_in [OF _ assms(2)])
      (use deployed_extends [OF assms(1,4)] in \<open>simp add: extends_def\<close>)
  then have "orig \<in> set (transactions (db w2))" using assms(3) by (auto simp: tx_kept_def)
  from distinct_key_eq [OF wf_db_distinct(3) [OF deployed_wf [OF deployed_later [OF assms(1,4)], THEN conjunct1]]
      2(8) this 2(9)]
  show ?case using 2(10) assms(3) by simp
qed blast

text \<open>An error changes nothing, and an application error names its reason.\<close>

lemma app_refusals:
  "TopUp (app_transactions app) treq key w = (Inl e, w') \<Longrightarrow> visible w' = visible w \<and>
    ((\<forall>a. e \<noteq> AppErr a) \<or> is_internal e \<or> e = AppErr IdempotencyConflict \<and> other_request key topUpEndpoint
      (sha256_hex (RT E) (top_up_to_json (RT E) treq)) (db w) \<or> topup_refused (db w) treq key e)"
  "Transfer (app_transactions app) req key w = (Inl e, w') \<Longrightarrow> visible w' = visible w \<and>
    ((\<forall>a. e \<noteq> AppErr a) \<or> is_internal e \<or> e = AppErr IdempotencyConflict \<and> other_request key transferEndpoint
      (sha256_hex (RT E) (transfer_to_json (RT E) req)) (db w) \<or> transfer_refused (db w) req key e)"
  "Reverse (app_transactions app) i key w = (Inl e, w') \<Longrightarrow> visible w' = visible w \<and>
    ((\<forall>a. e \<noteq> AppErr a) \<or> is_internal e \<or> e = AppErr IdempotencyConflict \<and> other_request key reverseEndpoint
      (sha256_hex (RT E) (reverse_to_json (RT E) i)) (db w) \<or> reverse_refused (db w) i key e)"
  using ts.TopUp_reason [of treq key w e w'] ts.Transfer_reason [of req key w e w']
    ts.Reverse_reason [of i key w e w'] ts.money_Inl by simp_all

text \<open>A reversal that books leaves its original marked, so that no later reversal of it books.\<close>

lemma reverse_final:
  assumes "deployed app w" "Reverse (app_transactions app) i key w = (Inr (resp, st), w1)"
    and "key \<notin> idem_Key ` {k \<in> set (idempotency_keys (db w)). idem_Endpoint k = reverseEndpoint}"
    and "reachable app w1 w2" "Reverse (app_transactions app) i key2 w2 = (Inr (resp2, st2), w3)"
  shows "visible w3 = visible w2"
proof (rule Reverse_cases [OF assms(1,2)], goal_cases)
  case 1
  then show ?case using assms(3) replays_record by blast
next
  case (2 t orig at b y)
  have d1: "deployed app w1" by (rule deployed_step [OF assms(1) api_step.reverse [OF assms(2)]])
  have "mark_reversed at (Some i) orig \<in> set (transactions (db w1))" using 2(4,8) by simp
  with 2(9) reversed_stays [OF d1 _ _ assms(4), of "mark_reversed at (Some i) orig"] assms(5)
  show ?case by simp
qed

lemma publish_safe:
  assumes "deployed app w" "PublishPending (app_worker app) w = (r, w')"
  shows "\<exists>es ss. set es \<subseteq> {e \<in> set (outbox_events (db w)). outbox_Status e = OutboxStatusPending} \<and>
    batch_step (app_worker app) es w ss w'"
  by (rule wk.PublishPending_step [OF assms(2) wf_db_distinct(4)]) (use deployed_wf [OF assms(1)] in blast)

end

end
