(* ===== verification/Solvency.thy ===== *)
theory Solvency
  imports Outcomes
begin

text \<open>
  Solvency as integers. The balances are 64-bit words and the code checks no overflow; as long as
  the amounts booked are positive and add up to less than 2^63, no balance wraps, and only the
  system wallet can be below zero.
\<close>

definition volume :: "db \<Rightarrow> int" where
  "volume d = sum_list (map (\<lambda>t. sint (AmountMinor t)) (transactions d))"

definition in_range :: "db \<Rightarrow> bool" where
  "in_range d \<longleftrightarrow> (\<forall>t\<in>set (transactions d). 0 < sint (AmountMinor t)) \<and> volume d < 2 ^ 63"

definition solvent :: "db \<Rightarrow> bool" where
  "solvent d \<longleftrightarrow> (\<forall>i v. balances d i = Some v \<longrightarrow>
    \<bar>sint v\<bar> \<le> volume d \<and> (i \<noteq> SystemWalletID \<longrightarrow> 0 \<le> sint v))"

text \<open>A booking takes from the system wallet or from a wallet that holds the amount.\<close>

definition covered :: "db \<Rightarrow> transaction \<Rightarrow> bool" where
  "covered d t \<longleftrightarrow> SourceWalletID t = Some SystemWalletID \<or>
    (\<exists>a v. SourceWalletID t = Some a \<and> balances d a = Some v \<and> sint (AmountMinor t) \<le> sint v)"

text \<open>A step that books nothing keeps every balance; a new wallet is empty.\<close>

definition quiet :: "db \<Rightarrow> db \<Rightarrow> bool" where
  "quiet d d' \<longleftrightarrow> map AmountMinor (transactions d') = map AmountMinor (transactions d) \<and>
    (\<forall>i v. balances d' i = Some v \<longrightarrow> balances d i = Some v \<or> v = 0)"

lemma sint_minus: "- (2 ^ 63) \<le> sint a - sint b \<Longrightarrow> sint a - sint b < 2 ^ 63 \<Longrightarrow> sint (a - b :: int64) = sint a - sint b"
  by (simp add: sint_word_ariths signed_take_bit_int_eq_self)

lemma sint_plus: "- (2 ^ 63) \<le> sint a + sint b \<Longrightarrow> sint a + sint b < 2 ^ 63 \<Longrightarrow> sint (a + b :: int64) = sint a + sint b"
  by (simp add: sint_word_ariths signed_take_bit_int_eq_self)

lemma volume_amounts: "map AmountMinor (transactions d') = map AmountMinor (transactions d) \<Longrightarrow>
    volume d' = volume d \<and> in_range d' = in_range d"
proof -
  assume a: "map AmountMinor (transactions d') = map AmountMinor (transactions d)"
  then have "map (sint \<circ> AmountMinor) (transactions d') = map (sint \<circ> AmountMinor) (transactions d)"
    by (metis map_map)
  moreover from a have "AmountMinor ` set (transactions d') = AmountMinor ` set (transactions d)"
    by (metis list.set_map)
  then have "(\<forall>t\<in>set (transactions d'). 0 < sint (AmountMinor t)) =
      (\<forall>t\<in>set (transactions d). 0 < sint (AmountMinor t))"
    by (metis (no_types, lifting) image_iff)
  ultimately show ?thesis by (simp add: volume_def in_range_def comp_def)
qed

lemma volume_nonneg: "in_range d \<Longrightarrow> 0 \<le> volume d"
  unfolding in_range_def volume_def by (intro sum_list_nonneg) auto

lemma solvent_quiet: "quiet d d' \<Longrightarrow> in_range d \<Longrightarrow> solvent d \<Longrightarrow> solvent d'"
  using volume_amounts [of d' d] volume_nonneg [of d]
  by (fastforce simp: quiet_def solvent_def)

lemma solvent_booking:
  assumes "booked R d t d'" "covered d t" "solvent d" "0 < sint (AmountMinor t)"
    and "volume d' = volume d + sint (AmountMinor t)" "volume d' < 2 ^ 63"
  shows "solvent d'"
proof -
  let ?n = "AmountMinor t"
  from assms(1) obtain a b where ab: "SourceWalletID t = Some a" "a \<noteq> b"
      "a \<in> dom (balances d)" "b \<in> dom (balances d)" "balances d' = move a b ?n (balances d)"
    by (auto simp: booked_def)
  then obtain x y where xy: "balances d a = Some x" "balances d b = Some y" by blast
  have d': "balances d' = (balances d)(a \<mapsto> x - ?n, b \<mapsto> y + ?n)"
    using ab(5) xy by (simp add: move_def)
  have x: "\<bar>sint x\<bar> \<le> volume d" "a \<noteq> SystemWalletID \<Longrightarrow> sint ?n \<le> sint x"
    and y: "\<bar>sint y\<bar> \<le> volume d" "b \<noteq> SystemWalletID \<Longrightarrow> 0 \<le> sint y"
    using assms(2,3) ab(1) xy by (auto simp: solvent_def covered_def)
  have "sint (x - ?n) = sint x - sint ?n" "sint (y + ?n) = sint y + sint ?n"
    by (rule sint_minus sint_plus; use x y assms(4-6) in linarith)+
  with d' x y assms(3-5) show ?thesis
    unfolding solvent_def by (auto split: if_splits) fastforce+
qed

section \<open>Every step is quiet or a covered booking\<close>

lemma quiet_visible: "visible w' = visible w \<Longrightarrow> quiet (db w) (db w')"
  by (simp add: quiet_def visible_eq)

lemma quiet_frame: "transactions d' = transactions d \<Longrightarrow> wallets d' = wallets d \<Longrightarrow> quiet d d'"
  by (simp add: quiet_def balances_def)

lemma quiet_new_wallet:
  "BalanceCachedMinor wl = 0 \<Longrightarrow> quiet d (d\<lparr>wallets := wallets d @ [wl]\<rparr>)"
  by (auto simp: quiet_def balances_def map_add_Some_iff split: if_splits)

lemma quiet_same_wallets:
  assumes "list_all2 (\<lambda>x x'. ID x' = ID x \<and> BalanceCachedMinor x' = BalanceCachedMinor x) (wallets d) ws"
  shows "quiet d (d\<lparr>wallets := ws\<rparr>)"
proof -
  have "map (\<lambda>wl. (ID wl, BalanceCachedMinor wl)) ws = map (\<lambda>wl. (ID wl, BalanceCachedMinor wl)) (wallets d)"
    using assms by (induction rule: list_all2_induct) auto
  then show ?thesis by (simp add: quiet_def balances_def)
qed

lemma quiet_trans: "quiet d e \<Longrightarrow> quiet e f \<Longrightarrow> quiet d f"
  unfolding quiet_def by metis

text \<open>What a step does to the amounts and the balances.\<close>

definition sheet_step :: "'h runtime \<Rightarrow> db \<Rightarrow> db \<Rightarrow> bool" where
  "sheet_step R d d' \<longleftrightarrow> quiet d d' \<or> (\<exists>t. booked R d t d' \<and> covered d t \<and>
    map AmountMinor (transactions d') = map AmountMinor (transactions d) @ [AmountMinor t])"

lemma live_wallet_balance: "wf_db d \<Longrightarrow> live_wallet d i x \<Longrightarrow> balances d i = Some (BalanceCachedMinor x)"
  using balances_row [OF wf_db_distinct(2)] by (auto simp: live_wallet_def)

context app_laws
begin

lemma money_sheet:
  assumes "deployed app w"
  shows "TopUp (app_transactions app) treq key w = (r, w') \<Longrightarrow> sheet_step (RT E) (db w) (db w')"
    and "Transfer (app_transactions app) req key w = (r, w') \<Longrightarrow> sheet_step (RT E) (db w) (db w')"
    and "Reverse (app_transactions app) i key w = (r, w') \<Longrightarrow> sheet_step (RT E) (db w) (db w')"
proof -
  note wf = deployed_wf [OF assms, THEN conjunct1]
  show "sheet_step (RT E) (db w) (db w')" if run: "TopUp (app_transactions app) treq key w = (r, w')"
  proof (cases r)
    case (Inl e)
    with run ts.money_Inl(1) show ?thesis by (auto simp: sheet_step_def intro!: quiet_visible)
  next
    case (Inr a)
    obtain resp st where a: "a = (resp, st)" by (cases a)
    show ?thesis
      by (rule TopUp_cases [OF assms run [unfolded Inr a]])
        (auto simp: sheet_step_def covered_def dest!: quiet_visible)
  qed
  show "sheet_step (RT E) (db w) (db w')" if run: "Transfer (app_transactions app) req key w = (r, w')"
  proof (cases r)
    case (Inl e)
    with run ts.money_Inl(2) show ?thesis by (auto simp: sheet_step_def intro!: quiet_visible)
  next
    case (Inr a)
    obtain resp st where a: "a = (resp, st)" by (cases a)
    show ?thesis
      by (rule Transfer_cases [OF assms run [unfolded Inr a]])
        (auto simp: sheet_step_def covered_def dest!: quiet_visible live_wallet_balance [OF wf])
  qed
  show "sheet_step (RT E) (db w) (db w')" if run: "Reverse (app_transactions app) i key w = (r, w')"
  proof (cases r)
    case (Inl e)
    with run ts.money_Inl(3) show ?thesis by (auto simp: sheet_step_def intro!: quiet_visible)
  next
    case (Inr a)
    obtain resp st where a: "a = (resp, st)" by (cases a)
    show ?thesis
      by (rule Reverse_cases [OF assms run [unfolded Inr a]])
        (auto simp: sheet_step_def covered_def comp_def dest!: quiet_visible live_wallet_balance [OF wf])
  qed
qed

lemma users_quiet:
  "UserService_Create (app_users app) req w = (r, w') \<Longrightarrow> quiet (db w) (db w')"
  "UserService_Update (app_users app) i ureq w = (r2, w') \<Longrightarrow> quiet (db w) (db w')"
  "UserService_Delete (app_users app) i w = (r3, w') \<Longrightarrow> quiet (db w) (db w')"
proof -
  show "UserService_Create (app_users app) req w = (r, w') \<Longrightarrow> quiet (db w) (db w')"
    by (cases r) (auto intro!: quiet_frame simp: visible_split visible_iff
        dest!: us.UserService_Create_Inl us.UserService_Create_Inr)
  show "UserService_Update (app_users app) i ureq w = (r2, w') \<Longrightarrow> quiet (db w) (db w')"
    by (cases r2) (auto intro!: quiet_frame simp: visible_split visible_iff
        dest!: us.UserService_Update_Inl us.UserService_Update_Inr)
  show "UserService_Delete (app_users app) i w = (r3, w') \<Longrightarrow> quiet (db w) (db w')"
    by (cases r3) (auto intro!: quiet_frame simp: visible_split visible_iff
        dest!: us.UserService_Delete_Inl us.UserService_Delete_Inr)
qed

lemma create_wallet_quiet:
  assumes "WalletService_Create (app_wallets app) req w = (r, w')"
  shows "quiet (db w) (db w')"
proof (cases r)
  case (Inl e)
  with ws.WalletService_Create_Inl assms show ?thesis by (blast intro: quiet_visible)
next
  case (Inr a)
  from ws.WalletService_Create_Inr [OF assms [unfolded Inr]] obtain wl where
    "BalanceCachedMinor wl = 0" "db w' = (db w)\<lparr>wallets := wallets (db w) @ [wl]\<rparr>"
    by (auto simp: visible_split)
  with quiet_new_wallet show ?thesis by simp
qed

lemma update_status_quiet:
  assumes "UpdateStatus (app_wallets app) i st w = (r, w')" "wf_db (db w)"
  shows "quiet (db w) (db w')"
proof (cases r)
  case (Inl e)
  with ws.UpdateStatus_Inl assms show ?thesis by (blast intro: quiet_visible)
next
  case (Inr a)
  from ws.UpdateStatus_Inr [OF assms(1) [unfolded Inr]] obtain wl t where
    wl: "wl \<in> set (wallets (db w))" "ID wl = i"
    and d: "db w' = (db w)\<lparr>wallets := replace_row (\<lambda>x. ID x = i \<and> wallet_live x)
      (touch t (wl\<lparr>wallet_Status := st\<rparr>)) (wallets (db w))\<rparr>"
    by (auto simp: visible_split)
  have "\<And>x. x \<in> set (wallets (db w)) \<Longrightarrow> ID x = i \<Longrightarrow> x = wl"
    using wl distinct_key_eq [OF wf_db_distinct(2) [OF assms(2)]] by metis
  then show ?thesis unfolding d
    by (intro quiet_same_wallets list_all2_replace_row) (auto simp: touch_def)
qed

lemma restart_quiet:
  assumes "SeedSystemAccounts E w = (r, w')"
  shows "quiet (db w) (db w')"
proof -
  obtain q w1 where s: "bindE (User_BeforeCreate (RT E) system_user) (gCreateDoNothing (Users (DB E))) w = (q, w1)"
    by (cases "bindE (User_BeforeCreate (RT E) system_user) (gCreateDoNothing (Users (DB E))) w")
  have 1: "quiet (db w) (db w1)"
    using seed_user [OF s] by (auto simp: visible_iff visible_split intro!: quiet_frame)
  obtain q2 w2 where s2: "bindE (Wallet_BeforeCreate (RT E) system_wallet) (gCreateDoNothing (Wallets (DB E))) w1 = (q2, w2)"
    by (cases "bindE (Wallet_BeforeCreate (RT E) system_wallet) (gCreateDoNothing (Wallets (DB E))) w1")
  have "BalanceCachedMinor (born t system_wallet) = 0" for t by (simp add: born_def system_wallet_def)
  then have 2: "quiet (db w1) (db w2)"
    using seed_wallet [OF s2] quiet_new_wallet [of "born _ system_wallet" "db w1"]
    by (auto simp: visible_split dest: quiet_visible)
  have "w' = w1 \<or> w' = w2" using assms s s2
    by (cases q; cases q2)
      (auto simp: SeedSystemAccounts_def bindE_step bindE_stop onErr_step onErr_stop returnE_def)
  with 1 2 quiet_trans show ?thesis by blast
qed

theorem api_step_sheet:
  assumes "deployed app w" "api_step app w w'"
  shows "sheet_step (RT E) (db w) (db w')"
  using assms(2)
proof cases
  case idle
  then show ?thesis by (simp add: sheet_step_def quiet_visible)
next
  case (get_balance i r5)
  from get_balance_db [OF this] show ?thesis by (simp add: sheet_step_def quiet_frame)
next
  case (update_status i status r6)
  from update_status_quiet [OF this deployed_wf [OF assms(1), THEN conjunct1]] show ?thesis
    by (simp add: sheet_step_def)
next
  case (publish r10)
  from wk.PublishPending_step [OF this wf_db_distinct(4) [OF deployed_wf [OF assms(1), THEN conjunct1]]]
  show ?thesis by (auto simp: sheet_step_def batch_step_def intro!: quiet_frame)
next
  case (restart r11)
  then show ?thesis using restart_quiet by (simp add: sheet_step_def)
qed (simp_all add: sheet_step_def users_quiet create_wallet_quiet money_sheet [OF assms(1), unfolded sheet_step_def])

theorem deployed_solvent:
  assumes "reachable app w0 w" "db w0 = empty_db" "in_range (db w)"
  shows "solvent (db w)"
  using assms(1,3)
proof (induction rule: reachable.induct)
  case start
  then show ?case by (simp add: assms(2) solvent_def balances_def empty_db_def)
next
  case (step w w')
  have d: "deployed app w" using step.hyps(1) assms(2) unfolding deployed_def by blast
  from api_step_sheet [OF d step.hyps(2)] show ?case unfolding sheet_step_def
  proof (elim disjE exE conjE)
    assume q: "quiet (db w) (db w')"
    have r: "in_range (db w)"
      using volume_amounts [OF conjunct1 [OF q [unfolded quiet_def]]] step.prems by simp
    show ?thesis by (rule solvent_quiet [OF q r step.IH [OF r]])
  next
    fix t assume b: "booked (RT E) (db w) t (db w')" "covered (db w) t"
      and m: "map AmountMinor (transactions (db w')) = map AmountMinor (transactions (db w)) @ [AmountMinor t]"
    have v: "volume (db w') = volume (db w) + sint (AmountMinor t)"
      using arg_cong [OF m, of "\<lambda>xs. sum_list (map sint xs)"] by (simp add: volume_def comp_def)
    have "\<forall>n\<in>set (map AmountMinor (transactions (db w'))). 0 < sint n"
      using step.prems by (auto simp: in_range_def)
    then have n: "0 < sint (AmountMinor t)" "in_range (db w)"
      using step.prems v unfolding m by (auto simp: in_range_def)
    show ?thesis
      by (rule solvent_booking [OF b _ n(1) v]) (use n step in \<open>simp_all add: in_range_def\<close>)
  qed
qed

end

end
