(* ===== verification/Delivery.thy ===== *)
theory Delivery
  imports Outcomes
begin

text \<open>
  The outbox and the stream over a whole run: an event is marked published only when its message is
  on the stream, the stream holds messages of committed transactions only, and a worker that is up
  drains every backlog in as many batches as it takes.
\<close>

section \<open>Published means sent\<close>

definition sent :: "'h worker \<Rightarrow> 'h world \<Rightarrow> outbox_event \<Rightarrow> bool" where
  "sent W w e \<longleftrightarrow> (\<exists>q\<in>set (streams w). to_send W [e] = [q])"

definition delivered :: "'h worker \<Rightarrow> 'h world \<Rightarrow> bool" where
  "delivered W w \<longleftrightarrow> (\<forall>e\<in>set (outbox_events (db w)). outbox_Status e = OutboxStatusPending \<or>
      outbox_Status e = OutboxStatusPublished \<and> sent W w e) \<and>
    (\<forall>q\<in>set (streams w). \<exists>e\<in>set (outbox_events (db w)). to_send W [e] = [q])"

text \<open>What a step does to the outbox and the stream.\<close>

definition outbox_step :: "'h worker \<Rightarrow> 'h world \<Rightarrow> 'h world \<Rightarrow> bool" where
  "outbox_step W w w' \<longleftrightarrow>
    (streams w' = streams w \<and> outbox_events (db w') = outbox_events (db w)) \<or>
    (streams w' = streams w \<and> (\<exists>ev. outbox_events (db w') = outbox_events (db w) @ [ev] \<and>
      outbox_Status ev = OutboxStatusPending)) \<or>
    (\<exists>es ss. set es \<subseteq> set (outbox_events (db w)) \<and> batch_step W es w ss w')"

lemma to_send_in:
  assumes "q \<in> set (to_send W es)"
  shows "\<exists>e\<in>set es. to_send W [e] = [q]"
  using assms
proof (induction es)
  case (Cons e es)
  have "to_send W [e] = [q]" if "q \<in> set (to_send W [e])"
    using that by (auto simp: to_send_def split: sum.splits)
  with Cons show ?case by (auto simp: to_send_Cons [of W e es])
qed (simp add: to_send_def)

lemma subseq_in: "subseq xs ys \<Longrightarrow> x \<in> set xs \<Longrightarrow> x \<in> set ys"
  by (auto dest: list_emb_set)

lemma batch_delivered:
  assumes "delivered W w" "batch_step W es w ss w'" "set es \<subseteq> set (outbox_events (db w))"
  shows "delivered W w'"
proof -
  obtain rows where s: "subseq ss (to_send W es)" "streams w' = streams w @ ss"
    and r: "outbox_events (db w') = rows" "list_all2 (row_step W ss (set (map ID es))) (outbox_events (db w)) rows"
    using assms(2) by (auto simp: batch_step_def)
  have 1: "outbox_Status x' = OutboxStatusPending \<or> outbox_Status x' = OutboxStatusPublished \<and> sent W w' x'"
    if x': "x' \<in> set rows" for x'
  proof -
    obtain x where x: "x \<in> set (outbox_events (db w))" "row_step W ss (set (map ID es)) x x'"
      using list_all2_in2 [OF r(2) x'] by blast
    then have "to_send W [x'] = to_send W [x]" by (intro to_send_core) (simp add: row_step_def)
    with x assms(1) s(2) show ?thesis by (auto simp: row_step_def delivered_def sent_def)
  qed
  have 2: "\<exists>x'\<in>set rows. to_send W [x'] = to_send W [x]" if x: "x \<in> set (outbox_events (db w))" for x
    using list_all2_in1 [OF r(2) x] to_send_core unfolding row_step_def by blast
  have "\<exists>e\<in>set es. to_send W [e] = [q]" if "q \<in> set ss" for q
    by (rule to_send_in [OF subseq_in [OF s(1) that]])
  then have old: "\<exists>e\<in>set (outbox_events (db w)). to_send W [e] = [q]" if "q \<in> set (streams w')" for q
    using that assms(1,3) unfolding delivered_def s(2) set_append by blast
  have "\<exists>e\<in>set rows. to_send W [e] = [q]" if "q \<in> set (streams w')" for q
    using old [OF that] 2 by force
  with 1 show ?thesis by (simp add: delivered_def r(1))
qed

lemma step_delivered:
  assumes "delivered W w" "outbox_step W w w'"
  shows "delivered W w'"
  using assms(2) unfolding outbox_step_def
proof (elim disjE conjE exE)
  assume "streams w' = streams w" "outbox_events (db w') = outbox_events (db w)"
  with assms(1) show ?thesis by (simp add: delivered_def sent_def)
next
  fix ev assume "streams w' = streams w" "outbox_events (db w') = outbox_events (db w) @ [ev]"
    "outbox_Status ev = OutboxStatusPending"
  with assms(1) show ?thesis by (auto simp: delivered_def sent_def)
next
  fix es ss assume "set es \<subseteq> set (outbox_events (db w))" "batch_step W es w ss w'"
  with batch_delivered assms(1) show ?thesis by blast
qed

lemma outbox_step_frame:
  "outbox_events d' = outbox_events (db w) \<Longrightarrow> visible w' = (d', k, streams w) \<Longrightarrow> outbox_step W w w'"
  by (simp add: outbox_step_def visible_def)

lemma outbox_step_visible: "visible w' = visible w \<Longrightarrow> outbox_step W w w'"
  by (simp add: outbox_step_def visible_eq)

lemma outbox_step_booked:
  "booked R (db w) t (db w') \<Longrightarrow> streams w' = streams w \<Longrightarrow> outbox_step W w w'"
  by (auto simp: outbox_step_def booked_def)

lemma outbox_step_trans:
  "outbox_step W w v \<Longrightarrow> streams v = streams w \<Longrightarrow> outbox_events (db v) = outbox_events (db w) \<Longrightarrow>
    streams w' = streams v \<Longrightarrow> outbox_events (db w') = outbox_events (db v) \<Longrightarrow> outbox_step W w w'"
  by (simp add: outbox_step_def)

context app_laws
begin

lemma money_outbox:
  assumes "deployed app w"
  shows "TopUp (app_transactions app) treq key w = (r, w') \<Longrightarrow> outbox_step W w w'"
    and "Transfer (app_transactions app) req key w = (r, w') \<Longrightarrow> outbox_step W w w'"
    and "Reverse (app_transactions app) i key w = (r, w') \<Longrightarrow> outbox_step W w w'"
proof -
  show "outbox_step W w w'" if run: "TopUp (app_transactions app) treq key w = (r, w')"
  proof (cases r)
    case (Inl e)
    with run ts.money_Inl(1) show ?thesis by (auto intro!: outbox_step_visible)
  next
    case (Inr a)
    obtain resp st where a: "a = (resp, st)" by (cases a)
    show ?thesis by (rule TopUp_cases [OF assms run [unfolded Inr a]])
      (blast intro: outbox_step_visible outbox_step_booked)+
  qed
  show "outbox_step W w w'" if run: "Transfer (app_transactions app) req key w = (r, w')"
  proof (cases r)
    case (Inl e)
    with run ts.money_Inl(2) show ?thesis by (auto intro!: outbox_step_visible)
  next
    case (Inr a)
    obtain resp st where a: "a = (resp, st)" by (cases a)
    show ?thesis by (rule Transfer_cases [OF assms run [unfolded Inr a]])
      (blast intro: outbox_step_visible outbox_step_booked)+
  qed
  show "outbox_step W w w'" if run: "Reverse (app_transactions app) i key w = (r, w')"
  proof (cases r)
    case (Inl e)
    with run ts.money_Inl(3) show ?thesis by (auto intro!: outbox_step_visible)
  next
    case (Inr a)
    obtain resp st where a: "a = (resp, st)" by (cases a)
    show ?thesis by (rule Reverse_cases [OF assms run [unfolded Inr a]])
      (blast intro: outbox_step_visible outbox_step_booked)+
  qed
qed

text \<open>The other operations leave the outbox and the stream alone.\<close>

lemma users_outbox:
  "UserService_Create (app_users app) req w = (r, w') \<Longrightarrow> outbox_step W w w'"
  "UserService_Update (app_users app) i ureq w = (r2, w') \<Longrightarrow> outbox_step W w w'"
  "UserService_Delete (app_users app) i w = (r3, w') \<Longrightarrow> outbox_step W w w'"
proof -
  show "UserService_Create (app_users app) req w = (r, w') \<Longrightarrow> outbox_step W w w'"
    by (cases r) (auto intro: outbox_step_visible elim!: outbox_step_frame [rotated]
        dest!: us.UserService_Create_Inl us.UserService_Create_Inr)
  show "UserService_Update (app_users app) i ureq w = (r2, w') \<Longrightarrow> outbox_step W w w'"
    by (cases r2) (auto intro: outbox_step_visible elim!: outbox_step_frame [rotated]
        dest!: us.UserService_Update_Inl us.UserService_Update_Inr)
  show "UserService_Delete (app_users app) i w = (r3, w') \<Longrightarrow> outbox_step W w w'"
    by (cases r3) (auto intro: outbox_step_visible elim!: outbox_step_frame [rotated]
        dest!: us.UserService_Delete_Inl us.UserService_Delete_Inr)
qed

lemma wallets_outbox:
  "WalletService_Create (app_wallets app) req w = (r, w') \<Longrightarrow> outbox_step W w w'"
  "UpdateStatus (app_wallets app) i st w = (r2, w') \<Longrightarrow> outbox_step W w w'"
  "GetBalance (app_wallets app) i w = (r3, w') \<Longrightarrow> outbox_step W w w'"
proof -
  show "WalletService_Create (app_wallets app) req w = (r, w') \<Longrightarrow> outbox_step W w w'"
    by (cases r) (auto intro: outbox_step_visible elim!: outbox_step_frame [rotated]
        dest!: ws.WalletService_Create_Inl ws.WalletService_Create_Inr)
  show "UpdateStatus (app_wallets app) i st w = (r2, w') \<Longrightarrow> outbox_step W w w'"
    by (cases r2) (auto intro: outbox_step_visible elim!: outbox_step_frame [rotated]
        dest!: ws.UpdateStatus_Inl ws.UpdateStatus_Inr)
  show "outbox_step W w w'" if run: "GetBalance (app_wallets app) i w = (r3, w')"
  proof (cases r3)
    case (Inl e)
    with run ws.GetBalance_Inl show ?thesis by (blast intro: outbox_step_visible)
  next
    case (Inr a)
    with run ws.GetBalance_Inr [of i w a w'] show ?thesis
      by (auto simp: outbox_step_def visible_eq)
  qed
qed

lemma restart_outbox:
  assumes "SeedSystemAccounts E w = (r, w')"
  shows "outbox_step W w w'"
proof -
  obtain q w1 where s: "bindE (User_BeforeCreate (RT E) system_user) (gCreateDoNothing (Users (DB E))) w = (q, w1)"
    by (cases "bindE (User_BeforeCreate (RT E) system_user) (gCreateDoNothing (Users (DB E))) w")
  obtain q2 w2 where s2: "bindE (Wallet_BeforeCreate (RT E) system_wallet) (gCreateDoNothing (Wallets (DB E))) w1 = (q2, w2)"
    by (cases "bindE (Wallet_BeforeCreate (RT E) system_wallet) (gCreateDoNothing (Wallets (DB E))) w1")
  have 1: "streams w1 = streams w \<and> outbox_events (db w1) = outbox_events (db w)"
    using seed_user [OF s] by (auto simp: visible_def)
  have 2: "streams w2 = streams w1 \<and> outbox_events (db w2) = outbox_events (db w1)"
    using seed_wallet [OF s2] by (auto simp: visible_def)
  have "w' = w1 \<or> w' = w2" using assms s s2
    by (cases q; cases q2)
      (auto simp: SeedSystemAccounts_def bindE_step bindE_stop onErr_step onErr_stop returnE_def)
  with 1 2 show ?thesis by (auto simp: outbox_step_def)
qed

lemma api_step_outbox:
  assumes "deployed app w" "api_step app w w'"
  shows "outbox_step (app_worker app) w w'"
  using assms(2)
proof cases
  case idle
  then show ?thesis by (rule outbox_step_visible)
next
  case (publish r10)
  from publish_safe [OF assms(1) this] show ?thesis by (auto simp: outbox_step_def)
next
  case (restart r11)
  then show ?thesis using restart_outbox by simp
qed (blast intro: users_outbox wallets_outbox money_outbox [OF assms(1)])+

theorem deployed_delivered:
  assumes "reachable app s0 w" "db s0 = empty_db" "streams s0 = []"
  shows "delivered (app_worker app) w"
  using assms(1)
proof (induction rule: reachable.induct)
  case start
  then show ?case using assms(2,3) by (simp add: delivered_def empty_db_def)
next
  case (step w w')
  have "deployed app w" using step.hyps(1) assms(2) unfolding deployed_def by blast
  from step_delivered [OF step.IH api_step_outbox [OF this step.hyps(2)]] show ?case .
qed

text \<open>In the terms of the transactions.\<close>

theorem deployed_messages:
  assumes "reachable app s0 w" "db s0 = empty_db" "streams s0 = []" "q \<in> set (streams w)"
  shows "\<exists>t\<in>set (transactions (db w)). \<exists>eid. q =
    (StreamName, ToStreamValues (RT E) (event_payload eid (event_type_of t) t))"
proof -
  have d: "deployed app w" using assms(1,2) unfolding deployed_def by blast
  obtain e where e: "e \<in> set (outbox_events (db w))" "to_send (app_worker app) [e] = [q]"
    using deployed_delivered [OF assms(1-3)] assms(4) by (auto simp: delivered_def)
  have "list_all2 (event_of (RT E)) (outbox_events (db w)) (transactions (db w))"
    using deployed_inv [OF d] by (simp add: inv_db_def outbox_ok_def)
  from list_all2_in1 [OF this e(1)] obtain t where "t \<in> set (transactions (db w))" "event_of (RT E) e t" by blast
  with e(2) show ?thesis by (force simp: event_of_def to_send_def)
qed

end

section \<open>A worker that is up drains the backlog\<close>

definition pending :: "db \<Rightarrow> outbox_event list" where
  "pending d = filter (\<lambda>e. outbox_Status e = OutboxStatusPending) (outbox_events d)"

definition decodable :: "'h worker \<Rightarrow> db \<Rightarrow> bool" where
  "decodable W d \<longleftrightarrow> (\<forall>e\<in>set (outbox_events d). \<exists>p. ParsePayload (RT (wk_env W)) (PayloadJSON e) = Inr p)"

lemma payload_cores: "map core es = map core ds \<Longrightarrow> map PayloadJSON es = map PayloadJSON ds"
proof -
  assume "map core es = map core ds"
  then have "map (PayloadJSON \<circ> core) es = map (PayloadJSON \<circ> core) ds" by (metis map_map)
  then show ?thesis by (simp add: core_def comp_def)
qed

lemma decodable_alt: "decodable W d \<longleftrightarrow>
    (\<forall>j\<in>set (map PayloadJSON (outbox_events d)). \<exists>p. ParsePayload (RT (wk_env W)) j = Inr p)"
  by (simp add: decodable_def)

lemma row_done_pending:
  assumes "list_all2 (row_done W ids) xs ys"
    and "\<forall>e\<in>set xs. \<exists>p. ParsePayload (RT (wk_env W)) (PayloadJSON e) = Inr p"
  shows "length (filter (\<lambda>e. outbox_Status e = OutboxStatusPending) ys) =
    length (filter (\<lambda>e. outbox_Status e = OutboxStatusPending \<and> ID e \<notin> ids) xs)"
  using assms by (induction rule: list_all2_induct) (auto simp: row_done_def const_defs split: if_splits)

lemma filter_not_taken:
  assumes "distinct (map k ys)"
  shows "length (filter (\<lambda>x. k x \<notin> k ` set (take n ys)) ys) = length ys - n"
proof -
  have "set (map k (take n ys)) \<inter> set (map k (drop n ys)) = {}"
    using assms distinct_append [of "map k (take n ys)" "map k (drop n ys)"]
    by (simp flip: map_append)
  then have "filter (\<lambda>x. k x \<notin> k ` set (take n ys)) (take n ys @ drop n ys) = drop n ys"
    by (subst filter_append) (auto simp: filter_empty_conv intro!: filter_True)
  then show ?thesis by simp
qed

context worker_up
begin

text \<open>One batch takes as many events off the backlog as its size.\<close>

lemma PublishPending_drains:
  assumes "up w" "distinct (map ID (outbox_events (db w)))" "decodable W (db w)" "0 \<le> sint (batchSize W)"
  shows "\<exists>w'. PublishPending W w = (Inr (), w') \<and> up w' \<and>
    map core (outbox_events (db w')) = map core (outbox_events (db w)) \<and>
    length (pending (db w')) = length (pending (db w)) - nat (sint (batchSize W))"
proof -
  obtain es w' where w': "PublishPending W w = (Inr (), w')" "up w'" "batch_done W es w w'"
    and sel: "selected \<lparr>Where = \<lambda>e. outbox_Status e = OutboxStatusPending, Order = CreatedAt, Offset = 0,
      QLimit = Some (sint (batchSize W)), LockUpdate = False\<rparr> (\<lambda>_. True) (outbox_events (db w)) es"
    using PublishPending_done [OF assms(1,2)] by blast
  obtain rows where rows: "outbox_events (db w') = rows"
      "list_all2 (row_done W (ID ` set es)) (outbox_events (db w)) rows"
    using w'(3) by (auto simp: batch_done_def)
  obtain ys where ys: "mset ys = mset (pending (db w))" "es = take (nat (sint (batchSize W))) ys"
    using sel assms(4) by (auto simp: selected_def window_def pending_def)
  have "distinct (map ID (pending (db w)))"
    using assms(2) by (simp add: pending_def distinct_map_filter)
  then have d: "distinct (map ID ys)" by (metis ys(1) mset_map mset_eq_imp_distinct_iff)
  have "length (pending (db w')) = length (filter (\<lambda>e. ID e \<notin> ID ` set es) (pending (db w)))"
    using row_done_pending [OF rows(2)] assms(3) rows(1)
    by (simp add: pending_def decodable_def conj_commute)
  also have "\<dots> = length (filter (\<lambda>e. ID e \<notin> ID ` set es) ys)"
    by (metis ys(1) mset_filter size_mset)
  also have "\<dots> = length (pending (db w)) - nat (sint (batchSize W))"
    unfolding ys(2) filter_not_taken [OF d] by (metis ys(1) size_mset)
  finally have "length (pending (db w')) = length (pending (db w)) - nat (sint (batchSize W))" .
  moreover have "map core rows = map core (outbox_events (db w))"
    using rows(2) by (induction rule: list_all2_induct) (simp_all add: row_done_def)
  ultimately show ?thesis using w'(1,2) rows(1) by blast
qed

text \<open>The loop runs a batch at the start and one after each tick.\<close>

theorem worker_run_drains:
  assumes "up w" "distinct (map ID (outbox_events (db w)))" "decodable W (db w)" "0 \<le> sint (batchSize W)"
  shows "\<exists>w'. worker_run W ticks w = (Inr (), w') \<and> up w' \<and>
    map core (outbox_events (db w')) = map core (outbox_events (db w)) \<and>
    length (pending (db w')) = length (pending (db w)) - (ticks + 1) * nat (sint (batchSize W))"
  using assms(1-3)
proof (induction ticks arbitrary: w)
  case 0
  then show ?case using PublishPending_drains [OF _ _ _ assms(4), of w]
    by (auto simp: handleE_def)
next
  case (Suc ticks)
  obtain w1 where w1: "PublishPending W w = (Inr (), w1)" "up w1"
      "map core (outbox_events (db w1)) = map core (outbox_events (db w))"
      "length (pending (db w1)) = length (pending (db w)) - nat (sint (batchSize W))"
    using PublishPending_drains [OF Suc.prems assms(4)] by blast
  have "map ID (outbox_events (db w1)) = map ID (outbox_events (db w))"
    using arg_cong [OF w1(3), of "map ID"] by (simp add: core_def comp_def)
  then obtain w' where w': "worker_run W ticks w1 = (Inr (), w')" "up w'"
      "map core (outbox_events (db w')) = map core (outbox_events (db w1))"
      "length (pending (db w')) = length (pending (db w1)) - (ticks + 1) * nat (sint (batchSize W))"
    using Suc.IH [OF w1(2)] Suc.prems(2,3) payload_cores [OF w1(3)] by (auto simp: decodable_alt)
  moreover have "worker_run W (Suc ticks) w = (Inr (), w')"
    using w1(1) w'(1) by (simp add: handleE_def bindE_def)
  ultimately show ?case using w1(3,4) by auto
qed

end

section \<open>The wired program, up\<close>

text \<open>The database, Redis and the runtime answer as long as the shared state \<open>up\<close> holds.\<close>

locale app_up = app_laws E client + env_up E up + redis_up client up
  for E :: "'h env" and client :: "'h redis" and up :: "'h world \<Rightarrow> bool"

sublocale app_up \<subseteq> wk_up: worker_up "app_worker (wire E client cfg)" up
  unfolding worker_up_def wire_env
  using env_up_axioms wk.worker_laws_axioms publisher_up.stream_publisher_up_axioms by simp

context app_up
begin

lemma deployed_decodable:
  assumes "deployed app w"
  shows "decodable (app_worker app) (db w)"
proof -
  have "list_all2 (event_of (RT E)) (outbox_events (db w)) (transactions (db w))"
    using deployed_inv [OF assms] by (simp add: inv_db_def outbox_ok_def)
  from list_all2_in1 [OF this] show ?thesis by (fastforce simp: decodable_def event_of_def)
qed

lemma worker_reaches:
  "worker_run (app_worker app) ticks w = (r, w') \<Longrightarrow> reachable app w w'"
proof (induction ticks arbitrary: w)
  case 0
  then show ?case
    by (auto simp: handleE_def returnE_def split: prod.splits sum.splits intro: reachable_one api_step.publish)
next
  case (Suc ticks)
  obtain q w1 where p: "PublishPending (app_worker app) w = (q, w1)" by fastforce
  then have "worker_run (app_worker app) ticks w1 = (r, w')"
    using Suc.prems by (cases q) (auto simp: handleE_def bindE_def returnE_def)
  from reachable_trans [OF Suc.IH [OF this] reachable_one [OF api_step.publish [OF p]]] show ?case .
qed

theorem backlog_drained:
  assumes "reachable app s0 w" "db s0 = empty_db" "streams s0 = []" "up w" "0 < sint (OutboxBatchSize cfg)"
    and "length (pending (db w)) \<le> (ticks + 1) * nat (sint (OutboxBatchSize cfg))"
  shows "\<exists>w'. worker_run (app_worker app) ticks w = (Inr (), w') \<and> up w' \<and>
    (\<forall>e\<in>set (outbox_events (db w')). outbox_Status e = OutboxStatusPublished \<and> sent (app_worker app) w' e) \<and>
    map core (outbox_events (db w')) = map core (outbox_events (db w))"
proof -
  have d: "deployed app w" using assms(1,2) unfolding deployed_def by blast
  have "distinct (map ID (outbox_events (db w)))"
    by (rule wf_db_distinct(4)) (use deployed_wf [OF d] in blast)
  from wk_up.worker_run_drains [OF assms(4) this deployed_decodable [OF d], of ticks] assms(5,6)
  obtain w' where w': "worker_run (app_worker app) ticks w = (Inr (), w')" "up w'"
      "map core (outbox_events (db w')) = map core (outbox_events (db w))" "pending (db w') = []"
    by auto
  have "delivered (app_worker app) w'"
    by (rule deployed_delivered [OF reachable_trans [OF worker_reaches [OF w'(1)] assms(1)] assms(2,3)])
  with w'(4) have "\<forall>e\<in>set (outbox_events (db w')). outbox_Status e = OutboxStatusPublished \<and> sent (app_worker app) w' e"
    by (auto simp: delivered_def pending_def filter_empty_conv)
  with w' show ?thesis by blast
qed

end

end
