(* ===== verification/Guarantees.thy ===== *)
theory Guarantees
  imports Solvency Delivery
begin

text \<open>
  What the users, the wallets and the reads of the wired program promise: who may own a wallet, what
  a status change may touch, where a balance comes from, what a page holds, and which keys are
  never shared.
\<close>

section \<open>Keys are never shared\<close>

text \<open>Deleted users keep their row, and so their email, phone number and external reference.\<close>

definition keys_unique :: "db \<Rightarrow> bool" where
  "keys_unique d \<longleftrightarrow> distinct (map ID (users d)) \<and> distinct (map Email (users d)) \<and>
    distinct (map PhoneNumber (users d)) \<and>
    distinct (filter (\<lambda>r. r \<noteq> None) (map ExternalRef (users d))) \<and>
    distinct (map ID (wallets d)) \<and> distinct (map UserID (wallets d)) \<and>
    distinct (map ReferenceCode (transactions d)) \<and>
    distinct (map (\<lambda>k. (idem_Key k, idem_Endpoint k)) (idempotency_keys d))"

lemma uniq_distinct_some:
  assumes "uniq clash xs" "\<And>a b v. k a = Some v \<Longrightarrow> k b = Some v \<Longrightarrow> clash a b"
  shows "distinct (filter (\<lambda>r. r \<noteq> None) (map k xs))"
  using assms(1)
proof (induction xs rule: rev_induct)
  case (snoc x xs)
  with assms(2) show ?case by (auto 4 4 simp: uniq_def sorted_wrt_append)
qed simp

lemma wf_db_keys: "wf_db d \<Longrightarrow> keys_unique d"
  unfolding keys_unique_def wf_db_def
  by (intro conjI; (elim conjE)?;
      (erule uniq_distinct_some uniq_distinct; force simp: clash_defs))

section \<open>The wired program\<close>

context app_laws
begin

lemma create_user_books:
  assumes "UserService_Create (app_users app) req w = (Inr resp, w')"
  shows "\<exists>u. resp = UserFromModel u \<and> user_live u \<and> Email u = cu_Email req \<and>
    PhoneNumber u = cu_PhoneNumber req \<and> ExternalRef u = cu_ExternalRef req \<and> FullName u = cu_FullName req \<and>
    user_Status u = (if cu_Status req = [] then UserStatusActive else cu_Status req) \<and>
    (\<forall>x\<in>set (users (db w)). \<not> user_clash u x) \<and>
    visible w' = ((db w)\<lparr>users := users (db w) @ [u]\<rparr>, kv w, streams w)"
  using us.UserService_Create_Inr [OF assms] by blast

lemma create_wallet_books:
  assumes "WalletService_Create (app_wallets app) req w = (Inr resp, w')"
  shows "\<exists>u wl. u \<in> set (users (db w)) \<and> user_live u \<and> ID u = cw_UserID req \<and>
    user_Status u = UserStatusActive \<and> UserID wl = cw_UserID req \<and> BalanceCachedMinor wl = 0 \<and>
    IsActive wl \<and> wallet_live wl \<and> (\<forall>x\<in>set (wallets (db w)). UserID x \<noteq> cw_UserID req) \<and>
    resp = WalletFromModel wl \<and>
    visible w' = ((db w)\<lparr>wallets := wallets (db w) @ [wl]\<rparr>, kv w, streams w)"
  using ws.WalletService_Create_Inr [OF assms] by (fastforce simp: wallet_clash_def)

lemma status_only:
  assumes "deployed app w" "UpdateStatus (app_wallets app) i st w = (Inr resp, w')"
  shows "\<exists>wl t. live_wallet (db w) i wl \<and> resp = WalletFromModel (touch t (wl\<lparr>wallet_Status := st\<rparr>)) \<and>
    db w' = (db w)\<lparr>wallets := map (\<lambda>x. if ID x = i then touch t (x\<lparr>wallet_Status := st\<rparr>) else x) (wallets (db w))\<rparr> \<and>
    balances (db w') = balances (db w)"
proof -
  obtain wl t where wl: "wl \<in> set (wallets (db w))" "wallet_live wl" "ID wl = i"
      "resp = WalletFromModel (touch t (wl\<lparr>wallet_Status := st\<rparr>))"
    and d: "db w' = (db w)\<lparr>wallets := replace_row (\<lambda>x. ID x = i \<and> wallet_live x)
      (touch t (wl\<lparr>wallet_Status := st\<rparr>)) (wallets (db w))\<rparr>"
    using ws.UpdateStatus_Inr [OF assms(2)] by (auto simp: visible_split)
  have one: "x = wl" if "x \<in> set (wallets (db w))" "ID x = i" for x
    using that wl distinct_key_eq [OF wf_db_distinct(2) [OF deployed_wf [OF assms(1), THEN conjunct1]]] by metis
  have "replace_row (\<lambda>x. ID x = i \<and> wallet_live x) (touch t (wl\<lparr>wallet_Status := st\<rparr>)) (wallets (db w)) =
      map (\<lambda>x. if ID x = i then touch t (x\<lparr>wallet_Status := st\<rparr>) else x) (wallets (db w))"
    using one wl(2) by (auto simp: replace_row_def)
  with d have w': "db w' = (db w)\<lparr>wallets := map (\<lambda>x. if ID x = i
      then touch t (x\<lparr>wallet_Status := st\<rparr>) else x) (wallets (db w))\<rparr>" by simp
  have "map (\<lambda>wl. (ID wl, BalanceCachedMinor wl)) (wallets (db w')) =
      map (\<lambda>wl. (ID wl, BalanceCachedMinor wl)) (wallets (db w))"
    unfolding w' by (auto simp: touch_def)
  then have "balances (db w') = balances (db w)" by (simp only: balances_def)
  with wl w' show ?thesis unfolding live_wallet_def by blast
qed

lemma balance_read:
  assumes "GetBalance (app_wallets app) i w = (Inr resp, w')"
  shows "\<exists>wl. live_wallet (db w) i wl \<and> br_WalletID resp = i \<and> br_Currency resp = wallet_Currency wl \<and>
    db w' = db w \<and> streams w' = streams w \<and>
    (br_Source resp = ''redis'' \<and> cached (RT E) w i = Some (br_BalanceMinor resp) \<and> visible w' = visible w \<or>
     br_Source resp = ''database'' \<and> br_BalanceMinor resp = BalanceCachedMinor wl \<and>
       (cached (RT E) w' = cached (RT E) w \<or> cached (RT E) w' = (cached (RT E) w)(i \<mapsto> BalanceCachedMinor wl)))"
  using ws.GetBalance_Inr [OF assms] by (auto simp: live_wallet_def visible_def)

lemma list_page:
  assumes "TransactionService_List (app_transactions app) page limit f w = (Inr resp, w')"
    and "0 < sint (DefaultPageLimit cfg)" "sint (DefaultPageLimit cfg) \<le> sint (MaxPageLimit cfg)"
  shows "visible w' = visible w \<and> 0 < sint (Page resp) \<and> 0 < sint (Limit resp) \<and>
    sint (Limit resp) \<le> sint (MaxPageLimit cfg) \<and> int (length (Items resp)) \<le> sint (Limit resp) \<and>
    set (Items resp) \<subseteq> TransactionFromModel ` {t \<in> set (transactions (db w)). filters_match f t} \<and>
    Total resp = of_nat (length (filter (filters_match f) (transactions (db w))))"
proof -
  obtain p l where pl: "NormalizePagination page limit (DefaultPageLimit cfg) (MaxPageLimit cfg) = (p, l)"
    by fastforce
  have "0 < sint (MaxPageLimit cfg)" using assms(2,3) by linarith
  note b = NormalizePagination_bounds [OF pl assms(2) this]
  let ?q = "\<lparr>Where = filters_match f, Order = \<lambda>t. - CreatedAt t, Offset = sint ((p - 1) * l),
    QLimit = Some (sint l), LockUpdate = False\<rparr>"
  obtain n w1 ts where n: "gCount (Transactions (DB E)) (filters_match f) w = (Inr n, w1)"
    and ts: "gFind (Transactions (DB E)) ?q w1 = (Inr ts, w')"
    and resp: "resp = responseList (map TransactionFromModel ts) p l n"
    using assms(1) pl
    by (auto simp: TransactionService_List_def normalizePage_def TransactionRepository_List_def wire_defs
        prog_simps onErr_def handleE_def split: sum.splits prod.splits)
  have v: "visible w1 = visible w" "visible w' = visible w1"
    using transactions.keeps_Count transactions.keeps_Find n ts by (blast dest: keepsD)+
  have "length ts \<le> nat (sint l)"
    using transactions.Find_Inr [OF ts] b assms(3) by (auto simp: selected_def window_def Let_def)
  moreover have "set ts \<subseteq> {t \<in> set (transactions (db w)). filters_match f t}"
    using transactions.Find_subset [OF ts] visible_db [OF v(1)] by simp
  ultimately show ?thesis
    using b assms(2,3) v transactions.Count_Inr [OF n] unfolding resp responseList_def by auto
qed

end

end
