(* ===== verification/Handler.thy ===== *)
theory Handler
  imports TransactionService "HOL-Library.AList"
begin

text \<open>
  The package \<open>internal/handler\<close>: the routes of the API and one definition per handler. A handler
  takes the request and the world and gives the response and the world. What gin, its validator and
  \<open>encoding/json\<close> do before a handler sees a request is a parameter: \<open>body_decoder\<close> decodes a body, and the
  request holds the path, query and header values gin looks up. The locale \<open>decoder_laws\<close> says what
  the \<open>binding\<close> tags of \<open>internal/dto\<close> promise of a bound request. Logging is left out.
\<close>

section \<open>Requests and responses\<close>

text \<open>\<open>c.Param\<close>, \<open>c.Query\<close> and \<open>c.GetHeader\<close> return the empty string for what is not there.\<close>

record http_request =
  Param :: "string \<Rightarrow> string"
  Query :: "string \<Rightarrow> string"
  GetHeader :: "string \<Rightarrow> string"
  Body :: string

datatype payload =
  NoPayload
| PError error_response
| PHealth string
| PReady string "(string \<times> string) list"
| PUser user_response
| PUsers "user_response page_response"
| PWallet wallet_response
| PBalance balance_response
| PTransaction transaction_response
| PTransactions "transaction_response page_response"

record http_response =
  http_status :: int
  http_payload :: payload
  http_request_id :: string

text \<open>What \<open>ShouldBindJSON\<close> reports: the fields and tags that failed, or a body that does not decode.\<close>

datatype bind_error = ValidationErrors "(string \<times> string) list" | BodyError

record body_decoder =
  bind_top_up :: "string \<Rightarrow> bind_error + top_up_request"
  bind_transfer :: "string \<Rightarrow> bind_error + transfer_request"
  bind_create_user :: "string \<Rightarrow> bind_error + create_user_request"
  bind_update_user :: "string \<Rightarrow> bind_error + update_user_request"
  bind_create_wallet :: "string \<Rightarrow> bind_error + create_wallet_request"
  bind_wallet_status :: "string \<Rightarrow> bind_error + update_wallet_status_request"

text \<open>
  The \<open>binding\<close> tags that do not speak of the shape of a text (\<open>email\<close>, and \<open>max\<close>, which counts
  runes): \<open>required\<close> is not the zero value.
\<close>

definition valid_top_up :: "top_up_request \<Rightarrow> bool" where
  "valid_top_up r \<longleftrightarrow> tu_WalletID r \<noteq> uuid_Nil \<and> tu_AmountMinor r \<noteq> 0 \<and> 0 < sint (tu_AmountMinor r)"

definition valid_transfer :: "transfer_request \<Rightarrow> bool" where
  "valid_transfer r \<longleftrightarrow> tr_SourceWalletID r \<noteq> uuid_Nil \<and> tr_DestinationWalletID r \<noteq> uuid_Nil \<and>
    tr_AmountMinor r \<noteq> 0 \<and> 0 < sint (tr_AmountMinor r)"

definition valid_create_user :: "create_user_request \<Rightarrow> bool" where
  "valid_create_user r \<longleftrightarrow> cu_FullName r \<noteq> [] \<and> cu_Email r \<noteq> [] \<and> cu_PhoneNumber r \<noteq> [] \<and>
    cu_Status r \<in> {[], ''active'', ''inactive''}"

definition valid_update_user :: "update_user_request \<Rightarrow> bool" where
  "valid_update_user r \<longleftrightarrow> uu_FullName r \<noteq> [] \<and> uu_Email r \<noteq> [] \<and> uu_PhoneNumber r \<noteq> [] \<and>
    uu_Status r \<in> {''active'', ''inactive''}"

definition valid_create_wallet :: "create_wallet_request \<Rightarrow> bool" where
  "valid_create_wallet r \<longleftrightarrow> cw_UserID r \<noteq> uuid_Nil \<and> cw_Currency r \<in> {[], ''THB''}"

definition valid_wallet_status :: "update_wallet_status_request \<Rightarrow> bool" where
  "valid_wallet_status r \<longleftrightarrow> uw_Status r \<in> {''active'', ''suspended'', ''closed''}"

locale decoder_laws =
  fixes B :: body_decoder
  assumes top_up_bound: "bind_top_up B s = Inr r1 \<Longrightarrow> valid_top_up r1"
    and transfer_bound: "bind_transfer B s = Inr r2 \<Longrightarrow> valid_transfer r2"
    and create_user_bound: "bind_create_user B s = Inr r3 \<Longrightarrow> valid_create_user r3"
    and update_user_bound: "bind_update_user B s = Inr r4 \<Longrightarrow> valid_update_user r4"
    and create_wallet_bound: "bind_create_wallet B s = Inr r5 \<Longrightarrow> valid_create_wallet r5"
    and wallet_status_bound: "bind_wallet_status B s = Inr r6 \<Longrightarrow> valid_wallet_status r6"

section \<open>helpers.go\<close>

definition writeJSON :: "int \<Rightarrow> payload \<Rightarrow> http_response" where
  "writeJSON statusCode p = \<lparr>http_status = statusCode, http_payload = p, http_request_id = []\<rparr>"

definition writeError :: "go_error \<Rightarrow> http_response" where
  "writeError err =
    (let appErr = (case As (Some err) of (Some a, True) \<Rightarrow> a | _ \<Rightarrow> Internal err)
     in writeJSON (StatusCode appErr)
          (PError \<lparr>er_Code = Code appErr, er_Message = Message appErr, er_Details = Details appErr\<rparr>))"

definition noContent :: http_response where
  "noContent = \<lparr>http_status = 204, http_payload = NoPayload, http_request_id = []\<rparr>"

text \<open>\<open>details[field] = tag\<close> for every failure in order: the last tag of a field stays.\<close>

definition bind_details :: "(string \<times> string) list \<Rightarrow> json" where
  "bind_details validationErrs =
    JObj (foldl (\<lambda>details (field, tag). AList.update field (JStr tag) details) [] validationErrs)"

definition bindJSON :: "bind_error + 'a \<Rightarrow> http_response + 'a" where
  "bindJSON r = (case r of Inr request \<Rightarrow> Inr request
     | Inl (ValidationErrors validationErrs) \<Rightarrow> Inl (writeError (AppErr (the
         (WithDetails (Some (Validation ''one or more fields are invalid'')) (bind_details validationErrs)))))
     | Inl BodyError \<Rightarrow> Inl (writeError (AppErr (BadRequest ''request payload is invalid''))))"

definition parseUUIDParam :: "'h runtime \<Rightarrow> http_request \<Rightarrow> string \<Rightarrow> http_response + uuid" where
  "parseUUIDParam R c key = (case uuid_Parse R (Param c key) of
     Inl err \<Rightarrow> Inl (writeError (AppErr (BadRequest ''request payload is invalid'')))
   | Inr i \<Rightarrow> Inr i)"

definition parseQueryInt :: "http_request \<Rightarrow> string \<Rightarrow> int64 \<Rightarrow> int64" where
  "parseQueryInt c key fallback = (let value = Query c key in
     if value = [] then fallback
     else (case ParseInt value of Inl err \<Rightarrow> fallback | Inr parsed \<Rightarrow> parsed))"

definition parsePagination :: "http_request \<Rightarrow> int64 \<times> int64" where
  "parsePagination c = (parseQueryInt c ''page'' 1, parseQueryInt c ''limit'' 20)"

section \<open>api.go\<close>

text \<open>\<open>db.DB()\<close> and \<open>PingContext\<close> belong to the database driver.\<close>

record 'h api =
  api_RT :: "'h runtime"
  api_decoder :: body_decoder
  db_DB :: "('h, unit) go"
  db_Ping :: "('h, unit) go"
  api_cacheStore :: "'h balance_cache option"
  api_users :: "'h user_service"
  api_wallets :: "'h wallet_service"
  api_transactions :: "'h transaction_service"

type_synonym 'h handler = "http_request \<Rightarrow> 'h world \<Rightarrow> http_response \<times> 'h world"

text \<open>\<open>if !ok { return }\<close> after a response was written, and \<open>if err != nil { writeError(c, err); return }\<close>.\<close>

definition okay :: "http_response + 'a \<Rightarrow> ('a \<Rightarrow> 'h world \<Rightarrow> http_response \<times> 'h world) \<Rightarrow>
    'h world \<Rightarrow> http_response \<times> 'h world" where
  "okay r f w = (case r of Inl response \<Rightarrow> (response, w) | Inr a \<Rightarrow> f a w)"

definition respond :: "('h, 'a) go \<Rightarrow> ('a \<Rightarrow> http_response) \<Rightarrow> 'h world \<Rightarrow> http_response \<times> 'h world" where
  "respond m f w = (case m w of (Inl err, w') \<Rightarrow> (writeError err, w') | (Inr a, w') \<Rightarrow> (f a, w'))"

definition healthz :: "'h api \<Rightarrow> 'h handler" where
  "healthz a c w = (writeJSON 200 (PHealth ''ok''), w)"

definition readyz :: "'h api \<Rightarrow> 'h handler" where
  "readyz a c =
    respond (bindE (db_DB a) (\<lambda>_. bindE (db_Ping a) (\<lambda>_.
      case api_cacheStore a of None \<Rightarrow> returnE [(''database'', ''up'')]
      | Some cacheStore \<Rightarrow> tryE (cache_Ping cacheStore)
          (\<lambda>err. returnE [(''database'', ''up''), (''redis'', ''down'')])
          (\<lambda>_. returnE [(''database'', ''up''), (''redis'', ''up'')]))))
      (\<lambda>dependencies. writeJSON 200 (PReady ''ready'' dependencies))"

section \<open>user\_handler.go\<close>

definition createUser :: "'h api \<Rightarrow> 'h handler" where
  "createUser a c = okay (bindJSON (bind_create_user (api_decoder a) (Body c))) (\<lambda>request.
    respond (UserService_Create (api_users a) request) (\<lambda>response. writeJSON 201 (PUser response)))"

definition listUsers :: "'h api \<Rightarrow> 'h handler" where
  "listUsers a c = (let (page, limit) = parsePagination c in
    respond (UserService_List (api_users a) page limit) (\<lambda>response. writeJSON 200 (PUsers response)))"

definition getUser :: "'h api \<Rightarrow> 'h handler" where
  "getUser a c = okay (parseUUIDParam (api_RT a) c ''id'') (\<lambda>i.
    respond (UserService_Get (api_users a) i) (\<lambda>response. writeJSON 200 (PUser response)))"

definition updateUser :: "'h api \<Rightarrow> 'h handler" where
  "updateUser a c = okay (parseUUIDParam (api_RT a) c ''id'') (\<lambda>i.
    okay (bindJSON (bind_update_user (api_decoder a) (Body c))) (\<lambda>request.
    respond (UserService_Update (api_users a) i request) (\<lambda>response. writeJSON 200 (PUser response))))"

definition deleteUser :: "'h api \<Rightarrow> 'h handler" where
  "deleteUser a c = okay (parseUUIDParam (api_RT a) c ''id'') (\<lambda>i.
    respond (UserService_Delete (api_users a) i) (\<lambda>_. noContent))"

section \<open>wallet\_handler.go\<close>

definition createWallet :: "'h api \<Rightarrow> 'h handler" where
  "createWallet a c = okay (bindJSON (bind_create_wallet (api_decoder a) (Body c))) (\<lambda>request.
    respond (WalletService_Create (api_wallets a) request) (\<lambda>response. writeJSON 201 (PWallet response)))"

definition getWallet :: "'h api \<Rightarrow> 'h handler" where
  "getWallet a c = okay (parseUUIDParam (api_RT a) c ''id'') (\<lambda>i.
    respond (WalletService_Get (api_wallets a) i) (\<lambda>response. writeJSON 200 (PWallet response)))"

definition getWalletBalance :: "'h api \<Rightarrow> 'h handler" where
  "getWalletBalance a c = okay (parseUUIDParam (api_RT a) c ''id'') (\<lambda>i.
    respond (GetBalance (api_wallets a) i) (\<lambda>response. writeJSON 200 (PBalance response)))"

definition updateWalletStatus :: "'h api \<Rightarrow> 'h handler" where
  "updateWalletStatus a c = okay (parseUUIDParam (api_RT a) c ''id'') (\<lambda>i.
    okay (bindJSON (bind_wallet_status (api_decoder a) (Body c))) (\<lambda>request.
    respond (UpdateStatus (api_wallets a) i (uw_Status request)) (\<lambda>response. writeJSON 200 (PWallet response))))"

section \<open>transaction\_handler.go\<close>

definition topUp :: "'h api \<Rightarrow> 'h handler" where
  "topUp a c = okay (bindJSON (bind_top_up (api_decoder a) (Body c))) (\<lambda>request.
    respond (TopUp (api_transactions a) request (GetHeader c ''Idempotency-Key''))
      (\<lambda>(response, statusCode). writeJSON statusCode (PTransaction response)))"

definition transfer :: "'h api \<Rightarrow> 'h handler" where
  "transfer a c = okay (bindJSON (bind_transfer (api_decoder a) (Body c))) (\<lambda>request.
    respond (Transfer (api_transactions a) request (GetHeader c ''Idempotency-Key''))
      (\<lambda>(response, statusCode). writeJSON statusCode (PTransaction response)))"

definition getTransaction :: "'h api \<Rightarrow> 'h handler" where
  "getTransaction a c = okay (parseUUIDParam (api_RT a) c ''id'') (\<lambda>i.
    respond (TransactionService_Get (api_transactions a) i) (\<lambda>response. writeJSON 200 (PTransaction response)))"

text \<open>The filters of the query; the text of the wallet's ID must parse when it is there.\<close>

definition query_filters :: "'h runtime \<Rightarrow> http_request \<Rightarrow> http_response + transaction_filters" where
  "query_filters R c =
    (let walletID = Query c ''wallet_id''; txType = Query c ''type''; st = Query c ''status'';
         filters = (\<lambda>wid. \<lparr>filter_WalletID = wid,
           filter_Type = (if txType \<noteq> [] then Some txType else None),
           filter_Status = (if st \<noteq> [] then Some st else None)\<rparr>)
     in if walletID \<noteq> [] then (case uuid_Parse R walletID of
          Inl err \<Rightarrow> Inl (writeJSON 400 (PError \<lparr>er_Code = ''bad_request'',
            er_Message = ''request payload is invalid'', er_Details = None\<rparr>))
        | Inr parsedWalletID \<Rightarrow> Inr (filters (Some parsedWalletID)))
        else Inr (filters None))"

definition listTransactions :: "'h api \<Rightarrow> 'h handler" where
  "listTransactions a c = (let (page, limit) = parsePagination c in
    okay (query_filters (api_RT a) c) (\<lambda>filters.
    respond (TransactionService_List (api_transactions a) page limit filters)
      (\<lambda>response. writeJSON 200 (PTransactions response))))"

definition reverseTransaction :: "'h api \<Rightarrow> 'h handler" where
  "reverseTransaction a c = okay (parseUUIDParam (api_RT a) c ''id'') (\<lambda>i.
    respond (Reverse (api_transactions a) i (GetHeader c ''Idempotency-Key''))
      (\<lambda>(response, statusCode). writeJSON statusCode (PTransaction response)))"

section \<open>The router\<close>

datatype http_method = GET | POST | PUT | PATCH | DELETE

definition NewRouter :: "'h api \<Rightarrow> ((http_method \<times> string) \<times> 'h handler) list" where
  "NewRouter a =
    [((GET, ''/healthz''), healthz a), ((GET, ''/readyz''), readyz a),
     ((POST, ''/api/v1/users''), createUser a), ((GET, ''/api/v1/users''), listUsers a),
     ((GET, ''/api/v1/users/:id''), getUser a), ((PUT, ''/api/v1/users/:id''), updateUser a),
     ((DELETE, ''/api/v1/users/:id''), deleteUser a),
     ((POST, ''/api/v1/wallets''), createWallet a), ((GET, ''/api/v1/wallets/:id''), getWallet a),
     ((GET, ''/api/v1/wallets/:id/balance''), getWalletBalance a),
     ((PATCH, ''/api/v1/wallets/:id/status''), updateWalletStatus a),
     ((POST, ''/api/v1/transactions/topup''), topUp a),
     ((POST, ''/api/v1/transactions/transfer''), transfer a),
     ((GET, ''/api/v1/transactions''), listTransactions a),
     ((GET, ''/api/v1/transactions/:id''), getTransaction a),
     ((POST, ''/api/v1/transactions/:id/reverse''), reverseTransaction a)]"

text \<open>\<open>internal/middleware/request\_id.go\<close>: the caller's request ID, or a new one, goes into the response.\<close>

definition incoming_id :: "'h runtime \<Rightarrow> http_request \<Rightarrow> 'h world \<Rightarrow> string \<times> 'h world" where
  "incoming_id R c w = (let given = GetHeader c ''X-Request-ID'' in
     if given = [] then (let (u, w1) = uuid_New R w in (uuid_String R u, w1)) else (given, w))"

definition RequestID :: "'h runtime \<Rightarrow> 'h handler \<Rightarrow> 'h handler" where
  "RequestID R next c w =
    (let (requestID, w1) = incoming_id R c w;
         (response, w2) = next c w1
     in (response\<lparr>http_request_id := requestID\<rparr>, w2))"

text \<open>A request gin matched to a route of the table; there is no handler for another.\<close>

definition serve :: "'h api \<Rightarrow> http_method \<Rightarrow> string \<Rightarrow> 'h handler option" where
  "serve a m path = map_option (RequestID (api_RT a)) (map_of (NewRouter a) (m, path))"

section \<open>What the handlers write\<close>

lemma writeError_AppErr [simp]: "http_status (writeError (AppErr a)) = StatusCode a"
  by (simp add: writeError_def writeJSON_def As_def)

lemma writeError_other: "\<forall>a. e \<noteq> AppErr a \<Longrightarrow> http_status (writeError e) = 500"
  by (cases e) (auto simp: writeError_def writeJSON_def As_def Internal_def status_defs)

lemma bindJSON_Inl: "bindJSON r = Inl resp \<Longrightarrow> http_status resp \<in> {400, 422}"
  by (auto simp: bindJSON_def WithDetails_def app_error_defs status_defs split: sum.splits bind_error.splits)

lemma bindJSON_Inr [simp]: "bindJSON r = Inr a \<longleftrightarrow> r = Inr a"
  by (auto simp: bindJSON_def split: sum.splits bind_error.splits option.splits)

lemma parseUUIDParam_Inl: "parseUUIDParam R c k = Inl resp \<Longrightarrow> http_status resp = 400"
  by (auto simp: parseUUIDParam_def app_error_defs status_defs split: sum.splits)

lemma query_filters_Inl: "query_filters R c = Inl resp \<Longrightarrow> http_status resp = 400"
  by (auto simp: query_filters_def Let_def writeJSON_def split: sum.splits if_splits)

text \<open>A handler that refuses its input leaves the world alone.\<close>

lemma okay_cases:
  assumes "okay r f w = (resp, w')"
  obtains (refused) q where "r = Inl q" "w' = w" "resp = q" | (accepted) a where "r = Inr a" "f a w = (resp, w')"
  using assms by (cases r) (auto simp: okay_def)

lemma respond_cases:
  assumes "respond m f w = (resp, w')"
  obtains (failed) e where "m w = (Inl e, w')" "resp = writeError e"
  | (success) a where "m w = (Inr a, w')" "resp = f a"
  using assms by (cases "m w"; cases "fst (m w)") (auto simp: respond_def)

end
