(* ===== verification/Http.thy ===== *)
theory Http
  imports Guarantees Handler
begin

text \<open>
  The API of the wired program: the routes are mounted on its services, a request is a step of the
  world, and what holds of the services holds of the API. Requests that pass the validation carry
  positive amounts, which the services themselves do not ask for.
\<close>

section \<open>The mounted API\<close>

definition mount :: "'h env \<Rightarrow> 'h redis \<Rightarrow> config \<Rightarrow> body_decoder \<Rightarrow> ('h, unit) go \<Rightarrow> ('h, unit) go \<Rightarrow> 'h api" where
  "mount E redisClient cfg B sqlDB ping = (let app = wire E redisClient cfg in
    \<lparr>api_RT = RT E, api_decoder = B, db_DB = sqlDB, db_Ping = ping,
     api_cacheStore = Some (NewRedisBalanceCache redisClient (RT E) (BalanceCacheTTL cfg)),
     api_users = app_users app, api_wallets = app_wallets app, api_transactions = app_transactions app\<rparr>)"

lemma mount_simps [simp]:
  "api_RT (mount E C cfg B sq pg) = RT E" "api_decoder (mount E C cfg B sq pg) = B"
  "db_DB (mount E C cfg B sq pg) = sq" "db_Ping (mount E C cfg B sq pg) = pg"
  "api_cacheStore (mount E C cfg B sq pg) = Some (NewRedisBalanceCache C (RT E) (BalanceCacheTTL cfg))"
  "api_users (mount E C cfg B sq pg) = app_users (wire E C cfg)"
  "api_wallets (mount E C cfg B sq pg) = app_wallets (wire E C cfg)"
  "api_transactions (mount E C cfg B sq pg) = app_transactions (wire E C cfg)"
  by (simp_all add: mount_def Let_def)

text \<open>A step: a request that matches a route, a batch of the worker, a restart, or nothing.\<close>

inductive http_step :: "'h api \<Rightarrow> 'h app \<Rightarrow> 'h world \<Rightarrow> 'h world \<Rightarrow> bool" for a A where
  request: "serve a m path = Some h \<Longrightarrow> h c w = (resp, w') \<Longrightarrow> http_step a A w w'"
| background: "PublishPending (app_worker A) w = (r, w') \<Longrightarrow> http_step a A w w'"
| start: "SeedSystemAccounts (us_env (app_users A)) w = (r, w') \<Longrightarrow> http_step a A w w'"
| pause: "visible w' = visible w \<Longrightarrow> http_step a A w w'"

inductive http_reachable :: "'h api \<Rightarrow> 'h app \<Rightarrow> 'h world \<Rightarrow> 'h world \<Rightarrow> bool" for a A s0 where
  http_start: "http_reachable a A s0 s0"
| http_next: "http_reachable a A s0 w \<Longrightarrow> http_step a A w w' \<Longrightarrow> http_reachable a A s0 w'"

text \<open>The operations a request can run, on what the validation lets through.\<close>

inductive valid_op :: "'h app \<Rightarrow> 'h world \<Rightarrow> 'h world \<Rightarrow> bool" for A where
  op_none: "visible w' = visible w \<Longrightarrow> valid_op A w w'"
| op_create_user: "valid_create_user cu \<Longrightarrow> UserService_Create (app_users A) cu w = (r1, w') \<Longrightarrow> valid_op A w w'"
| op_update_user: "valid_update_user uu \<Longrightarrow> UserService_Update (app_users A) i uu w = (r2, w') \<Longrightarrow> valid_op A w w'"
| op_delete_user: "UserService_Delete (app_users A) i w = (r3, w') \<Longrightarrow> valid_op A w w'"
| op_create_wallet: "valid_create_wallet cw \<Longrightarrow> WalletService_Create (app_wallets A) cw w = (r4, w') \<Longrightarrow> valid_op A w w'"
| op_get_balance: "GetBalance (app_wallets A) i w = (r5, w') \<Longrightarrow> valid_op A w w'"
| op_update_status: "valid_wallet_status us \<Longrightarrow> UpdateStatus (app_wallets A) i (uw_Status us) w = (r6, w') \<Longrightarrow> valid_op A w w'"
| op_top_up: "valid_top_up tu \<Longrightarrow> TopUp (app_transactions A) tu key w = (r7, w') \<Longrightarrow> valid_op A w w'"
| op_transfer: "valid_transfer tr \<Longrightarrow> Transfer (app_transactions A) tr key w = (r8, w') \<Longrightarrow> valid_op A w w'"
| op_reverse: "Reverse (app_transactions A) i key w = (r9, w') \<Longrightarrow> valid_op A w w'"

lemma valid_op_step: "valid_op A w w' \<Longrightarrow> api_step A w w'"
  by (induction rule: valid_op.induct) (blast intro: api_step.intros)+

section \<open>Rows written through the API\<close>

definition amounts_positive :: "db \<Rightarrow> bool" where
  "amounts_positive d \<longleftrightarrow> (\<forall>n\<in>set (map AmountMinor (transactions d)). 0 < sint n)"

text \<open>The columns with a fixed set of values hold one of them.\<close>

definition values_ok :: "db \<Rightarrow> bool" where
  "values_ok d \<longleftrightarrow> (\<forall>u\<in>set (users d). user_Status u \<in> {''active'', ''inactive''}) \<and>
    (\<forall>x\<in>set (wallets d). wallet_Status x \<in> {''active'', ''suspended'', ''closed''} \<and> wallet_Currency x = CurrencyTHB)"

lemma values_cong:
  assumes "map user_Status (users d') = map user_Status (users d)"
    and "map (\<lambda>x. (wallet_Status x, wallet_Currency x)) (wallets d') =
      map (\<lambda>x. (wallet_Status x, wallet_Currency x)) (wallets d)"
    and "values_ok d"
  shows "values_ok d'"
proof -
  have "\<forall>s\<in>set (map user_Status (users d')). s \<in> {''active'', ''inactive''}"
    unfolding assms(1) using assms(3) by (auto simp: values_ok_def)
  moreover have "\<forall>(s, c)\<in>set (map (\<lambda>x. (wallet_Status x, wallet_Currency x)) (wallets d')).
      s \<in> {''active'', ''suspended'', ''closed''} \<and> c = CurrencyTHB"
    unfolding assms(2) using assms(3) by (auto simp: values_ok_def)
  ultimately show ?thesis by (auto simp: values_ok_def)
qed

lemma values_booked: "booked R d t d' \<Longrightarrow> values_ok d \<Longrightarrow> values_ok d'"
proof -
  assume b: "booked R d t d'" and v: "values_ok d"
  let ?f = "\<lambda>x::wallet. x\<lparr>BalanceCachedMinor := 0, UpdatedAt := 0\<rparr>"
  from b have "map ?f (wallets d') = map ?f (wallets d)" by (simp add: booked_def)
  from arg_cong [OF this, of "map (\<lambda>x. (wallet_Status x, wallet_Currency x))"]
  have "map (\<lambda>x. (wallet_Status x, wallet_Currency x)) (wallets d') =
      map (\<lambda>x. (wallet_Status x, wallet_Currency x)) (wallets d)" by (simp add: comp_def)
  with b v show ?thesis by (intro values_cong [OF _ _ v]) (simp_all add: booked_def)
qed

lemma values_users: "wallets d' = wallets d \<Longrightarrow> \<forall>u\<in>set (users d'). u \<in> set (users d) \<or>
    user_Status u \<in> {''active'', ''inactive''} \<Longrightarrow> values_ok d \<Longrightarrow> values_ok d'"
  by (auto simp: values_ok_def)

lemma values_wallets: "users d' = users d \<Longrightarrow> \<forall>x\<in>set (wallets d'). x \<in> set (wallets d) \<or>
    wallet_Status x \<in> {''active'', ''suspended'', ''closed''} \<and> wallet_Currency x = CurrencyTHB \<Longrightarrow>
    values_ok d \<Longrightarrow> values_ok d'"
  by (auto simp: values_ok_def)

lemma row_of_replaced: "y \<in> set (replace_row p r xs) \<Longrightarrow> y \<in> set xs \<or> y = r"
  by (auto simp: replace_row_def)

lemma empty_ok: "values_ok empty_db" "amounts_positive empty_db"
  by (simp_all add: values_ok_def amounts_positive_def empty_db_def)

lemma values_visible: "visible w' = visible w \<Longrightarrow> values_ok (db w) \<Longrightarrow> values_ok (db w')"
  by (metis visible_db)

lemma values_outbox: "values_ok d \<Longrightarrow> values_ok (d\<lparr>outbox_events := es\<rparr>)"
  by (simp add: values_ok_def)

section \<open>Answers\<close>

text \<open>
  A money endpoint answers 201 with a transaction of the database as it was booked, or an error
  after which nothing has changed.
\<close>

definition answers :: "http_response \<Rightarrow> 'h world \<Rightarrow> 'h world \<Rightarrow> bool" where
  "answers resp w w' \<longleftrightarrow>
    (http_status resp = 201 \<and> (\<exists>t\<in>set (transactions (db w')). \<exists>r. http_payload resp = PTransaction r \<and> response_of t r)) \<or>
    (http_status resp \<in> {400, 404, 409, 422, 500} \<and> visible w' = visible w)"

lemma refusal_status:
  assumes "(\<forall>a. e \<noteq> AppErr a) \<or> is_internal e \<or> e = AppErr IdempotencyConflict \<or> e = in_use \<or> e = not_found \<or>
    e = invalid \<or> e = AppErr WalletNotActive \<or> e = AppErr InsufficientFunds \<or> e = AppErr AlreadyReversed"
  shows "http_status (writeError e) \<in> {404, 409, 422, 500}"
  using assms
  by (elim disjE exE)
    (simp_all add: writeError_other internal_def in_use_def service_errors app_error_defs status_defs)

lemma response_of_self: "Status t = TransactionStatusCompleted \<Longrightarrow> response_of t (TransactionFromModel t)"
  unfolding response_of_def by (rule exI [of _ "UpdatedAt t"]) (simp add: TransactionFromModel_def)

locale http_laws = app_laws E client + decoder_laws B
  for E :: "'h env" and client :: "'h redis" and B :: body_decoder +
  fixes sqlDB ping :: "('h, unit) go"
  assumes keeps_sqlDB: "keeps visible sqlDB" and keeps_ping: "keeps visible ping"
begin

abbreviation "api \<equiv> mount E client cfg B sqlDB ping"

section \<open>A request is a step of the services\<close>

lemma keeps_readyz: "readyz api c w = (resp, w') \<Longrightarrow> visible w' = visible w"
proof (unfold readyz_def, erule respond_cases)
  let ?m = "bindE (db_DB api) (\<lambda>_. bindE (db_Ping api) (\<lambda>_.
      case api_cacheStore api of None \<Rightarrow> returnE [(''database'', ''up'')]
      | Some cacheStore \<Rightarrow> tryE (cache_Ping cacheStore)
          (\<lambda>err. returnE [(''database'', ''up''), (''redis'', ''down'')])
          (\<lambda>_. returnE [(''database'', ''up''), (''redis'', ''up'')])))"
  have k: "keeps visible ?m"
    by (auto intro!: keeps_intros keeps_sqlDB keeps_ping cache.keeps_cache_Ping)
  show "?m w = (Inl e, w') \<Longrightarrow> visible w' = visible w" for e by (rule keepsD [OF k])
  show "?m w = (Inr d, w') \<Longrightarrow> visible w' = visible w" for d by (rule keepsD [OF k])
qed

lemma keeps_reads:
  "UserService_List (app_users app) p l w = (r1, w') \<Longrightarrow> visible w' = visible w"
  "UserService_Get (app_users app) i w = (r2, w') \<Longrightarrow> visible w' = visible w"
  "WalletService_Get (app_wallets app) i w = (r3, w') \<Longrightarrow> visible w' = visible w"
  using us.keeps_UserService ws.keeps_WalletService_Get by (blast dest: keepsD)+

lemma keeps_transaction_reads:
  "TransactionService_Get (app_transactions app) i w = (r4, w') \<Longrightarrow> visible w' = visible w"
  "TransactionService_List (app_transactions app) p l f w = (r5, w') \<Longrightarrow> visible w' = visible w"
proof -
  have "keeps visible (TransactionService_Get (app_transactions app) i)"
    unfolding TransactionService_Get_def wire_env by (auto intro!: keeps_intros)
  then show "TransactionService_Get (app_transactions app) i w = (r4, w') \<Longrightarrow> visible w' = visible w"
    by (rule keepsD)
  have "keeps visible (TransactionService_List (app_transactions app) p l f)"
    unfolding TransactionService_List_def wire_env by (auto intro!: keeps_intros split: prod.split)
  then show "TransactionService_List (app_transactions app) p l f w = (r5, w') \<Longrightarrow> visible w' = visible w"
    by (rule keepsD)
qed

lemma refused_op: "okay r f w = (resp, w') \<Longrightarrow> (\<And>a. r = Inr a \<Longrightarrow> f a w = (resp, w') \<Longrightarrow> valid_op A w w') \<Longrightarrow> valid_op A w w'"
  by (erule okay_cases) (auto intro: op_none)

lemma respond_op: "respond m f w = (resp, w') \<Longrightarrow> (\<And>r. m w = (r, w') \<Longrightarrow> valid_op A w w') \<Longrightarrow> valid_op A w w'"
  by (erule respond_cases) auto

lemmas bound_ops = op_create_user [OF create_user_bound] op_update_user [OF update_user_bound]
  op_create_wallet [OF create_wallet_bound] op_update_status [OF wallet_status_bound]
  op_top_up [OF top_up_bound] op_transfer [OF transfer_bound] op_delete_user op_get_balance op_reverse

lemma user_handlers:
  "createUser api c w = (resp, w') \<Longrightarrow> valid_op app w w'" "listUsers api c w = (resp, w') \<Longrightarrow> valid_op app w w'"
  "getUser api c w = (resp, w') \<Longrightarrow> valid_op app w w'" "updateUser api c w = (resp, w') \<Longrightarrow> valid_op app w w'"
  "deleteUser api c w = (resp, w') \<Longrightarrow> valid_op app w w'"
  unfolding createUser_def listUsers_def getUser_def updateUser_def deleteUser_def mount_simps
  by (auto elim!: refused_op respond_op intro: bound_ops op_none dest: keeps_reads(1,2) split: prod.splits)

lemma wallet_handlers:
  "createWallet api c w = (resp, w') \<Longrightarrow> valid_op app w w'" "getWallet api c w = (resp, w') \<Longrightarrow> valid_op app w w'"
  "getWalletBalance api c w = (resp, w') \<Longrightarrow> valid_op app w w'"
  "updateWalletStatus api c w = (resp, w') \<Longrightarrow> valid_op app w w'"
  unfolding createWallet_def getWallet_def getWalletBalance_def updateWalletStatus_def mount_simps
  by (auto elim!: refused_op respond_op intro: bound_ops op_none dest: keeps_reads(3))

lemma transaction_handlers:
  "topUp api c w = (resp, w') \<Longrightarrow> valid_op app w w'" "transfer api c w = (resp, w') \<Longrightarrow> valid_op app w w'"
  "getTransaction api c w = (resp, w') \<Longrightarrow> valid_op app w w'"
  "listTransactions api c w = (resp, w') \<Longrightarrow> valid_op app w w'"
  "reverseTransaction api c w = (resp, w') \<Longrightarrow> valid_op app w w'"
  unfolding topUp_def transfer_def getTransaction_def listTransactions_def reverseTransaction_def mount_simps
  by (auto elim!: refused_op respond_op intro: bound_ops op_none dest: keeps_transaction_reads split: prod.splits)

lemma health_handlers:
  "healthz api c w = (resp, w') \<Longrightarrow> valid_op app w w'" "readyz api c w = (resp, w') \<Longrightarrow> valid_op app w w'"
  by (auto simp: healthz_def intro: op_none dest: keeps_readyz)

lemma handler_op:
  assumes "(k, h) \<in> set (NewRouter api)" "h c w = (resp, w')"
  shows "valid_op app w w'"
  using assms unfolding NewRouter_def
  by (auto dest: user_handlers wallet_handlers transaction_handlers health_handlers)

lemma incoming_id_frame: "incoming_id (RT E) c w = (rid, w1) \<Longrightarrow> visible w1 = visible w"
  by (auto simp: incoming_id_def Let_def split: if_splits prod.splits dest: New_frame)

text \<open>The middleware draws a request identifier before the handler runs.\<close>

lemma serve_op:
  assumes "serve api m path = Some h" "h c w = (resp, w')"
  shows "\<exists>w1. visible w1 = visible w \<and> valid_op app w1 w'"
proof -
  obtain h1 where h1: "((m, path), h1) \<in> set (NewRouter api)" "h = RequestID (RT E) h1"
    using assms(1) by (auto simp: serve_def dest: map_of_SomeD)
  obtain rid w1 where w1: "incoming_id (RT E) c w = (rid, w1)" by fastforce
  obtain resp1 w2 where r: "h1 c w1 = (resp1, w2)" by fastforce
  from w1 have "visible w1 = visible w" by (rule incoming_id_frame)
  moreover from assms(2) w1 r have "w2 = w'" by (simp add: h1(2) RequestID_def)
  ultimately show ?thesis using handler_op [OF h1(1) r] by blast
qed

theorem http_step_reachable:
  assumes "http_step api app w w'"
  shows "reachable app w w'"
  using assms
proof cases
  case (request m path h c resp)
  from serve_op [OF this] obtain w1 where "visible w1 = visible w" "valid_op app w1 w'" by blast
  then show ?thesis
    by (blast intro: reachable_trans reachable_one api_step.idle valid_op_step)
qed (blast intro: reachable_one api_step.publish api_step.restart api_step.idle)+

theorem http_refines: "http_reachable api app s0 w \<Longrightarrow> reachable app s0 w"
  by (induction rule: http_reachable.induct) (blast intro: reachable.start reachable_trans http_step_reachable)+

section \<open>What requests keep\<close>

lemma amounts_quiet: "quiet d d' \<Longrightarrow> amounts_positive d \<Longrightarrow> amounts_positive d'"
  by (simp add: quiet_def amounts_positive_def del: set_map)

lemma amounts_visible: "visible w' = visible w \<Longrightarrow> amounts_positive (db w) \<Longrightarrow> amounts_positive (db w')"
  by (rule amounts_quiet [OF quiet_visible])

lemma amounts_outbox: "amounts_positive d \<Longrightarrow> amounts_positive (d\<lparr>outbox_events := es\<rparr>)"
  by (simp add: amounts_positive_def)

lemma money_amounts:
  assumes "deployed app w" "amounts_positive (db w)"
  shows "valid_top_up tu \<Longrightarrow> TopUp (app_transactions app) tu key w = (r, w') \<Longrightarrow> amounts_positive (db w')"
    and "valid_transfer tr \<Longrightarrow> Transfer (app_transactions app) tr key w = (r, w') \<Longrightarrow> amounts_positive (db w')"
    and "Reverse (app_transactions app) i key w = (r, w') \<Longrightarrow> amounts_positive (db w')"
proof -
  show "amounts_positive (db w')" if v: "valid_top_up tu" and run: "TopUp (app_transactions app) tu key w = (r, w')"
  proof (cases r)
    case (Inl e)
    with run ts.money_Inl(1) amounts_visible assms(2) show ?thesis by blast
  next
    case (Inr a)
    obtain resp st where a: "a = (resp, st)" by (cases a)
    show ?thesis
      by (rule TopUp_cases [OF assms(1) run [unfolded Inr a]])
        (use v assms(2) amounts_visible in \<open>auto simp: amounts_positive_def valid_top_up_def\<close>)
  qed
  show "amounts_positive (db w')" if v: "valid_transfer tr" and run: "Transfer (app_transactions app) tr key w = (r, w')"
  proof (cases r)
    case (Inl e)
    with run ts.money_Inl(2) amounts_visible assms(2) show ?thesis by blast
  next
    case (Inr a)
    obtain resp st where a: "a = (resp, st)" by (cases a)
    show ?thesis
      by (rule Transfer_cases [OF assms(1) run [unfolded Inr a]])
        (use v assms(2) amounts_visible in \<open>auto simp: amounts_positive_def valid_transfer_def\<close>)
  qed
  show "amounts_positive (db w')" if run: "Reverse (app_transactions app) i key w = (r, w')"
  proof (cases r)
    case (Inl e)
    with run ts.money_Inl(3) amounts_visible assms(2) show ?thesis by blast
  next
    case (Inr a)
    obtain resp st where a: "a = (resp, st)" by (cases a)
    show ?thesis
      by (rule Reverse_cases [OF assms(1) run [unfolded Inr a]])
        (use assms(2) amounts_visible in \<open>auto simp: amounts_positive_def\<close>)
  qed
qed

lemma op_amounts:
  assumes "valid_op app w w'" "deployed app w" "amounts_positive (db w)"
  shows "amounts_positive (db w')"
  using assms(1)
proof cases
  case op_none
  with amounts_visible assms(3) show ?thesis by blast
next
  case (op_get_balance i r5)
  from get_balance_db [OF this] assms(3) show ?thesis by simp
next
  case (op_update_status us i r6)
  from update_status_quiet [OF this(2) deployed_wf [OF assms(2), THEN conjunct1]] assms(3) amounts_quiet
  show ?thesis by blast
qed (blast intro: money_amounts [OF assms(2,3)] amounts_quiet [OF users_quiet(1)] amounts_quiet [OF users_quiet(2)]
    amounts_quiet [OF users_quiet(3)] amounts_quiet [OF create_wallet_quiet] assms(3))+

lemma op_values_users:
  assumes "values_ok (db w)"
  shows "valid_create_user cu \<Longrightarrow> UserService_Create (app_users app) cu w = (r1, w') \<Longrightarrow> values_ok (db w')"
    and "valid_update_user uu \<Longrightarrow> UserService_Update (app_users app) i uu w = (r2, w') \<Longrightarrow> values_ok (db w')"
    and "UserService_Delete (app_users app) i w = (r3, w') \<Longrightarrow> values_ok (db w')"
proof -
  show "values_ok (db w')" if v: "valid_create_user cu" and run: "UserService_Create (app_users app) cu w = (r1, w')"
  proof (cases r1)
    case (Inl e)
    with us.UserService_Create_Inl run assms show ?thesis by (metis visible_db)
  next
    case (Inr a)
    from us.UserService_Create_Inr [OF run [unfolded Inr]] obtain u where
      u: "user_Status u = (if cu_Status cu = [] then UserStatusActive else cu_Status cu)"
        "db w' = (db w)\<lparr>users := users (db w) @ [u]\<rparr>" by (auto simp: visible_split)
    with v have "user_Status u \<in> {''active'', ''inactive''}"
      by (auto simp: valid_create_user_def const_defs)
    with u(2) show ?thesis by (intro values_users [OF _ _ assms]) auto
  qed
  show "values_ok (db w')" if v: "valid_update_user uu" and run: "UserService_Update (app_users app) i uu w = (r2, w')"
  proof (cases r2)
    case (Inl e)
    with us.UserService_Update_Inl run assms show ?thesis by (metis visible_db)
  next
    case (Inr a)
    from us.UserService_Update_Inr [OF run [unfolded Inr]] obtain u u' where
      ex: "\<exists>t. u' = touch t (u\<lparr>ExternalRef := uu_ExternalRef uu, FullName := uu_FullName uu,
        Email := uu_Email uu, PhoneNumber := uu_PhoneNumber uu, user_Status := uu_Status uu\<rparr>)"
      and u'0: "visible w' = ((db w)\<lparr>users := replace_row (\<lambda>x. ID x = i \<and> user_live x) u' (users (db w))\<rparr>,
        kv w, streams w)" by blast
    from ex have u': "user_Status u' = uu_Status uu"
      "db w' = (db w)\<lparr>users := replace_row (\<lambda>x. ID x = i \<and> user_live x) u' (users (db w))\<rparr>"
      using u'0 by (auto simp: visible_split touch_def)
    with v have "user_Status u' \<in> {''active'', ''inactive''}" by (simp add: valid_update_user_def)
    with u'(2) show ?thesis by (intro values_users [OF _ _ assms]) (auto dest: row_of_replaced)
  qed
  show "values_ok (db w')" if run: "UserService_Delete (app_users app) i w = (r3, w')"
  proof (cases r3)
    case (Inl e)
    with us.UserService_Delete_Inl run assms show ?thesis by (metis visible_db)
  next
    case (Inr a)
    from us.UserService_Delete_Inr [OF run [unfolded Inr]] show ?thesis
      by (auto simp: visible_split intro!: values_cong [OF _ _ assms])
  qed
qed

lemma op_values_wallets:
  assumes "values_ok (db w)"
  shows "valid_create_wallet cw \<Longrightarrow> WalletService_Create (app_wallets app) cw w = (r4, w') \<Longrightarrow> values_ok (db w')"
    and "valid_wallet_status us \<Longrightarrow> UpdateStatus (app_wallets app) i (uw_Status us) w = (r5, w') \<Longrightarrow> values_ok (db w')"
proof -
  show "values_ok (db w')" if v: "valid_create_wallet cw" and run: "WalletService_Create (app_wallets app) cw w = (r4, w')"
  proof (cases r4)
    case (Inl e)
    with ws.WalletService_Create_Inl run assms show ?thesis by (metis visible_db)
  next
    case (Inr a)
    from ws.WalletService_Create_Inr [OF run [unfolded Inr]] obtain wl where
      wl: "IsActive wl" "wallet_Currency wl = (if cw_Currency cw = [] then CurrencyTHB else cw_Currency cw)"
        "db w' = (db w)\<lparr>wallets := wallets (db w) @ [wl]\<rparr>" by (auto simp: visible_split)
    with v have "wallet_Status wl = ''active'' \<and> wallet_Currency wl = CurrencyTHB"
      by (auto simp: valid_create_wallet_def const_defs IsActive_def)
    with wl(3) show ?thesis by (intro values_wallets [OF _ _ assms]) auto
  qed
  show "values_ok (db w')" if v: "valid_wallet_status us" and run: "UpdateStatus (app_wallets app) i (uw_Status us) w = (r5, w')"
  proof (cases r5)
    case (Inl e)
    with ws.UpdateStatus_Inl run assms show ?thesis by (metis visible_db)
  next
    case (Inr a)
    from ws.UpdateStatus_Inr [OF run [unfolded Inr]] obtain wl t where wl: "wl \<in> set (wallets (db w))"
        "db w' = (db w)\<lparr>wallets := replace_row (\<lambda>x. ID x = i \<and> wallet_live x)
          (touch t (wl\<lparr>wallet_Status := uw_Status us\<rparr>)) (wallets (db w))\<rparr>" by (auto simp: visible_split)
    moreover from wl(1) assms have "wallet_Currency wl = CurrencyTHB" by (simp add: values_ok_def)
    ultimately show ?thesis using v
      by (intro values_wallets [OF _ _ assms]) (auto simp: valid_wallet_status_def touch_def dest: row_of_replaced)
  qed
qed

lemma sheet_values: "visible w' = visible w \<or> (\<exists>t. booked R (db w) t (db w')) \<Longrightarrow> values_ok (db w) \<Longrightarrow> values_ok (db w')"
  using values_booked by (auto dest: visible_db)

lemma money_values:
  assumes "deployed app w"
  shows "TopUp (app_transactions app) tu key w = (r, w') \<Longrightarrow> visible w' = visible w \<or> (\<exists>t. booked (RT E) (db w) t (db w'))"
    and "Transfer (app_transactions app) tr key w = (r, w') \<Longrightarrow> visible w' = visible w \<or> (\<exists>t. booked (RT E) (db w) t (db w'))"
    and "Reverse (app_transactions app) i key w = (r, w') \<Longrightarrow> visible w' = visible w \<or> (\<exists>t. booked (RT E) (db w) t (db w'))"
proof -
  show "TopUp (app_transactions app) tu key w = (r, w') \<Longrightarrow> visible w' = visible w \<or> (\<exists>t. booked (RT E) (db w) t (db w'))"
    by (cases r; (use ts.money_Inl(1) in blast)?; hypsubst; case_tac b; hypsubst; erule TopUp_cases [OF assms]; blast)
  show "Transfer (app_transactions app) tr key w = (r, w') \<Longrightarrow> visible w' = visible w \<or> (\<exists>t. booked (RT E) (db w) t (db w'))"
    by (cases r; (use ts.money_Inl(2) in blast)?; hypsubst; case_tac b; hypsubst; erule Transfer_cases [OF assms]; blast)
  show "Reverse (app_transactions app) i key w = (r, w') \<Longrightarrow> visible w' = visible w \<or> (\<exists>t. booked (RT E) (db w) t (db w'))"
    by (cases r; (use ts.money_Inl(3) in blast)?; hypsubst; case_tac b; hypsubst; erule Reverse_cases [OF assms]; blast)
qed

lemma op_values:
  assumes "valid_op app w w'" "deployed app w" "values_ok (db w)"
  shows "values_ok (db w')"
  using assms(1)
proof cases
  case op_none
  with assms(3) show ?thesis by (metis visible_db)
next
  case (op_get_balance i r5)
  from get_balance_db [OF this] assms(3) show ?thesis by simp
qed (blast intro: op_values_users [OF assms(3)] op_values_wallets [OF assms(3)]
    sheet_values [OF money_values(1) [OF assms(2)] assms(3)] sheet_values [OF money_values(2) [OF assms(2)] assms(3)]
    sheet_values [OF money_values(3) [OF assms(2)] assms(3)])+

text \<open>What every request, batch and restart keeps holds in every world the API reaches.\<close>

lemma http_invariant:
  assumes "http_reachable api app s0 w" "db s0 = empty_db" "P empty_db"
    and same: "\<And>(v :: 'h world) (v' :: 'h world). visible v' = visible v \<Longrightarrow> P (db v) \<Longrightarrow> P (db v')"
    and "\<And>w w'. deployed app w \<Longrightarrow> valid_op app w w' \<Longrightarrow> P (db w) \<Longrightarrow> P (db w')"
    and "\<And>d es. P d \<Longrightarrow> P (d\<lparr>outbox_events := es\<rparr>)"
    and "\<And>w r w'. SeedSystemAccounts E w = (r, w') \<Longrightarrow> P (db w) \<Longrightarrow> P (db w')"
  shows "P (db w)"
  using assms(1)
proof (induction rule: http_reachable.induct)
  case http_start
  then show ?case using assms(2,3) by simp
next
  case (http_next w w')
  have d: "deployed app w" using http_refines [OF http_next.hyps(1)] assms(2) unfolding deployed_def by blast
  from http_next.hyps(2) show ?case
  proof cases
    case (request m path h c resp)
    from serve_op [OF this] obtain w1 where w1: "visible w1 = visible w" "valid_op app w1 w'" by blast
    show ?thesis
      by (rule assms(5) [OF deployed_step [OF d api_step.idle [OF w1(1)]] w1(2) same [OF w1(1) http_next.IH]])
  next
    case (background r)
    from publish_safe [OF d this] obtain rows where "db w' = (db w)\<lparr>outbox_events := rows\<rparr>"
      by (auto simp: batch_step_def)
    with assms(6) http_next.IH show ?thesis by simp
  next
    case (start r)
    with assms(7) http_next.IH show ?thesis by simp
  next
    case pause
    with same http_next.IH show ?thesis by blast
  qed
qed

lemma restart_values:
  assumes "SeedSystemAccounts E w = (r, w')" "values_ok (db w)"
  shows "values_ok (db w')"
proof -
  obtain q w1 where s: "bindE (User_BeforeCreate (RT E) system_user) (gCreateDoNothing (Users (DB E))) w = (q, w1)"
    by (cases "bindE (User_BeforeCreate (RT E) system_user) (gCreateDoNothing (Users (DB E))) w")
  obtain q2 w2 where s2: "bindE (Wallet_BeforeCreate (RT E) system_wallet) (gCreateDoNothing (Wallets (DB E))) w1 = (q2, w2)"
    by (cases "bindE (Wallet_BeforeCreate (RT E) system_wallet) (gCreateDoNothing (Wallets (DB E))) w1")
  from seed_user [OF s] have 1: "values_ok (db w1)"
  proof (elim disjE exE conjE)
    show "visible w1 = visible w \<Longrightarrow> values_ok (db w1)" using values_visible assms(2) by blast
  qed (use assms(2) in \<open>auto simp: visible_split values_ok_def system_user_def born_def const_defs\<close>)
  from seed_wallet [OF s2] have 2: "values_ok (db w2)"
  proof (elim disjE exE conjE)
    show "visible w2 = visible w1 \<Longrightarrow> values_ok (db w2)" using values_visible 1 by blast
  qed (use 1 in \<open>auto simp: visible_split values_ok_def system_wallet_def born_def const_defs\<close>)
  have "w' = w1 \<or> w' = w2" using assms(1) s s2
    by (cases q; cases q2)
      (auto simp: SeedSystemAccounts_def bindE_step bindE_stop onErr_step onErr_stop returnE_def)
  with 1 2 show ?thesis by blast
qed

theorem http_values:
  assumes "http_reachable api app s0 w" "db s0 = empty_db"
  shows "values_ok (db w)"
  by (rule http_invariant [where P = values_ok, OF assms empty_ok(1)])
    (blast intro: op_values restart_values values_visible values_outbox)+

theorem http_amounts:
  assumes "http_reachable api app s0 w" "db s0 = empty_db"
  shows "amounts_positive (db w)"
  by (rule http_invariant [where P = amounts_positive, OF assms empty_ok(2)])
    (blast intro: op_amounts amounts_visible amounts_outbox amounts_quiet [OF restart_quiet])+

text \<open>Through the API only the volume has to fit the range of a balance.\<close>

theorem http_solvent:
  assumes "http_reachable api app s0 w" "db s0 = empty_db" "volume (db w) < 2 ^ 63"
  shows "solvent (db w)"
  by (rule deployed_solvent [OF http_refines [OF assms(1)] assms(2)])
    (use http_amounts [OF assms(1,2)] assms(3) in \<open>auto simp: in_range_def amounts_positive_def\<close>)

section \<open>What the money endpoints answer\<close>

text \<open>A stored response has status 201 and is that of a transaction of the database.\<close>

lemma stored_response:
  assumes "deployed app w" "replays (RT E) key ep h (db w) resp st"
  shows "st = 201 \<and> (\<exists>t\<in>set (transactions (db w)). response_of t resp)"
proof -
  have i: "idempotency_ok (RT E) (db w)" using deployed_inv [OF assms(1)] by (simp add: inv_db_def)
  obtain k b where k: "k \<in> set (idempotency_keys (db w))" "ResponseStatusCode k = Some st"
      "ResponseBodyJSON k = Some b" "response_of_json (RT E) b = Inr resp"
    using assms(2) by (auto simp: replays_def)
  with i obtain t where "t \<in> set (transactions (db w))" "record_of (RT E) k t"
    by (auto simp: idempotency_ok_def)
  with k show ?thesis by (auto simp: record_of_def)
qed

lemma outcome_response:
  assumes "deployed app w" "outcome (RT E) key ep h w resp st w'"
  shows "st = 201 \<and> (\<exists>t\<in>set (transactions (db w')). response_of t resp)"
  using assms(2) unfolding outcome_def
proof (elim disjE conjE exE)
  assume "replays (RT E) key ep h (db w) resp st" "visible w' = visible w"
  with stored_response [OF assms(1)] show ?thesis by (auto dest: visible_db)
next
  fix t assume "st = 201" "committed (RT E) (db w) key h t resp (db w')"
  with committed_booked [of "db w" key h t resp "db w'"] show ?thesis
    by (auto simp: booked_def intro!: response_of_self bexI [of _ t])
qed

lemma money_answers:
  assumes "deployed app w" "respond m (\<lambda>(r, st). writeJSON st (PTransaction r)) w = (resp, w')"
    and "\<And>r st. m w = (Inr (r, st), w') \<Longrightarrow> \<exists>ep h. outcome (RT E) key ep h w r st w'"
    and "\<And>e. m w = (Inl e, w') \<Longrightarrow> visible w' = visible w \<and> http_status (writeError e) \<in> {404, 409, 422, 500}"
  shows "answers resp w w'"
proof (rule respond_cases [OF assms(2)])
  fix e assume "m w = (Inl e, w')" "resp = writeError e"
  with assms(4) show ?thesis by (auto simp: answers_def)
next
  fix a assume a: "m w = (Inr a, w')" "resp = (\<lambda>(r, st). writeJSON st (PTransaction r)) a"
  obtain r st where p: "a = (r, st)" by (cases a)
  obtain ep h where "outcome (RT E) key ep h w r st w'" using assms(3) a(1) p by blast
  from outcome_response [OF assms(1) this] a(2) p show ?thesis by (simp add: answers_def writeJSON_def)
qed

lemma refused_answers: "http_status resp \<in> {400, 422} \<Longrightarrow> answers resp w w"
  by (auto simp: answers_def)

lemma money_endpoints:
  assumes "deployed app w"
  shows "topUp api c w = (resp, w') \<Longrightarrow> answers resp w w'"
    and "transfer api c w = (resp, w') \<Longrightarrow> answers resp w w'"
    and "reverseTransaction api c w = (resp, w') \<Longrightarrow> answers resp w w'"
proof -
  let ?k = "GetHeader c ''Idempotency-Key''"
  show "answers resp w w'" if "topUp api c w = (resp, w')"
    using that unfolding topUp_def mount_simps
  proof (rule okay_cases)
    fix q assume "bindJSON (bind_top_up B (Body c)) = Inl q" "w' = w" "resp = q"
    with bindJSON_Inl show ?thesis by (auto intro: refused_answers)
  next
    fix req assume "respond (TopUp (app_transactions app) req ?k)
      (\<lambda>(response, statusCode). writeJSON statusCode (PTransaction response)) w = (resp, w')"
    then show ?thesis
    proof (rule money_answers [OF assms, where key = ?k], goal_cases)
      case (1 r st)
      with app_outcomes(1) [OF assms] show ?case by blast
    next
      case (2 e)
      with app_refusals(1) [OF 2] show ?case
        by (intro conjI refusal_status) (auto simp: topup_refused_def)
    qed
  qed
  show "answers resp w w'" if "transfer api c w = (resp, w')"
    using that unfolding transfer_def mount_simps
  proof (rule okay_cases)
    fix q assume "bindJSON (bind_transfer B (Body c)) = Inl q" "w' = w" "resp = q"
    with bindJSON_Inl show ?thesis by (auto intro: refused_answers)
  next
    fix req assume "respond (Transfer (app_transactions app) req ?k)
      (\<lambda>(response, statusCode). writeJSON statusCode (PTransaction response)) w = (resp, w')"
    then show ?thesis
    proof (rule money_answers [OF assms, where key = ?k], goal_cases)
      case (1 r st)
      with app_outcomes(2) [OF assms] show ?case by blast
    next
      case (2 e)
      with app_refusals(2) [OF 2] show ?case
        by (intro conjI refusal_status) (auto simp: transfer_refused_def)
    qed
  qed
  show "answers resp w w'" if "reverseTransaction api c w = (resp, w')"
    using that unfolding reverseTransaction_def mount_simps
  proof (rule okay_cases)
    fix q assume "parseUUIDParam (RT E) c ''id'' = Inl q" "w' = w" "resp = q"
    with parseUUIDParam_Inl have "http_status resp = 400" by blast
    with \<open>w' = w\<close> show ?thesis by (simp add: refused_answers)
  next
    fix i assume "respond (Reverse (app_transactions app) i ?k)
      (\<lambda>(response, statusCode). writeJSON statusCode (PTransaction response)) w = (resp, w')"
    then show ?thesis
    proof (rule money_answers [OF assms, where key = ?k], goal_cases)
      case (1 r st)
      with app_outcomes(3) [OF assms] show ?case by blast
    next
      case (2 e)
      with app_refusals(3) [OF 2] show ?case
        by (intro conjI refusal_status) (auto simp: reverse_refused_def)
    qed
  qed
qed

end

end
