(* ===== verification/Logging.thy ===== *)
theory Logging
  imports Http "HOL-Library.Signed_Division"
begin

text \<open>
  \<open>internal/middleware/logging.go\<close> and the chain of middleware around every handler: the request ID,
  then the logger, then the handler of the route. Every request writes one line of the log; it goes
  through the services as the routed request does, so the log tells what happened.
\<close>

section \<open>Log lines\<close>

datatype log_level = Info | Warn | LogError

datatype log_value = LStr string | LInt int

record log_line =
  Level :: log_level
  Message :: string
  Attrs :: "(string \<times> log_value) list"

primrec method_name :: "http_method \<Rightarrow> string" where
  "method_name GET = ''GET''"
| "method_name POST = ''POST''"
| "method_name PUT = ''PUT''"
| "method_name PATCH = ''PATCH''"
| "method_name DELETE = ''DELETE''"

section \<open>logging.go\<close>

text \<open>
  \<open>time.Since(start).Milliseconds()\<close> divides the nanoseconds and truncates towards zero; \<open>errors\<close> is
  the text of \<open>c.Errors\<close>, which is empty as long as no handler calls \<open>c.Error\<close>.
\<close>

definition RequestLogger :: "'h runtime \<Rightarrow> http_method \<Rightarrow> string \<Rightarrow> string \<Rightarrow> string \<Rightarrow> string \<Rightarrow> 'h handler \<Rightarrow>
    http_request \<Rightarrow> 'h world \<Rightarrow> (http_response \<times> log_line) \<times> 'h world" where
  "RequestLogger R m fullPath urlPath errors requestID next c w =
    (let (start, w1) = time_Now R w;
         (response, w2) = next c w1;
         route = (if fullPath = [] then urlPath else fullPath);
         (now, w3) = time_Now R w2;
         attrs = [(''request_id'', LStr requestID), (''method'', LStr (method_name m)), (''route'', LStr route),
           (''status_code'', LInt (http_status response)), (''latency_ms'', LInt ((now - start) sdiv 1000000))];
         attrs = (if errors \<noteq> [] then attrs @ [(''errors'', LStr errors)] else attrs);
         level = (if http_status response \<ge> 500 then LogError else Info)
     in ((response, \<lparr>Level = level, Message = ''http_request'', Attrs = attrs\<rparr>), w3))"

section \<open>The chain of a request\<close>

text \<open>
  \<open>router.Use\<close> puts the middleware around every request, also one without a route, which gin answers
  itself (\<open>noRoute\<close>): its \<open>FullPath\<close> is empty. \<open>gin.Recovery\<close> only acts on a panic.
\<close>

definition handle :: "'h api \<Rightarrow> 'h handler \<Rightarrow> http_method \<Rightarrow> string \<Rightarrow> string \<Rightarrow>
    http_request \<Rightarrow> 'h world \<Rightarrow> (http_response \<times> log_line) \<times> 'h world" where
  "handle a noRoute m fullPath urlPath c w =
    (let h = (case map_of (NewRouter a) (m, fullPath) of Some h \<Rightarrow> h | None \<Rightarrow> noRoute);
         (requestID, w1) = incoming_id (api_RT a) c w;
         ((response, line), w2) = RequestLogger (api_RT a) m fullPath urlPath [] requestID h c w1
     in ((response\<lparr>http_request_id := requestID\<rparr>, line), w2))"

text \<open>The line of an answer.\<close>

definition line_of :: "http_method \<Rightarrow> string \<Rightarrow> string \<Rightarrow> http_response \<Rightarrow> log_line \<Rightarrow> bool" where
  "line_of m fullPath urlPath resp line \<longleftrightarrow>
    Level line = (if http_status resp \<ge> 500 then LogError else Info) \<and> Message line = ''http_request'' \<and>
    map_of (Attrs line) ''request_id'' = Some (LStr (http_request_id resp)) \<and>
    map_of (Attrs line) ''method'' = Some (LStr (method_name m)) \<and>
    map_of (Attrs line) ''route'' = Some (LStr (if fullPath = [] then urlPath else fullPath)) \<and>
    map_of (Attrs line) ''status_code'' = Some (LInt (http_status resp)) \<and>
    map_of (Attrs line) ''errors'' = None"

context http_laws
begin

text \<open>A request through the chain is one through its handler, and the line is that of its answer.\<close>

lemma handle_runs:
  assumes "handle api noRoute m fullPath urlPath c w = ((resp, line), w')"
  shows "\<exists>w1 resp1 w2. visible w1 = visible w \<and>
    (case map_of (NewRouter api) (m, fullPath) of Some h \<Rightarrow> h | None \<Rightarrow> noRoute) c w1 = (resp1, w2) \<and>
    visible w' = visible w2 \<and> http_status resp = http_status resp1 \<and> http_payload resp = http_payload resp1 \<and>
    line_of m fullPath urlPath resp line"
proof -
  let ?h = "case map_of (NewRouter api) (m, fullPath) of Some h \<Rightarrow> h | None \<Rightarrow> noRoute"
  obtain rid w1 where w1: "incoming_id (RT E) c w = (rid, w1)" by fastforce
  obtain t w2 where w2: "time_Now (RT E) w1 = (t, w2)" by fastforce
  obtain resp1 w3 where w3: "?h c w2 = (resp1, w3)" by fastforce
  obtain t' w4 where w4: "time_Now (RT E) w3 = (t', w4)" by fastforce
  have v: "visible w2 = visible w" "visible w4 = visible w3"
    using incoming_id_frame [OF w1] Now_frame [OF w2] Now_frame [OF w4] by simp_all
  have eq: "w' = w4" "resp = resp1\<lparr>http_request_id := rid\<rparr>"
    and "line_of m fullPath urlPath resp line"
    using assms w1 w2 w3 w4 by (auto simp: handle_def RequestLogger_def line_of_def Let_def)
  with v w3 show ?thesis by (intro exI [of _ w2] exI [of _ resp1] exI [of _ w3]) simp
qed

text \<open>With or without a route, a request is a step of the services.\<close>

theorem handle_reachable:
  assumes "handle api noRoute m fullPath urlPath c w = ((resp, line), w')"
    and "\<And>v r v'. noRoute c v = (r, v') \<Longrightarrow> visible v' = visible v"
  shows "reachable app w w'"
proof -
  from handle_runs [OF assms(1)] obtain w1 resp1 w2 where r: "visible w1 = visible w"
    "(case map_of (NewRouter api) (m, fullPath) of Some h \<Rightarrow> h | None \<Rightarrow> noRoute) c w1 = (resp1, w2)"
    "visible w' = visible w2" by blast
  have "reachable app w1 w2"
  proof (cases "map_of (NewRouter api) (m, fullPath)")
    case None
    with r(2) assms(2) show ?thesis by (intro reachable_one api_step.idle) simp
  next
    case (Some h)
    with r(2) handler_op [OF map_of_SomeD] have "valid_op app w1 w2" by auto
    then show ?thesis by (rule reachable_one [OF valid_op_step])
  qed
  with reachable_one [OF api_step.idle [OF r(1)]] reachable_one [OF api_step.idle [OF r(3)]]
  show ?thesis by (blast intro: reachable_trans)
qed

text \<open>A money request whose line is at level error has changed nothing.\<close>

theorem handle_money:
  assumes "deployed app w" "handle api noRoute POST fullPath urlPath c w = ((resp, line), w')"
    and "fullPath \<in> {''/api/v1/transactions/topup'', ''/api/v1/transactions/transfer'', ''/api/v1/transactions/:id/reverse''}"
  shows "answers resp w w' \<and> (Level line = LogError \<longrightarrow> http_status resp = 500 \<and> visible w' = visible w)"
proof -
  from handle_runs [OF assms(2)] obtain w1 resp1 w2 where r: "visible w1 = visible w"
    "(case map_of (NewRouter api) (POST, fullPath) of Some h \<Rightarrow> h | None \<Rightarrow> noRoute) c w1 = (resp1, w2)"
    "visible w' = visible w2" "http_status resp = http_status resp1" "http_payload resp = http_payload resp1"
    "line_of POST fullPath urlPath resp line" by blast
  have d: "deployed app w1" by (rule deployed_step [OF assms(1) api_step.idle [OF r(1)]])
  from assms(3) r(2) consider "topUp api c w1 = (resp1, w2)" | "transfer api c w1 = (resp1, w2)"
    | "reverseTransaction api c w1 = (resp1, w2)" by (auto simp: NewRouter_def)
  then have "answers resp1 w1 w2" by cases (rule money_endpoints [OF d]; assumption)+
  with r(1,3-5) have a: "answers resp w w'" by (auto simp: answers_def visible_eq)
  then have "http_status resp \<ge> 500 \<longrightarrow> http_status resp = 500 \<and> visible w' = visible w" by (auto simp: answers_def)
  with a r(6) show ?thesis by (auto simp: line_of_def split: if_splits)
qed

end

end
