(* ===== verification/Interleaving.thy ===== *)
theory Interleaving
  imports Guarantees
begin

text \<open>
  Requests that overlap. The server runs every request on a goroutine of its own, so between two
  calls an operation makes of the database or of Redis other requests, the worker and other
  replicas of the program take steps. \<open>phase\<close> is one such call: a database transaction is one phase
  (its rows are locked before they are read), every statement outside one is a phase of its own, on
  whatever an earlier phase of its request has read. The books survive every interleaving of the
  phases but one: \<open>UpdateStatus\<close> reads a wallet without a lock and later saves all its columns.
\<close>

section \<open>Phases\<close>

text \<open>The second half of \<open>UpdateStatus\<close>: the row that was read is saved with the new status.\<close>

definition status_write :: "'h wallet_service \<Rightarrow> wallet \<Rightarrow> string \<Rightarrow> ('h, wallet_response) go" where
  "status_write S wl status =
    bindE (onErr internal (WalletRepository_Update (ws_env S) (wl\<lparr>wallet_Status := status\<rparr>))) (\<lambda>wl.
    returnE (WalletFromModel wl))"

lemma UpdateStatus_phases: "UpdateStatus S i status =
    tryE (WalletRepository_GetByID (ws_env S) i)
      (\<lambda>err. if IsNotFound err then throwE not_found else throwE (internal err))
      (\<lambda>wl. status_write S wl status)"
  by (simp add: UpdateStatus_def status_write_def)

text \<open>A row read earlier whose wallet is still there, with the same owner and the same balance.\<close>

definition current :: "db \<Rightarrow> wallet \<Rightarrow> bool" where
  "current d wl \<longleftrightarrow> (\<exists>x\<in>set (wallets d). wallet_live x \<and> ID x = ID wl \<and> UserID x = UserID wl \<and>
    BalanceCachedMinor x = BalanceCachedMinor wl)"

text \<open>
  Reads and the passing of time are \<open>quiet\<close>. The rows, keys and requests are arbitrary: a phase does
  not depend on the request that takes it, beyond what is asked of its row.
\<close>

inductive phase :: "'h app \<Rightarrow> 'h world \<Rightarrow> 'h world \<Rightarrow> bool" for A where
  quiet: "visible w' = visible w \<Longrightarrow> phase A w w'"
| save_new_user: "UserRepository_Create (us_env (app_users A)) u w = (r1, w') \<Longrightarrow> phase A w w'"
| save_user: "\<exists>x\<in>set (users (db w)). ID x = ID u \<and> user_live x \<Longrightarrow>
    UserRepository_Update (us_env (app_users A)) u w = (r2, w') \<Longrightarrow> phase A w w'"
| remove_user: "UserRepository_Delete (us_env (app_users A)) i w = (r3, w') \<Longrightarrow> phase A w w'"
| save_new_wallet: "BalanceCachedMinor wl = 0 \<Longrightarrow>
    WalletRepository_Create (ws_env (app_wallets A)) wl w = (r4, w') \<Longrightarrow> phase A w w'"
| save_status: "current (db w) wl \<Longrightarrow> status_write (app_wallets A) wl status w = (r5, w') \<Longrightarrow> phase A w w'"
| commit_top_up: "withTransaction (ts_env (app_transactions A)) (TopUp_tx (app_transactions A) treq key h) w = (r6, w') \<Longrightarrow>
    phase A w w'"
| commit_transfer: "withTransaction (ts_env (app_transactions A)) (Transfer_tx (app_transactions A) freq key h) w = (r7, w') \<Longrightarrow>
    phase A w w'"
| commit_reverse: "withTransaction (ts_env (app_transactions A)) (Reverse_tx (app_transactions A) i key h) w = (r8, w') \<Longrightarrow>
    phase A w w'"
| send: "pub_Publish (publisher (app_worker A)) key vs w = (r9, w') \<Longrightarrow> phase A w w'"
| mark_published: "OutboxRepository_MarkPublished (wk_env (app_worker A)) i at w = (r10, w') \<Longrightarrow> phase A w w'"
| record_failure: "OutboxRepository_RecordFailure (wk_env (app_worker A)) i m w = (r11, w') \<Longrightarrow> phase A w w'"
| seed_system_user: "bindE (User_BeforeCreate (RT (us_env (app_users A))) system_user)
    (gCreateDoNothing (Users (DB (us_env (app_users A))))) w = (r12, w') \<Longrightarrow> phase A w w'"
| seed_system_wallet: "bindE (Wallet_BeforeCreate (RT (us_env (app_users A))) system_wallet)
    (gCreateDoNothing (Wallets (DB (us_env (app_users A))))) w = (r13, w') \<Longrightarrow> phase A w w'"

abbreviation phases :: "'h app \<Rightarrow> 'h world \<Rightarrow> 'h world \<Rightarrow> bool" where
  "phases A \<equiv> (phase A)\<^sup>*\<^sup>*"

text \<open>Between the phases the keys of Redis change in any way: the books do not depend on the cache.\<close>

inductive interleaved :: "'h app \<Rightarrow> 'h world \<Rightarrow> 'h world \<Rightarrow> bool" for A w0 where
  nothing: "interleaved A w0 w0"
| another: "interleaved A w0 w \<Longrightarrow> phase A w w' \<Longrightarrow> interleaved A w0 w'"
| redis: "interleaved A w0 w \<Longrightarrow> db w' = db w \<Longrightarrow> streams w' = streams w \<Longrightarrow> interleaved A w0 w'"

lemma interleaved_trans: "interleaved A w1 w2 \<Longrightarrow> interleaved A w0 w1 \<Longrightarrow> interleaved A w0 w2"
  by (induction rule: interleaved.induct) (auto intro: interleaved.another interleaved.redis)

lemma interleaved_one: "phase A w w' \<Longrightarrow> interleaved A w w'"
  by (rule interleaved.another [OF interleaved.nothing])

lemma phases_interleaved: "phases A w w' \<Longrightarrow> interleaved A w w'"
  by (induction rule: rtranclp_induct) (auto intro: interleaved.nothing interleaved.another)

section \<open>Every phase keeps the books\<close>

lemma inv_db_wallet_row:
  assumes "inv_db R d" "current d wl" "ID wl' = ID wl" "UserID wl' = UserID wl"
    "BalanceCachedMinor wl' = BalanceCachedMinor wl"
  shows "inv_db R (d\<lparr>wallets := replace_row (\<lambda>x. ID x = ID wl \<and> wallet_live x) wl' (wallets d)\<rparr>)"
proof -
  obtain x where x: "x \<in> set (wallets d)" "ID x = ID wl" "UserID x = UserID wl"
    "BalanceCachedMinor x = BalanceCachedMinor wl" using assms(2) by (auto simp: current_def)
  have "distinct (map ID (wallets d))" using assms(1) wf_db_distinct(2) by (auto simp: inv_db_def)
  then have one: "y = x" if "y \<in> set (wallets d)" "ID y = ID wl" for y
    using that x(1,2) distinct_key_eq by metis
  let ?P = "\<lambda>x x'. ID x' = ID x \<and> UserID x' = UserID x \<and> BalanceCachedMinor x' = BalanceCachedMinor x"
  have "list_all2 ?P (wallets d) (replace_row (\<lambda>x. ID x = ID wl \<and> wallet_live x) wl' (wallets d))"
  proof (rule list_all2_replace_row, goal_cases)
    case (1 y)
    then have "y = x" using one by blast
    with x(2-4) assms(3-5) show ?case by simp
  qed simp
  then show ?thesis by (rule inv_db_same_wallets [OF assms(1)])
qed

context app_laws
begin

lemma save_user_inv:
  assumes "UserRepository_Update E u w = (r, w')" "\<exists>x\<in>set (users (db w)). ID x = ID u \<and> user_live x" "inv_db R (db w)"
  shows "inv_db R (db w')"
proof (cases r)
  case (Inl e)
  with Update_Inl(1) assms(1,3) show ?thesis by (metis visible_db)
next
  case (Inr u')
  from UserRepository_Update_Inr [OF assms(1) [unfolded Inr] assms(2)] obtain t where
    u: "u' = touch t u" "\<forall>x\<in>set (users (db w)). ID x \<noteq> ID u \<longrightarrow> \<not> user_clash u x"
    "db w' = (db w)\<lparr>users := replace_row (\<lambda>x. ID x = ID u \<and> user_live x) u' (users (db w))\<rparr>"
    by (auto simp: visible_split)
  have w: "uniq user_clash (users (db w))" "distinct (map ID (users (db w)))"
    using assms(3) wf_db_distinct(1) by (auto simp: inv_db_def wf_db_def)
  have "uniq user_clash (replace_row (\<lambda>x. ID x = ID u \<and> user_live x) u' (users (db w)))"
  proof (rule uniq_replace_row [OF w(1)], goal_cases)
    case (3 x)
    obtain z where z: "z \<in> set (users (db w))" "ID z = ID u" "user_live z" using assms(2) by blast
    have "ID x \<noteq> ID u"
    proof
      assume "ID x = ID u"
      then have "x = z" using distinct_key_eq [OF w(2) 3(1) z(1)] z(2) by simp
      with 3(2) z show False by simp
    qed
    with u(2) 3(1) have "\<not> user_clash u x" by blast
    then show ?case unfolding u(1) by (simp add: user_clash_def touch_def)
  qed (rule clash_sym(1), simp, simp add: user_clash_def)
  with inv_db_users [OF assms(3)] u(3) show ?thesis by simp
qed

lemma status_write_stale:
  assumes "status_write (app_wallets app) wl st w = (Inr resp, w')"
    and "\<exists>x\<in>set (wallets (db w)). ID x = ID wl \<and> wallet_live x"
  shows "\<exists>t. resp = WalletFromModel (touch t (wl\<lparr>wallet_Status := st\<rparr>)) \<and>
    db w' = (db w)\<lparr>wallets := replace_row (\<lambda>x. ID x = ID wl \<and> wallet_live x)
      (touch t (wl\<lparr>wallet_Status := st\<rparr>)) (wallets (db w))\<rparr>"
proof -
  obtain wl' where u: "WalletRepository_Update E (wl\<lparr>wallet_Status := st\<rparr>) w = (Inr wl', w')"
    "resp = WalletFromModel wl'"
    using assms(1) by (auto simp: status_write_def prog_simps)
  have "\<exists>x\<in>set (wallets (db w)). ID x = ID (wl\<lparr>wallet_Status := st\<rparr>) \<and> wallet_live x"
    using assms(2) by simp
  from WalletRepository_Update_Inr [OF u(1) this] u(2) show ?thesis by (auto simp: visible_def)
qed

lemma save_status_inv:
  assumes "status_write (app_wallets app) wl st w = (r, w')" "current (db w) wl" "inv_db R (db w)"
  shows "inv_db R (db w')"
proof (cases r)
  case (Inl e)
  with assms(1) have "visible w' = visible w"
    by (auto simp: status_write_def prog_simps dest: Update_Inl(2))
  with assms(3) show ?thesis by (metis visible_db)
next
  case (Inr resp)
  have "\<exists>x\<in>set (wallets (db w)). ID x = ID wl \<and> wallet_live x" using assms(2) by (auto simp: current_def)
  from status_write_stale [OF assms(1) [unfolded Inr] this] obtain t where
    "db w' = (db w)\<lparr>wallets := replace_row (\<lambda>x. ID x = ID wl \<and> wallet_live x)
      (touch t (wl\<lparr>wallet_Status := st\<rparr>)) (wallets (db w))\<rparr>" by blast
  with inv_db_wallet_row [OF assms(3,2), of "touch t (wl\<lparr>wallet_Status := st\<rparr>)"] show ?thesis
    by (simp add: touch_def)
qed

lemma new_user_inv:
  assumes "UserRepository_Create E u w = (r, w')" "inv_db R (db w)"
  shows "inv_db R (db w')"
proof (cases r)
  case (Inl e)
  with Create_Inl(1) assms show ?thesis by (metis visible_db)
next
  case (Inr u')
  from UserRepository_Create_Inr [OF assms(1) [unfolded Inr]] have
    "\<forall>x\<in>set (users (db w)). \<not> user_clash u' x" "db w' = (db w)\<lparr>users := users (db w) @ [u']\<rparr>"
    by (auto simp: visible_def)
  moreover from this assms(2) have "uniq user_clash (users (db w) @ [u'])"
    by (simp add: inv_db_def wf_db_def)
  ultimately show ?thesis using inv_db_users [OF assms(2)] by simp
qed

lemma new_wallet_inv:
  assumes "WalletRepository_Create E wl w = (r, w')" "BalanceCachedMinor wl = 0" "inv_db R (db w)"
  shows "inv_db R (db w')"
proof (cases r)
  case (Inl e)
  with Create_Inl(2) assms show ?thesis by (metis visible_db)
next
  case (Inr wl')
  from WalletRepository_Create_Inr [OF assms(1) [unfolded Inr]] assms(2) have
    "\<forall>x\<in>set (wallets (db w)). \<not> wallet_clash wl' x" "db w' = (db w)\<lparr>wallets := wallets (db w) @ [wl']\<rparr>"
    "BalanceCachedMinor wl' = 0" by (auto simp: visible_def born_def)
  with inv_db_new_wallet [OF assms(3)] show ?thesis by simp
qed

lemma remove_user_inv:
  assumes "UserRepository_Delete E i w = (r, w')" "inv_db R (db w)"
  shows "inv_db R (db w')"
proof (cases r)
  case (Inl e)
  with Delete_Inl assms show ?thesis unfolding UserRepository_Delete_def by (metis visible_db)
next
  case (Inr a)
  from Delete_Inr [OF assms(1) [unfolded Inr UserRepository_Delete_def]] obtain t where
    d: "db w' = (db w)\<lparr>users := map (\<lambda>x. if user_live x \<and> ID x = i
      then x\<lparr>user_DeletedAt := Some t\<rparr> else x) (users (db w))\<rparr>"
    by (auto simp: visible_def)
  have "list_all2 (\<lambda>x x'. ID x' = ID x \<and> Email x' = Email x \<and> PhoneNumber x' = PhoneNumber x \<and>
      ExternalRef x' = ExternalRef x) (users (db w)) (users (db w'))"
    unfolding d by (simp, rule list_all2_map_self) simp
  then have "uniq user_clash (users (db w'))"
    by (rule uniq_list_all2 [rotated]) (use assms(2) in \<open>auto simp: user_clash_def inv_db_def wf_db_def\<close>)
  with inv_db_users [OF assms(2)] d show ?thesis by simp
qed

text \<open>A transaction commits one proper posting, or changes nothing.\<close>

lemma commit_posting:
  assumes "withTransaction E body w = (r, w')" "keeps outside body"
    and "\<And>w1 resp ws w2. db w1 = db w \<Longrightarrow> body w1 = (Inr (resp, ws), w2) \<Longrightarrow>
      \<exists>t. posting (RT E) (db w1) key h t (db w2) \<and> proper (db w1) t"
  shows "money_step (RT E) w w'"
proof (cases r)
  case (Inl e)
  have "keeps kv body" "keeps streams body" using assms(2) by (auto simp: keeps_def outside_def)
  with Transaction_Inl [OF assms(1) [unfolded Inl withTransaction_def]] show ?thesis by (simp add: money_step_def)
next
  case (Inr a)
  obtain resp ws where a: "a = (resp, ws)" by (cases a)
  from assms(1) [unfolded Inr a withTransaction_def] obtain w1 w2 where
    v: "visible w1 = visible w" "body w1 = (Inr (resp, ws), w2)" "visible w' = visible w2"
    by (rule Transaction_Inr)
  have "outside w2 = outside w1" by (rule keepsD [OF assms(2) v(2)])
  with v assms(3) [OF visible_db [OF v(1)] v(2)] show ?thesis
    unfolding money_step_def by (auto simp: visible_eq outside_def)
qed

lemma commit_steps:
  assumes "inv_db (RT E) (db w)"
  shows "withTransaction E (TopUp_tx (app_transactions app) treq key h) w = (r1, w') \<Longrightarrow> money_step (RT E) w w'"
    "withTransaction E (Transfer_tx (app_transactions app) freq key h) w = (r2, w') \<Longrightarrow> money_step (RT E) w w'"
    "withTransaction E (Reverse_tx (app_transactions app) i key h) w = (r3, w') \<Longrightarrow> money_step (RT E) w w'"
proof -
  note wf = inv_db_wf [OF assms]
  show "withTransaction E (TopUp_tx (app_transactions app) treq key h) w = (r1, w') \<Longrightarrow> money_step (RT E) w w'"
    by (erule commit_posting [OF _ ts.keeps_bodies(1)])
      (use ts.TopUp_tx_posting wf in \<open>fastforce simp: wire_env\<close>)
  show "withTransaction E (Transfer_tx (app_transactions app) freq key h) w = (r2, w') \<Longrightarrow> money_step (RT E) w w'"
    by (erule commit_posting [OF _ ts.keeps_bodies(2)])
      (use ts.Transfer_tx_posting wf in \<open>fastforce simp: wire_env\<close>)
  show "withTransaction E (Reverse_tx (app_transactions app) i key h) w = (r3, w') \<Longrightarrow> money_step (RT E) w w'"
    by (erule commit_posting [OF _ ts.keeps_bodies(3)])
      (use ts.Reverse_tx_posting wf in \<open>fastforce simp: wire_env\<close>)
qed

lemma outbox_write_inv:
  "OutboxRepository_MarkPublished E i at w = (r1, w') \<Longrightarrow> inv_db R (db w) \<Longrightarrow> inv_db R (db w')"
  "OutboxRepository_RecordFailure E i m w = (r2, w') \<Longrightarrow> inv_db R (db w) \<Longrightarrow> inv_db R (db w')"
proof -
  have same: "inv_db R (db w')" if "inv_db R (db w)" "db w' = (db w)\<lparr>outbox_events := map f (outbox_events (db w))\<rparr>"
    "\<And>x. core (f x) = core x" for f
    unfolding that(2) by (rule inv_db_outbox [OF that(1)]) (simp add: that(3) comp_def)
  show "OutboxRepository_MarkPublished E i at w = (r1, w') \<Longrightarrow> inv_db R (db w) \<Longrightarrow> inv_db R (db w')"
    by (cases r1) (auto simp: visible_def core_def touch_def dest!: Outbox_Inl(1) MarkPublished_Inr intro!: same)
  show "OutboxRepository_RecordFailure E i m w = (r2, w') \<Longrightarrow> inv_db R (db w) \<Longrightarrow> inv_db R (db w')"
    by (cases r2) (auto simp: visible_def core_def touch_def dest!: Outbox_Inl(2) RecordFailure_Inr intro!: same)
qed

lemma seed_user_inv:
  assumes "bindE (User_BeforeCreate (RT E) system_user) (gCreateDoNothing (Users (DB E))) w = (r, w')" "inv_db R (db w)"
  shows "inv_db R (db w')"
proof (cases "visible w' = visible w")
  case False
  with seed_user [OF assms(1)] obtain t where "\<forall>x\<in>set (users (db w)). \<not> user_clash system_user x"
    "db w' = (db w)\<lparr>users := users (db w) @ [born t system_user]\<rparr>" by (auto simp: visible_split)
  moreover from this assms(2) have "uniq user_clash (users (db w) @ [born t system_user])"
    by (simp add: inv_db_def wf_db_def)
  ultimately show ?thesis using inv_db_users [OF assms(2)] by simp
qed (use assms(2) in \<open>simp add: visible_eq\<close>)

lemma seed_wallet_inv:
  assumes "bindE (Wallet_BeforeCreate (RT E) system_wallet) (gCreateDoNothing (Wallets (DB E))) w = (r, w')" "inv_db R (db w)"
  shows "inv_db R (db w')"
proof (cases "visible w' = visible w")
  case False
  with seed_wallet [OF assms(1)] obtain t where "\<forall>x\<in>set (wallets (db w)). \<not> wallet_clash system_wallet x"
    "db w' = (db w)\<lparr>wallets := wallets (db w) @ [born t system_wallet]\<rparr>" by (auto simp: visible_split)
  moreover have "BalanceCachedMinor (born t system_wallet) = 0" by (simp add: born_def system_wallet_def)
  ultimately show ?thesis using inv_db_new_wallet [OF assms(2)] by simp
qed (use assms(2) in \<open>simp add: visible_eq\<close>)

theorem phase_inv:
  assumes "phase app w w'" "inv_db (RT E) (db w)"
  shows "inv_db (RT E) (db w')"
  using assms(1)
proof cases
  case quiet
  with assms(2) show ?thesis by (simp add: visible_eq)
next
  case (save_new_user u r1)
  then show ?thesis using new_user_inv assms(2) by simp
next
  case (save_user u r2)
  then show ?thesis using save_user_inv assms(2) by simp
next
  case (remove_user i r3)
  then show ?thesis using remove_user_inv assms(2) by simp
next
  case (save_new_wallet wl r4)
  then show ?thesis using new_wallet_inv assms(2) by simp
next
  case (save_status wl status r5)
  then show ?thesis using save_status_inv assms(2) by blast
next
  case (commit_top_up treq key h r6)
  then show ?thesis using money_step_inv [OF commit_steps(1) assms(2) runtime_laws_axioms] assms(2) by simp
next
  case (commit_transfer freq key h r7)
  then show ?thesis using money_step_inv [OF commit_steps(2) assms(2) runtime_laws_axioms] assms(2) by simp
next
  case (commit_reverse i key h r8)
  then show ?thesis using money_step_inv [OF commit_steps(3) assms(2) runtime_laws_axioms] assms(2) by simp
next
  case (send key vs r9)
  then have "db w' = db w" by (cases r9) (auto simp: visible_def dest!: publisher.Publish_Inr publisher.Publish_Inl)
  with assms(2) show ?thesis by simp
next
  case (mark_published i at r10)
  then show ?thesis using outbox_write_inv(1) assms(2) by simp
next
  case (record_failure i m r11)
  then show ?thesis using outbox_write_inv(2) assms(2) by simp
next
  case (seed_system_user r12)
  then show ?thesis using seed_user_inv assms(2) by simp
next
  case (seed_system_wallet r13)
  then show ?thesis using seed_wallet_inv assms(2) by simp
qed

theorem interleaved_inv:
  assumes "interleaved app s0 w" "inv_db (RT E) (db s0)"
  shows "inv_db (RT E) (db w)"
  using assms by (induction rule: interleaved.induct) (auto intro: phase_inv)

end

section \<open>An operation alone is a sequence of phases\<close>

lemma tryE_first:
  assumes "tryE m h f w = (r, w')" "\<And>e v. snd (h e v) = v"
  obtains (failed) e where "m w = (Inl e, w')" | (success) a w1 where "m w = (Inr a, w1)" "f a w1 = (r, w')"
proof (cases "m w")
  case (Pair q w1)
  show thesis
  proof (cases q)
    case (Inl e)
    with assms(1) Pair assms(2) [of e w1] failed show thesis by (simp add: tryE_def)
  qed (use assms(1) Pair success in \<open>simp add: tryE_def\<close>)
qed

lemma tryE_last:
  assumes "tryE m h (\<lambda>a. returnE (g a)) w = (r, w')" "\<And>e v. snd (h e v) = v"
  shows "\<exists>q. m w = (q, w')"
  using assms(1) by (rule tryE_first) (auto simp: assms(2) returnE_eq)

lemma throws_stay [simp]: "snd ((if c then throwE e else throwE e') v) = v" "snd (throwE e v) = v"
  by (simp_all add: throwE_def)

lemma WalletService_Create_phases: "\<exists>wl. BalanceCachedMinor wl = 0 \<and> WalletService_Create S req =
    tryE (UserRepository_GetByID (ws_env S) (cw_UserID req))
      (\<lambda>err. if IsNotFound err then throwE not_found else throwE (internal err))
      (\<lambda>user. if user_Status user \<noteq> UserStatusActive then throwE invalid
        else tryE (WalletRepository_Create (ws_env S) wl)
          (\<lambda>err. if IsDuplicate (Some err) then throwE conflict else throwE (internal err))
          (\<lambda>wl. returnE (WalletFromModel wl)))"
  by (rule exI [of _ "\<lparr>ID = uuid_Nil, CreatedAt = 0, UpdatedAt = 0, UserID = cw_UserID req,
      wallet_Currency = if cw_Currency req = [] then CurrencyTHB else cw_Currency req,
      wallet_Status = WalletStatusActive, BalanceCachedMinor = 0, wallet_DeletedAt = None\<rparr>"])
    (cases "cw_Currency req = []"; simp add: WalletService_Create_def Let_def cong: if_cong)

lemma phases_one: "phase A w w' \<Longrightarrow> phases A w w'"
  by (rule r_into_rtranclp)

lemma phases_next: "phases A w0 w \<Longrightarrow> phase A w w' \<Longrightarrow> phases A w0 w'"
  by (rule rtranclp.rtrancl_into_rtrancl)

lemma phases_trans: "phases A w1 w2 \<Longrightarrow> phases A w0 w1 \<Longrightarrow> phases A w0 w2"
  by (rule rtranclp_trans)

lemma phases_visible: "visible w' = visible w \<Longrightarrow> phases A w w'"
  by (rule phases_one [OF phase.quiet])

context app_laws
begin

lemma user_phases:
  "UserService_Create (app_users app) req w = (r1, w') \<Longrightarrow> phases app w w'"
  "UserService_Update (app_users app) i ureq w = (r2, w') \<Longrightarrow> phases app w w'"
  "UserService_Delete (app_users app) i w = (r3, w') \<Longrightarrow> phases app w w'"
proof -
  show "phases app w w'" if "UserService_Create (app_users app) req w = (r1, w')"
  proof -
    from tryE_last [OF that [unfolded UserService_Create_def Let_def wire_env] throws_stay(1)]
    obtain u q where "UserRepository_Create E u w = (q, w')" by blast
    then show ?thesis by (rule phases_one [OF phase.save_new_user [of app, unfolded wire_env]])
  qed
  show "phases app w w'" if u: "UserService_Update (app_users app) i ureq w = (r2, w')"
    using u unfolding UserService_Update_def Let_def wire_env
  proof (rule tryE_first, simp)
    fix e assume "UserRepository_GetByID E i w = (Inl e, w')"
    then show ?thesis by (rule phases_visible [OF keepsD [OF keeps_Get(1)]])
  next
    fix x :: user and w1
    let ?u = "x\<lparr>ExternalRef := uu_ExternalRef ureq, FullName := uu_FullName ureq,
      Email := uu_Email ureq, PhoneNumber := uu_PhoneNumber ureq, user_Status := uu_Status ureq\<rparr>"
    assume x: "UserRepository_GetByID E i w = (Inr x, w1)" and t: "tryE (UserRepository_Update E ?u)
        (\<lambda>err. if IsDuplicate (Some err) then throwE conflict else throwE (internal err))
        (\<lambda>user. returnE (UserFromModel user)) w1 = (r2, w')"
    obtain q where q: "UserRepository_Update E ?u w1 = (q, w')"
      using tryE_last [OF t throws_stay(1)] by blast
    have v: "visible w1 = visible w" by (rule keepsD [OF keeps_Get(1) x])
    have "x \<in> set (users (db w1)) \<and> user_live x"
      using env_laws.Get_Inr(1) [OF env_laws_axioms x] visible_db [OF v] by simp
    then have "\<exists>y\<in>set (users (db w1)). ID y = ID ?u \<and> user_live y" by (intro bexI [of _ x]) simp_all
    then have "phase app w1 w'" by (rule phase.save_user [of _ _ app, unfolded wire_env, OF _ q])
    with phases_visible [OF v] show ?thesis by (rule phases_next)
  qed
  show "phases app w w'" if d: "UserService_Delete (app_users app) i w = (r3, w')"
    using d unfolding UserService_Delete_def wire_env
  proof (rule tryE_first, simp)
    fix e assume "UserRepository_GetByID E i w = (Inl e, w')"
    then show ?thesis by (rule phases_visible [OF keepsD [OF keeps_Get(1)]])
  next
    fix x w1 assume x: "UserRepository_GetByID E i w = (Inr x, w1)"
      and "onErr internal (UserRepository_Delete E i) w1 = (r3, w')"
    then obtain q where "UserRepository_Delete E i w1 = (q, w')" by (cases r3) (auto simp: prog_simps)
    then have "phase app w1 w'" by (rule phase.remove_user [of app, unfolded wire_env])
    with phases_visible [OF keepsD [OF keeps_Get(1) x]] show ?thesis by (rule phases_next)
  qed
qed

lemma wallet_phases:
  "WalletService_Create (app_wallets app) req w = (r1, w') \<Longrightarrow> phases app w w'"
  "UpdateStatus (app_wallets app) i st w = (r2, w') \<Longrightarrow> phases app w w'"
proof -
  show "phases app w w'" if c: "WalletService_Create (app_wallets app) req w = (r1, w')"
  proof -
    from WalletService_Create_phases [of "app_wallets app" req, unfolded wire_env] obtain wl where
      wl: "BalanceCachedMinor wl = 0" and eq: "WalletService_Create (app_wallets app) req = tryE (UserRepository_GetByID E (cw_UserID req))
        (\<lambda>err. if IsNotFound err then throwE not_found else throwE (internal err))
        (\<lambda>user. if user_Status user \<noteq> UserStatusActive then throwE invalid
          else tryE (WalletRepository_Create E wl)
            (\<lambda>err. if IsDuplicate (Some err) then throwE conflict else throwE (internal err))
            (\<lambda>wl. returnE (WalletFromModel wl)))" by blast
    from c [unfolded eq] show ?thesis
    proof (rule tryE_first, simp)
      fix e assume "UserRepository_GetByID E (cw_UserID req) w = (Inl e, w')"
      then show ?thesis by (rule phases_visible [OF keepsD [OF keeps_Get(1)]])
    next
      fix x w1 assume x: "UserRepository_GetByID E (cw_UserID req) w = (Inr x, w1)"
        and nx: "(if user_Status x \<noteq> UserStatusActive then throwE invalid
          else tryE (WalletRepository_Create E wl)
            (\<lambda>err. if IsDuplicate (Some err) then throwE conflict else throwE (internal err))
            (\<lambda>wl. returnE (WalletFromModel wl))) w1 = (r1, w')"
      have v: "phases app w w1" by (rule phases_visible [OF keepsD [OF keeps_Get(1) x]])
      show ?thesis
      proof (cases "user_Status x = UserStatusActive")
        case True
        with nx have "tryE (WalletRepository_Create E wl)
            (\<lambda>err. if IsDuplicate (Some err) then throwE conflict else throwE (internal err))
            (\<lambda>wl. returnE (WalletFromModel wl)) w1 = (r1, w')" by simp
        from tryE_last [OF this throws_stay(1)] obtain q where "WalletRepository_Create E wl w1 = (q, w')" by blast
        then have "phase app w1 w'" by (rule phase.save_new_wallet [of _ app, unfolded wire_env, OF wl])
        with v show ?thesis by (rule phases_next)
      next
        case False
        with nx v show ?thesis by (simp add: throwE_eq)
      qed
    qed
  qed
  show "phases app w w'" if u: "UpdateStatus (app_wallets app) i st w = (r2, w')"
    using u unfolding UpdateStatus_phases wire_env
  proof (rule tryE_first, simp)
    fix e assume "WalletRepository_GetByID E i w = (Inl e, w')"
    then show ?thesis by (rule phases_visible [OF keepsD [OF keeps_Get(2)]])
  next
    fix wl w1 assume wl: "WalletRepository_GetByID E i w = (Inr wl, w1)"
      and s: "status_write (app_wallets app) wl st w1 = (r2, w')"
    have v: "visible w1 = visible w" by (rule keepsD [OF keeps_Get(2) wl])
    have "current (db w1) wl" using env_laws.Get_Inr(2) [OF env_laws_axioms wl] visible_db [OF v] by (auto simp: current_def)
    then have "phase app w1 w'" using s by (rule phase.save_status)
    with phases_visible [OF v] show ?thesis by (rule phases_next)
  qed
qed

lemma get_balance_interleaved:
  assumes g: "GetBalance (app_wallets app) i w = (r3, w')"
  shows "interleaved app w w'"
proof (cases r3)
  case (Inl e)
  with g ws.GetBalance_Inl show ?thesis by (blast intro: interleaved_one [OF phase.quiet])
next
  case (Inr resp)
  with g balance_read show ?thesis by (blast intro: interleaved.redis [OF interleaved.nothing])
qed

lemma guarded_interleaved:
  assumes run: "guarded (app_transactions app) key ep h body w = (r, w')"
    and commit: "\<And>v q v'. withTransaction E body v = (q, v') \<Longrightarrow> phase app v v'"
  shows "interleaved app w w'"
proof (cases "getIdempotencyReplay E key ep h w")
  case (Pair q w1)
  have v: "interleaved app w w1" by (rule interleaved_one [OF phase.quiet [OF keepsD [OF keeps_getIdempotencyReplay Pair]]])
  show ?thesis
  proof (cases q)
    case (Inl e)
    with run Pair v show ?thesis by (simp add: guarded_def bindE_def)
  next
    case (Inr a)
    obtain resp st k where a: "a = (resp, st, k)" by (cases a)
    show ?thesis
    proof (cases "st = 0")
      case False
      with run Pair Inr a v show ?thesis by (simp add: guarded_def bindE_def returnE_eq)
    next
      case True
      obtain p w2 where t: "withTransaction E body w1 = (p, w2)" by fastforce
      have c: "interleaved app w w2" by (rule interleaved.another [OF v commit [OF t]])
      show ?thesis
      proof (cases p)
        case Inl': (Inl e)
        with run Pair Inr a True t c show ?thesis by (simp add: guarded_def bindE_def)
      next
        case Inr': (Inr b)
        obtain response touched where b: "b = (response, touched)" by (cases b)
        obtain w3 where w3: "touchedWallets (ts_cacheStore (app_transactions app)) touched w2 = (Inr (), w3)"
          using ts.touched_Inr by blast
        have "w' = w3" using run Pair Inr a True t Inr' b w3 by (simp add: guarded_def bindE_def returnE_eq)
        moreover have "interleaved app w w3" using ts.touched_db [OF w3] by (intro interleaved.redis [OF c]) simp_all
        ultimately show ?thesis by simp
      qed
    qed
  qed
qed

lemma money_interleaved:
  "TopUp (app_transactions app) treq key w = (r1, w') \<Longrightarrow> interleaved app w w'"
  "Transfer (app_transactions app) freq key w = (r2, w') \<Longrightarrow> interleaved app w w'"
  "Reverse (app_transactions app) i key w = (r3, w') \<Longrightarrow> interleaved app w w'"
proof -
  show "TopUp (app_transactions app) treq key w = (r1, w') \<Longrightarrow> interleaved app w w'"
    unfolding ts.TopUp_guarded
    by (erule guarded_interleaved) (rule phase.commit_top_up [of app, unfolded wire_env])
  show "Reverse (app_transactions app) i key w = (r3, w') \<Longrightarrow> interleaved app w w'"
    unfolding ts.Reverse_guarded
    by (erule guarded_interleaved) (rule phase.commit_reverse [of app, unfolded wire_env])
  show "interleaved app w w'" if t: "Transfer (app_transactions app) freq key w = (r2, w')"
  proof (cases "tr_SourceWalletID freq = tr_DestinationWalletID freq")
    case True
    with t show ?thesis by (simp add: Transfer_def throwE_eq interleaved.nothing)
  next
    case False
    from t [unfolded ts.Transfer_guarded [OF False]] show ?thesis
      by (rule guarded_interleaved) (rule phase.commit_transfer [of app, unfolded wire_env])
  qed
qed

lemma publish_event_phases:
  assumes "publish_event (app_worker app) e w = (r, w')"
  shows "phases app w w'"
proof (cases "ParsePayload (RT E) (PayloadJSON e)")
  case (Inl err)
  with assms have "\<exists>q. OutboxRepository_RecordFailure E (ID e) (''decode payload: '' @ Error err) w = (q, w')"
    by (cases r) (auto simp: publish_event_def prog_simps wire_env)
  then obtain q' where "OutboxRepository_RecordFailure E (ID e) (''decode payload: '' @ Error err) w = (q', w')" by blast
  from phases_one [OF phase.record_failure [of app, unfolded wire_env, OF this]] show ?thesis .
next
  case (Inr p)
  obtain q w1 where s: "pub_Publish (NewRedisStreamPublisher client) StreamName (ToStreamValues (RT E) p) w = (q, w1)"
    by fastforce
  note sent = phases_one [OF phase.send [of app, unfolded wire_env, OF s]]
  show ?thesis
  proof (cases q)
    case (Inl err)
    with assms Inr s have "\<exists>q. OutboxRepository_RecordFailure E (ID e) (Error err) w1 = (q, w')"
      by (cases r) (auto simp: publish_event_def prog_simps wire_env)
    then obtain q' where "OutboxRepository_RecordFailure E (ID e) (Error err) w1 = (q', w')" by blast
    from phases_next [OF sent phase.record_failure [of app, unfolded wire_env, OF this]] show ?thesis .
  next
    case Inr': (Inr u)
    obtain now w2 where n: "time_Now (RT E) w1 = (now, w2)" by fastforce
    obtain q' where m: "OutboxRepository_MarkPublished E (ID e) now w2 = (q', w')"
      using assms Inr s Inr' n by (cases r) (auto simp: publish_event_def prog_simps wire_env)
    have "phases app w w2" by (rule phases_next [OF sent phase.quiet [OF Now_frame [OF n]]])
    then show ?thesis by (rule phases_next [OF _ phase.mark_published [of app, unfolded wire_env, OF m]])
  qed
qed

lemma publish_events_phases:
  "publish_events (app_worker app) es w = (r, w') \<Longrightarrow> phases app w w'"
proof (induction es arbitrary: w)
  case Nil
  then show ?case by (simp add: returnE_eq rtranclp.rtrancl_refl)
next
  case (Cons e es)
  obtain q w1 where e: "publish_event (app_worker app) e w = (q, w1)" by fastforce
  note one = publish_event_phases [OF e]
  show ?case
  proof (cases q)
    case (Inl err)
    with Cons.prems e one show ?thesis by (simp add: bindE_def)
  next
    case (Inr u)
    then have "publish_events (app_worker app) es w1 = (r, w')" using Cons.prems e by (simp add: bindE_def)
    from phases_trans [OF Cons.IH [OF this] one] show ?thesis .
  qed
qed

lemma publish_phases:
  assumes "PublishPending (app_worker app) w = (r, w')"
  shows "phases app w w'"
proof (cases "OutboxRepository_FetchPending E (OutboxBatchSize cfg) w")
  case (Pair q w1)
  have v: "phases app w w1" by (rule phases_visible [OF keepsD [OF keeps_lists(3) Pair]])
  show ?thesis
  proof (cases q)
    case (Inl err)
    with assms Pair v show ?thesis by (simp add: PublishPending_def bindE_def onErr_def handleE_def throwE_def wire_env)
  next
    case (Inr es)
    with assms Pair have "publish_events (app_worker app) es w1 = (r, w')"
      by (simp add: PublishPending_def bindE_def onErr_def handleE_def wire_env)
    from phases_trans [OF publish_events_phases [OF this] v] show ?thesis .
  qed
qed

lemma seed_phases:
  assumes "SeedSystemAccounts E w = (r, w')"
  shows "phases app w w'"
proof -
  obtain q w1 where s: "bindE (User_BeforeCreate (RT E) system_user) (gCreateDoNothing (Users (DB E))) w = (q, w1)"
    by fastforce
  obtain q2 w2 where s2: "bindE (Wallet_BeforeCreate (RT E) system_wallet) (gCreateDoNothing (Wallets (DB E))) w1 = (q2, w2)"
    by fastforce
  have 1: "phases app w w1" by (rule phases_one [OF phase.seed_system_user [of app, unfolded wire_env, OF s]])
  have 2: "phases app w w2" by (rule phases_next [OF 1 phase.seed_system_wallet [of app, unfolded wire_env, OF s2]])
  have "w' = w1 \<or> w' = w2" using assms s s2
    by (cases q; cases q2)
      (auto simp: SeedSystemAccounts_def bindE_step bindE_stop onErr_step onErr_stop returnE_def)
  with 1 2 show ?thesis by blast
qed

theorem step_interleaved:
  assumes "api_step app w w'"
  shows "interleaved app w w'"
  using assms
proof cases
  case (restart r)
  then have "SeedSystemAccounts E w = (r, w')" by (simp add: wire_env)
  from phases_interleaved [OF seed_phases [OF this]] show ?thesis .
qed (blast intro: phases_interleaved phases_visible user_phases wallet_phases publish_phases
    get_balance_interleaved money_interleaved)+

theorem reachable_interleaved: "reachable app w w' \<Longrightarrow> interleaved app w w'"
  by (induction rule: reachable.induct) (auto intro: interleaved.nothing interleaved_trans step_interleaved)

end

section \<open>Requests that race under one key\<close>

text \<open>Records of idempotency keys are only added.\<close>

definition keys_kept :: "db \<Rightarrow> db \<Rightarrow> bool" where
  "keys_kept d d' \<longleftrightarrow> set (idempotency_keys d) \<subseteq> set (idempotency_keys d')"

lemma keys_kept_same: "idempotency_keys d' = idempotency_keys d \<Longrightarrow> keys_kept d d'"
  by (simp add: keys_kept_def)

lemma posting_record:
  assumes "posting R d key hash t d'" "key \<noteq> []"
  shows "\<exists>k\<in>set (idempotency_keys d'). idem_Key k = key \<and> idem_Endpoint k = endpoint_of t"
proof -
  from assms obtain k where "idem_record R t key hash k" "idempotency_keys d' = idempotency_keys d @ [k]"
    unfolding posting_def by fastforce
  then show ?thesis by (simp add: idem_record_def)
qed

lemma keys_kept_money: "money_step R w w' \<Longrightarrow> keys_kept (db w) (db w')"
  by (auto simp: money_step_def posting_def keys_kept_def dest: visible_db)

context app_laws
begin

lemma phase_keys:
  assumes "phase app w w'" "inv_db (RT E) (db w)"
  shows "keys_kept (db w) (db w')"
  using assms(1)
proof cases
  case quiet
  then show ?thesis by (simp add: keys_kept_same visible_eq)
next
  case (save_new_user u r1)
  then show ?thesis
    by (cases r1) (auto simp: visible_def dest!: Create_Inl(1) UserRepository_Create_Inr intro: keys_kept_same)
next
  case (save_user u r2)
  then show ?thesis
    by (cases r2) (auto simp: visible_def dest!: Update_Inl(1) UserRepository_Update_Inr intro!: keys_kept_same)
next
  case (remove_user i r3)
  then show ?thesis unfolding UserRepository_Delete_def
    by (cases r3) (auto simp: visible_def dest!: Delete_Inl Delete_Inr intro: keys_kept_same)
next
  case (save_new_wallet wl r4)
  then show ?thesis
    by (cases r4) (auto simp: visible_def dest!: Create_Inl(2) WalletRepository_Create_Inr intro: keys_kept_same)
next
  case (save_status wl status r5)
  then have ex: "\<exists>x\<in>set (wallets (db w)). ID x = ID wl \<and> wallet_live x" by (auto simp: current_def)
  show ?thesis
  proof (cases r5)
    case (Inl e)
    with save_status(2) have "visible w' = visible w"
      by (auto simp: status_write_def prog_simps dest: Update_Inl(2))
    then show ?thesis by (simp add: visible_eq keys_kept_same)
  next
    case (Inr resp)
    from status_write_stale [OF save_status(2) [unfolded Inr] ex] show ?thesis by (auto intro: keys_kept_same)
  qed
next
  case (commit_top_up treq key h r6)
  then show ?thesis using keys_kept_money [OF commit_steps(1) [OF assms(2)]] by simp
next
  case (commit_transfer freq key h r7)
  then show ?thesis using keys_kept_money [OF commit_steps(2) [OF assms(2)]] by simp
next
  case (commit_reverse i key h r8)
  then show ?thesis using keys_kept_money [OF commit_steps(3) [OF assms(2)]] by simp
next
  case (send key vs r9)
  then have "db w' = db w" by (cases r9) (auto simp: visible_def dest!: publisher.Publish_Inr publisher.Publish_Inl)
  then show ?thesis by (simp add: keys_kept_same)
next
  case (mark_published i at r10)
  then show ?thesis
    by (cases r10) (auto simp: visible_def dest!: Outbox_Inl(1) MarkPublished_Inr intro: keys_kept_same)
next
  case (record_failure i m r11)
  then show ?thesis
    by (cases r11) (auto simp: visible_def dest!: Outbox_Inl(2) RecordFailure_Inr intro: keys_kept_same)
next
  case (seed_system_user r12)
  then show ?thesis using seed_user [of w r12 w'] by (auto simp: visible_def intro: keys_kept_same)
next
  case (seed_system_wallet r13)
  then show ?thesis using seed_wallet [of w r13 w'] by (auto simp: visible_def intro: keys_kept_same)
qed

lemma interleaved_keys:
  assumes "interleaved app s0 w" "inv_db (RT E) (db s0)"
  shows "keys_kept (db s0) (db w)"
  using assms(1)
proof (induction rule: interleaved.induct)
  case nothing
  then show ?case by (simp add: keys_kept_def)
next
  case (another w w')
  have "inv_db (RT E) (db w)" by (rule interleaved_inv [OF another.hyps(1) assms(2)])
  from another.IH phase_keys [OF another.hyps(2) this] show ?case unfolding keys_kept_def by blast
next
  case (redis w w')
  from redis.IH keys_kept_same show ?case by (simp add: keys_kept_def redis.hyps(2))
qed

text \<open>
  Two transfers under one key may both have found no record before either commits: once one has
  committed, the transaction of the other is rolled back.
\<close>

theorem racing_transfers:
  assumes "inv_db (RT E) (db w)" "key \<noteq> []"
    and "withTransaction E (Transfer_tx (app_transactions app) req key h) w = (Inr a, w1)"
    and "interleaved app w1 w2"
    and "withTransaction E (Transfer_tx (app_transactions app) again key h2) w2 = (r, w3)"
  shows "(\<exists>e. r = Inl e) \<and> visible w3 = visible w2"
proof -
  have step: "\<exists>t. posting (RT E) (db v) key hh t (db v') \<and> Type t = TransactionTypeTransfer"
    if inv: "inv_db (RT E) (db v)"
      and t: "withTransaction E (Transfer_tx (app_transactions app) q key hh) v = (Inr b, v')" for v q hh b v'
  proof -
    obtain resp ws where b: "b = (resp, ws)" by (cases b)
    from t [unfolded b withTransaction_def] obtain v1 v2 where
      v: "visible v1 = visible v" "Transfer_tx (app_transactions app) q key hh v1 = (Inr (resp, ws), v2)"
      "visible v' = visible v2" by (rule Transaction_Inr)
    from v(1,3) have d: "db v1 = db v" "db v' = db v2" by (auto dest: visible_db)
    from ts.Transfer_tx_posting [OF v(2)] inv_db_wf(1) [OF inv] show ?thesis unfolding d wire_env by auto
  qed
  from step [OF assms(1,3)] obtain t where t: "posting (RT E) (db w) key h t (db w1)" "Type t = TransactionTypeTransfer"
    by blast
  then obtain k where k: "k \<in> set (idempotency_keys (db w1))" "idem_Key k = key" "idem_Endpoint k = transferEndpoint"
    using posting_record [OF t(1) assms(2)] by auto
  have i1: "inv_db (RT E) (db w1)"
    by (rule phase_inv [OF phase.commit_transfer [of app, unfolded wire_env, OF assms(3)] assms(1)])
  have i2: "inv_db (RT E) (db w2)" by (rule interleaved_inv [OF assms(4) i1])
  have k2: "k \<in> set (idempotency_keys (db w2))"
    using interleaved_keys [OF assms(4) i1] k(1) by (auto simp: keys_kept_def)
  have "\<not> (\<exists>b. r = Inr b)"
  proof
    assume "\<exists>b. r = Inr b"
    with step [OF i2, of again h2 _ w3] assms(5) obtain t2 where
      "posting (RT E) (db w2) key h2 t2 (db w3)" "Type t2 = TransactionTypeTransfer" by blast
    with posting_fresh_key [OF _ assms(2) k2 k(2)] k(3) show False by fastforce
  qed
  then obtain e where e: "r = Inl e" by (cases r) auto
  have "keeps kv (Transfer_tx (app_transactions app) again key h2)" "keeps streams (Transfer_tx (app_transactions app) again key h2)"
    using ts.keeps_bodies(2) by (auto simp: keeps_def outside_def)
  from Transaction_Inl [OF assms(5) [unfolded e withTransaction_def] this] e show ?thesis by blast
qed

end

section \<open>The one phase that does not\<close>

context app_laws
begin

text \<open>
  A status saved from a row read earlier puts back the balance it was read with: the books are kept
  exactly when the balance is the same.
\<close>

theorem stale_status:
  assumes "inv_db (RT E) (db w)" "x \<in> set (wallets (db w))" "wallet_live x" "ID x = ID wl"
    and "status_write (app_wallets app) wl st w = (Inr resp, w')"
  shows "balances (db w') (ID wl) = Some (BalanceCachedMinor wl) \<and>
    (ledger_ok (db w') \<longrightarrow> BalanceCachedMinor wl = BalanceCachedMinor x)"
proof -
  note d = wf_db_distinct(2) [OF inv_db_wf(1) [OF assms(1)]]
  from status_write_stale [OF assms(5)] assms(2-4) obtain t where
    w': "db w' = (db w)\<lparr>wallets := replace_row (\<lambda>z. ID z = ID wl \<and> wallet_live z)
      (touch t (wl\<lparr>wallet_Status := st\<rparr>)) (wallets (db w))\<rparr>" by blast
  let ?y = "touch t (wl\<lparr>wallet_Status := st\<rparr>)"
  have y: "?y \<in> set (wallets (db w'))" "ID ?y = ID wl" "BalanceCachedMinor ?y = BalanceCachedMinor wl"
    using assms(2-4) unfolding w' by (auto simp: replace_row_def touch_def image_iff intro!: bexI [of _ x])
  have "map ID (wallets (db w')) = map ID (wallets (db w))"
    unfolding w' by (auto simp: replace_row_def touch_def)
  then have d': "distinct (map ID (wallets (db w')))" using d by simp
  have "ledger_ok (db w') \<Longrightarrow> BalanceCachedMinor wl = ledger_balance (ledger_entries (db w)) (ID wl)"
    using y unfolding ledger_ok_def w' by fastforce
  moreover have "BalanceCachedMinor x = ledger_balance (ledger_entries (db w)) (ID wl)"
    using assms(1,2,4) by (auto simp: inv_db_def ledger_ok_def)
  ultimately show ?thesis using balances_row [OF d' y(1)] y(2,3) by auto
qed

text \<open>
  The whole of \<open>UpdateStatus\<close>, with other operations between its two halves: the balance goes back
  to what it was when the wallet was read, and the books agree exactly if it had not changed.
\<close>

theorem status_race:
  assumes "deployed app w" "WalletRepository_GetByID E i w = (Inr wl, w1)" "reachable app w1 w2"
    and "status_write (app_wallets app) wl st w2 = (Inr resp, w3)"
  shows "balances (db w3) i = balances (db w) i \<and>
    (ledger_ok (db w3) \<longleftrightarrow> balances (db w2) i = balances (db w) i)"
proof -
  have v: "visible w1 = visible w" by (rule keepsD [OF keeps_Get(2) assms(2)])
  have wl: "wl \<in> set (wallets (db w))" "wallet_live wl" "ID wl = i"
    using env_laws.Get_Inr(2) [OF env_laws_axioms assms(2)] by auto
  have w1: "deployed app w1" by (rule deployed_step [OF assms(1) api_step.idle [OF v]])
  have w2: "deployed app w2" by (rule deployed_later [OF w1 assms(3)])
  note i2 = deployed_inv [OF w2]
  note d = wf_db_distinct(2) [OF inv_db_wf(1) [OF deployed_inv [OF assms(1)]]]
    and d2 = wf_db_distinct(2) [OF inv_db_wf(1) [OF i2]]
  have "prefix_of wallet_kept (wallets (db w)) (wallets (db w2))"
    using deployed_extends [OF w1 assms(3)] v by (simp add: extends_def visible_eq)
  from prefix_of_in [OF this wl(1)] wl(2,3) obtain x where x: "x \<in> set (wallets (db w2))" "wallet_live x"
    "ID x = ID wl" "UserID x = UserID wl" by (auto simp: wallet_kept_def wallet_live_def)
  have b: "balances (db w) i = Some (BalanceCachedMinor wl)" "balances (db w2) i = Some (BalanceCachedMinor x)"
    using balances_row [OF d wl(1)] balances_row [OF d2 x(1)] wl(3) x(3) by simp_all
  note stale = stale_status [OF i2 x(1-3) assms(4)]
  have "ledger_ok (db w3)" if "BalanceCachedMinor x = BalanceCachedMinor wl"
  proof -
    have "current (db w2) wl" using x that by (auto simp: current_def)
    from save_status_inv [OF assms(4) this i2] show ?thesis by (simp add: inv_db_def)
  qed
  with stale b wl(3) show ?thesis by auto
qed

end

end
