(* ===== verification/Coherence.thy ===== *)
theory Coherence
  imports Guarantees
begin

text \<open>
  The cache of balances beside the database. Whatever fails, an entry is only ever overwritten with
  the balance the wallet has at that moment, so a cached balance is one the wallet had; and while
  Redis executes every SET, the entries are the balances of the database.
\<close>

section \<open>What a step does to the cache\<close>

text \<open>An entry stays, or becomes the balance of the database.\<close>

definition cache_follows :: "'h runtime \<Rightarrow> 'h world \<Rightarrow> 'h world \<Rightarrow> bool" where
  "cache_follows R w w' \<longleftrightarrow>
    (\<forall>i. cached R w' i = cached R w i \<or> cached R w' i = balances (db w') i)"

text \<open>A wallet whose balance changes has its entry rewritten.\<close>

definition cache_refreshed :: "'h runtime \<Rightarrow> 'h world \<Rightarrow> 'h world \<Rightarrow> bool" where
  "cache_refreshed R w w' \<longleftrightarrow>
    (\<forall>i. balances (db w') i = balances (db w) i \<or> balances (db w) i = None \<or> cached R w' i = balances (db w') i)"

text \<open>Every entry is the balance of the wallet.\<close>

definition coherent :: "'h runtime \<Rightarrow> 'h world \<Rightarrow> bool" where
  "coherent R w \<longleftrightarrow> (\<forall>i b. cached R w i = Some b \<longrightarrow> balances (db w) i = Some b)"

text \<open>Redis executes every SET.\<close>

definition sets_reliable :: "'h redis \<Rightarrow> bool" where
  "sets_reliable client \<longleftrightarrow> (\<forall>k v ttl w. \<exists>w'. rSet client k v ttl w = (Inr (), w'))"

lemma coherent_step:
  assumes "coherent R w" "cache_follows R w w'" "cache_refreshed R w w'"
  shows "coherent R w'"
  unfolding coherent_def
proof (intro allI impI)
  fix i b assume b: "cached R w' i = Some b"
  show "balances (db w') i = Some b"
  proof (cases "cached R w' i = balances (db w') i")
    case False
    with assms(2) have "cached R w i = Some b" using b unfolding cache_follows_def by metis
    with assms(1) have "balances (db w) i = Some b" by (simp add: coherent_def)
    with assms(3) False show ?thesis unfolding cache_refreshed_def by (metis option.distinct(1))
  qed (use b in simp)
qed

text \<open>Steps that leave Redis alone and at most add wallets.\<close>

definition balances_stay :: "db \<Rightarrow> db \<Rightarrow> bool" where
  "balances_stay d d' \<longleftrightarrow> (\<forall>i. balances d' i = balances d i \<or> balances d i = None)"

lemma quiet_step:
  assumes "kv w' = kv w" "balances_stay (db w) (db w')"
  shows "cache_follows R w w' \<and> cache_refreshed R w w'"
  using assms(2) cached_kv [OF assms(1), of R]
  by (auto simp: cache_follows_def cache_refreshed_def balances_stay_def)

lemma visible_step: "visible w' = visible w \<Longrightarrow> cache_follows R w w' \<and> cache_refreshed R w w'"
  by (rule quiet_step) (simp_all add: visible_eq balances_stay_def)

lemma balances_stay_same: "wallets d' = wallets d \<Longrightarrow> balances_stay d d'"
  by (simp add: balances_stay_def balances_def)

lemma balances_stay_append: "wallets d' = wallets d @ [wl] \<Longrightarrow> balances_stay d d'"
  by (auto simp: balances_stay_def balances_def map_add_def split: option.splits)

section \<open>The refresh after a commit\<close>

context balance_cache_laws
begin

lemma touchedWallets_written:
  assumes "\<And>i b w. \<exists>w'. cache_Set C i b w = (Inr (), w')"
  shows "touchedWallets (Some C) ws w = (r, w') \<Longrightarrow> i \<in> ID ` set ws \<Longrightarrow>
    \<exists>wl\<in>set ws. ID wl = i \<and> content w' i = Some (BalanceCachedMinor wl)"
proof (induction ws arbitrary: w)
  case (Cons x ws)
  obtain w1 where s: "cache_Set C (ID x) (BalanceCachedMinor x) w = (Inr (), w1)" using assms by blast
  then have t: "touchedWallets (Some C) ws w1 = (r, w')"
    using Cons.prems by (simp add: bindE_def handleE_def)
  show ?case
  proof (cases "i \<in> ID ` set ws")
    case True
    with Cons.IH [OF t] show ?thesis by auto
  next
    case False
    with Cons.prems(2) have "ID x = i" by auto
    moreover have "content w' i = content w1 i" using touchedWallets_content [OF t, of i] False by auto
    ultimately show ?thesis using Set_Inr [OF s] by auto
  qed
qed simp

end

context money_laws
begin

text \<open>
  An operation that books hands the cache the rows whose balances it changed, as the database now
  has them.
\<close>

definition refreshes :: "'h world \<Rightarrow> 'h world \<Rightarrow> bool" where
  "refreshes w w' \<longleftrightarrow> visible w' = visible w \<or> (\<exists>ws w1 r. kv w1 = kv w \<and>
    touchedWallets (ts_cacheStore S) ws w1 = (r, w') \<and> fresh_rows (db w) (db w') ws)"

lemma guarded_refreshes:
  assumes "guarded S key ep hash body w = (r, w')" "keeps outside body"
    and "\<And>w1 resp ws w2. db w1 = db w \<Longrightarrow> body w1 = (Inr (resp, ws), w2) \<Longrightarrow> fresh_rows (db w1) (db w2) ws"
  shows "refreshes w w'"
proof (cases r)
  case (Inl e)
  with guarded_Inl [of key ep hash body w e w'] assms(1,2) show ?thesis by (simp add: refreshes_def)
next
  case (Inr a)
  obtain resp st where "guarded S key ep hash body w = (Inr (resp, st), w')"
    using assms(1) Inr by (cases a) simp
  then show ?thesis
  proof (cases rule: guarded_Inr)
    case (commit w1 w2 touched)
    from commit(6) obtain w3 q where w3: "visible w3 = visible w2"
      "touchedWallets (ts_cacheStore S) touched w3 = (q, w')" by blast
    have "outside w2 = outside w1" by (rule keepsD [OF assms(2) commit(2)])
    then have "kv w3 = kv w" using w3(1) commit(1) by (simp add: visible_eq outside_def)
    moreover have "fresh_rows (db w) (db w') touched"
      using assms(3) [OF visible_db [OF commit(1)] commit(2)] commit(1,4) by (simp add: visible_eq)
    ultimately show ?thesis using w3(2) unfolding refreshes_def by blast
  qed (simp add: refreshes_def)
qed

lemma money_refreshes:
  assumes "wf_db (db w)"
  shows "TopUp S treq key w = (r1, w') \<Longrightarrow> refreshes w w'"
    "Transfer S freq key w = (r2, w') \<Longrightarrow> refreshes w w'"
    "transactions_ok (db w) \<Longrightarrow> Reverse S i key w = (r3, w') \<Longrightarrow> refreshes w w'"
proof -
  show "TopUp S treq key w = (r1, w') \<Longrightarrow> refreshes w w'"
    unfolding TopUp_guarded
    by (erule guarded_refreshes [OF _ keeps_bodies(1)]) (use TopUp_tx_posting assms in fastforce)
  show "transactions_ok (db w) \<Longrightarrow> Reverse S i key w = (r3, w') \<Longrightarrow> refreshes w w'"
    unfolding Reverse_guarded
    by (erule guarded_refreshes [OF _ keeps_bodies(3)]) (use Reverse_tx_posting assms in fastforce)
  assume t: "Transfer S freq key w = (r2, w')"
  show "refreshes w w'"
  proof (cases "tr_SourceWalletID freq = tr_DestinationWalletID freq")
    case True
    with t show ?thesis by (simp add: Transfer_def throwE_def refreshes_def)
  next
    case False
    from t [unfolded Transfer_guarded [OF False]] show ?thesis
      by (rule guarded_refreshes [OF _ keeps_bodies(2)]) (use Transfer_tx_posting assms in fastforce)
  qed
qed

end

section \<open>The wired program\<close>

context app_laws
begin

lemma refreshes_follow:
  assumes "ts.refreshes w w'"
  shows "cache_follows (RT E) w w' \<and> (sets_reliable client \<longrightarrow> cache_refreshed (RT E) w w')"
proof (cases "visible w' = visible w")
  case False
  let ?C = "NewRedisBalanceCache client (RT E) (BalanceCacheTTL cfg)"
  from False assms obtain ws w1 r where w1: "kv w1 = kv w" "touchedWallets (Some ?C) ws w1 = (r, w')"
    and f: "fresh_rows (db w) (db w') ws" unfolding ts.refreshes_def by (auto simp: wire_env)
  note same = cached_kv [OF w1(1), of "RT E"]
  have "cached (RT E) w' i = cached (RT E) w i \<or> cached (RT E) w' i = balances (db w') i" for i
    using cache.touchedWallets_content [OF w1(2), of i] same f by (auto simp: fresh_rows_def)
  moreover have "balances (db w') i = balances (db w) i \<or> cached (RT E) w' i = balances (db w') i"
    if "sets_reliable client" for i
  proof -
    have "\<exists>w'. cache_Set ?C j b v = (Inr (), w')" for j b v
      using that by (simp add: sets_reliable_def NewRedisBalanceCache_def RedisBalanceCache_Set_def)
    from cache.touchedWallets_written [OF this w1(2), of i] f show ?thesis
      unfolding fresh_rows_def by (cases "i \<in> ID ` set ws") auto
  qed
  ultimately show ?thesis by (auto simp: cache_follows_def cache_refreshed_def)
qed (simp add: visible_step)

lemma balance_follows:
  assumes "GetBalance (app_wallets app) i w = (r, w')" "deployed app w"
  shows "cache_follows (RT E) w w' \<and> cache_refreshed (RT E) w w'"
proof (cases r)
  case (Inl e)
  with ws.GetBalance_Inl assms(1) show ?thesis by (metis visible_step)
next
  case (Inr resp)
  from balance_read [OF assms(1) [unfolded Inr]] obtain wl where wl: "live_wallet (db w) i wl" "db w' = db w"
    "cached (RT E) w' = cached (RT E) w \<or> cached (RT E) w' = (cached (RT E) w)(i \<mapsto> BalanceCachedMinor wl)"
    using cache.content_visible by metis
  have "balances (db w) i = Some (BalanceCachedMinor wl)"
    using balances_row [OF wf_db_distinct(2) [OF deployed_wf [OF assms(2), THEN conjunct1]]] wl(1)
    by (auto simp: live_wallet_def)
  with wl(2,3) show ?thesis by (auto simp: cache_follows_def cache_refreshed_def)
qed

lemma status_follows:
  assumes "UpdateStatus (app_wallets app) i st w = (r, w')" "deployed app w"
  shows "cache_follows (RT E) w w' \<and> cache_refreshed (RT E) w w'"
proof (cases r)
  case (Inl e)
  with ws.UpdateStatus_Inl assms(1) show ?thesis by (metis visible_step)
next
  case (Inr resp)
  with status_only [OF assms(2)] assms(1) have "balances (db w') = balances (db w)" by blast
  moreover have "kv w' = kv w"
    using ws.UpdateStatus_Inr [OF assms(1) [unfolded Inr]] by (auto simp: visible_def)
  ultimately show ?thesis by (intro quiet_step) (simp_all add: balances_stay_def)
qed

lemma create_wallet_follows:
  assumes "WalletService_Create (app_wallets app) req w = (r, w')"
  shows "cache_follows (RT E) w w' \<and> cache_refreshed (RT E) w w'"
proof (cases r)
  case (Inl e)
  with ws.WalletService_Create_Inl assms(1) show ?thesis by (metis visible_step)
next
  case (Inr resp)
  with create_wallet_books assms obtain wl where
    "visible w' = ((db w)\<lparr>wallets := wallets (db w) @ [wl]\<rparr>, kv w, streams w)" by blast
  then show ?thesis by (intro quiet_step balances_stay_append [of _ _ wl]) (simp_all add: visible_def)
qed

lemma user_follows:
  "UserService_Create (app_users app) req w = (r1, w') \<Longrightarrow> kv w' = kv w \<and> wallets (db w') = wallets (db w)"
  "UserService_Update (app_users app) i ureq w = (r2, w') \<Longrightarrow> kv w' = kv w \<and> wallets (db w') = wallets (db w)"
  "UserService_Delete (app_users app) i w = (r3, w') \<Longrightarrow> kv w' = kv w \<and> wallets (db w') = wallets (db w)"
  by ((cases r1; auto dest!: us.UserService_Create_Inr us.UserService_Create_Inl simp: visible_def),
    (cases r2; auto dest!: us.UserService_Update_Inr us.UserService_Update_Inl simp: visible_def),
    (cases r3; auto dest!: us.UserService_Delete_Inr us.UserService_Delete_Inl simp: visible_def))

lemma publish_follows:
  assumes "PublishPending (app_worker app) w = (r, w')" "deployed app w"
  shows "kv w' = kv w \<and> wallets (db w') = wallets (db w)"
  using wk.PublishPending_step [OF assms(1) wf_db_distinct(4) [OF deployed_wf [OF assms(2), THEN conjunct1]]]
  by (auto simp: batch_step_def)

lemma restart_follows:
  assumes "SeedSystemAccounts E w = (r, w')"
  shows "kv w' = kv w \<and> balances_stay (db w) (db w')"
proof -
  obtain q w1 where s: "bindE (User_BeforeCreate (RT E) system_user) (gCreateDoNothing (Users (DB E))) w = (q, w1)"
    by (cases "bindE (User_BeforeCreate (RT E) system_user) (gCreateDoNothing (Users (DB E))) w")
  have 1: "kv w1 = kv w \<and> wallets (db w1) = wallets (db w)"
    using seed_user [OF s] by (auto simp: visible_def)
  obtain q2 w2 where s2: "bindE (Wallet_BeforeCreate (RT E) system_wallet) (gCreateDoNothing (Wallets (DB E))) w1 = (q2, w2)"
    by (cases "bindE (Wallet_BeforeCreate (RT E) system_wallet) (gCreateDoNothing (Wallets (DB E))) w1")
  have 2: "kv w2 = kv w1 \<and> balances_stay (db w1) (db w2)"
    using seed_wallet [OF s2] balances_stay_append [of "db w2" "db w1"] balances_stay_same [of "db w2" "db w1"]
    by (auto simp: visible_def)
  have "w' = w1 \<or> w' = w2" using assms s s2
    by (cases q; cases q2)
      (auto simp: SeedSystemAccounts_def bindE_step bindE_stop onErr_step onErr_stop returnE_def)
  with 1 2 show ?thesis by (auto simp: balances_stay_def balances_def)
qed

text \<open>Every step, whatever it returns.\<close>

theorem api_step_follows:
  assumes "api_step app w w'" "deployed app w"
  shows "cache_follows (RT E) w w' \<and> (sets_reliable client \<longrightarrow> cache_refreshed (RT E) w w')"
  using assms(1)
proof cases
  case idle
  then show ?thesis using visible_step by blast
next
  case (create_user req r1)
  with user_follows(1) quiet_step balances_stay_same show ?thesis by metis
next
  case (update_user i ureq r2)
  with user_follows(2) quiet_step balances_stay_same show ?thesis by metis
next
  case (delete_user i r3)
  with user_follows(3) quiet_step balances_stay_same show ?thesis by metis
next
  case (create_wallet wreq r4)
  then show ?thesis using create_wallet_follows by blast
next
  case (get_balance i r5)
  then show ?thesis using balance_follows assms(2) by blast
next
  case (update_status i status r6)
  then show ?thesis using status_follows assms(2) by blast
next
  case (top_up treq key r7)
  then show ?thesis using ts.money_refreshes(1) deployed_wf [OF assms(2)] refreshes_follow by blast
next
  case (transfer freq key r8)
  then show ?thesis using ts.money_refreshes(2) deployed_wf [OF assms(2)] refreshes_follow by blast
next
  case (reverse i key r9)
  then show ?thesis using ts.money_refreshes(3) inv_db_wf [OF deployed_inv [OF assms(2)]] refreshes_follow by blast
next
  case (publish r10)
  with publish_follows assms(2) quiet_step balances_stay_same show ?thesis by metis
next
  case (restart r11)
  then show ?thesis using restart_follows [of w r11 w'] quiet_step [of w' w "RT E"] by (simp add: wire_env)
qed

text \<open>A cached balance is one the wallet had.\<close>

theorem cached_was_balance:
  assumes "reachable app s0 w" "db s0 = empty_db" "\<forall>i. cached (RT E) s0 i = None" "cached (RT E) w i = Some b"
  shows "\<exists>v. reachable app s0 v \<and> reachable app v w \<and> balances (db v) i = Some b"
  using assms(1,4)
proof (induction rule: reachable.induct)
  case start
  then show ?case using assms(3) by simp
next
  case (step w w')
  have "deployed app w" using step.hyps(1) assms(2) unfolding deployed_def by blast
  note f = api_step_follows [OF step.hyps(2) this]
  show ?case
  proof (cases "cached (RT E) w' i = cached (RT E) w i")
    case True
    with step.IH step.prems step.hyps(2) show ?thesis by (metis reachable.step)
  next
    case False
    with f step.prems have "balances (db w') i = Some b" unfolding cache_follows_def by metis
    then show ?thesis using reachable.step [OF step.hyps] reachable.start by blast
  qed
qed

theorem reachable_coherent:
  assumes "reachable app s0 w" "db s0 = empty_db" "\<forall>i. cached (RT E) s0 i = None" "sets_reliable client"
  shows "coherent (RT E) w"
  using assms(1)
proof (induction rule: reachable.induct)
  case start
  then show ?case using assms(3) by (simp add: coherent_def)
next
  case (step w w')
  have "deployed app w" using step.hyps(1) assms(2) unfolding deployed_def by blast
  from api_step_follows [OF step.hyps(2) this] assms(4) coherent_step [OF step.IH] show ?case by blast
qed

text \<open>Then a balance read is the balance of the database, whatever its source.\<close>

theorem balance_exact:
  assumes "reachable app s0 w" "db s0 = empty_db" "\<forall>i. cached (RT E) s0 i = None" "sets_reliable client"
    and "GetBalance (app_wallets app) i w = (Inr resp, w')"
  shows "balances (db w) i = Some (br_BalanceMinor resp)"
proof -
  have "deployed app w" using assms(1,2) unfolding deployed_def by blast
  note d = wf_db_distinct(2) [OF deployed_wf [OF this, THEN conjunct1]]
  from balance_read [OF assms(5)] obtain wl where "live_wallet (db w) i wl"
    "cached (RT E) w i = Some (br_BalanceMinor resp) \<or> br_BalanceMinor resp = BalanceCachedMinor wl" by blast
  with balances_row [OF d, of wl] reachable_coherent [OF assms(1-4)] show ?thesis
    by (auto simp: live_wallet_def coherent_def)
qed

section \<open>Restarts\<close>

text \<open>Once the system accounts are there, seeding them again changes nothing.\<close>

theorem restart_idle:
  assumes "deployed app w" "SystemUserID \<in> ID ` set (users (db w))" "SystemWalletID \<in> ID ` set (wallets (db w))"
    and "reachable app w w1" "SeedSystemAccounts E w1 = (r, w2)"
  shows "visible w2 = visible w1"
proof -
  have "extends (db w) (db w1)" by (rule deployed_extends [OF assms(1,4)])
  then have p: "prefix_of user_kept (users (db w)) (users (db w1))"
    "prefix_of wallet_kept (wallets (db w)) (wallets (db w1))" by (simp_all add: extends_def)
  obtain z where z: "z \<in> set (users (db w))" "ID z = SystemUserID" using assms(2) by auto
  then obtain x where "x \<in> set (users (db w1))" "user_kept z x" using prefix_of_in [OF p(1) z(1)] by blast
  moreover from this z have "user_clash system_user x"
    by (simp add: user_kept_def user_clash_def system_user_def)
  ultimately have u: "\<exists>x\<in>set (users (db w1)). user_clash system_user x" by blast
  obtain y where y: "y \<in> set (wallets (db w))" "ID y = SystemWalletID" using assms(3) by auto
  then obtain v where "v \<in> set (wallets (db w1))" "wallet_kept y v" using prefix_of_in [OF p(2) y(1)] by blast
  moreover from this y have "wallet_clash system_wallet v"
    by (simp add: wallet_kept_def wallet_clash_def system_wallet_def)
  ultimately have v: "\<exists>x\<in>set (wallets (db w1)). wallet_clash system_wallet x" by blast
  obtain q v1 where s: "bindE (User_BeforeCreate (RT E) system_user) (gCreateDoNothing (Users (DB E))) w1 = (q, v1)"
    by (cases "bindE (User_BeforeCreate (RT E) system_user) (gCreateDoNothing (Users (DB E))) w1")
  have 1: "visible v1 = visible w1" using seed_user [OF s] u by blast
  obtain q2 v2 where s2: "bindE (Wallet_BeforeCreate (RT E) system_wallet) (gCreateDoNothing (Wallets (DB E))) v1 = (q2, v2)"
    by (cases "bindE (Wallet_BeforeCreate (RT E) system_wallet) (gCreateDoNothing (Wallets (DB E))) v1")
  have 2: "visible v2 = visible v1" using seed_wallet [OF s2] v 1 by (auto simp: visible_eq)
  have "w2 = v1 \<or> w2 = v2" using assms(5) s s2
    by (cases q; cases q2)
      (auto simp: SeedSystemAccounts_def bindE_step bindE_stop onErr_step onErr_stop returnE_def)
  with 1 2 show ?thesis by auto
qed

end

section \<open>The worker\<close>

text \<open>A batch that fails does not stop the loop: after its ticks it has run that many batches.\<close>

lemma worker_iterates:
  "worker_run W ticks w = (Inr (), ((\<lambda>v. snd (PublishPending W v)) ^^ Suc ticks) w)"
proof -
  have one: "handleE (PublishPending W) (\<lambda>_. returnE ()) v = (Inr (), snd (PublishPending W v))" for v
    by (cases "PublishPending W v"; cases "fst (PublishPending W v)") (simp_all add: handleE_def returnE_def)
  show ?thesis
    by (induction ticks arbitrary: w) (simp_all add: one bindE_def funpow_Suc_right del: funpow.simps(2))
qed

lemma worker_run_snd: "snd (worker_run W n w) = ((\<lambda>v. snd (PublishPending W v)) ^^ Suc n) w"
  by (simp add: worker_iterates)

lemma worker_loop_done:
  "found (i + n) = Done \<Longrightarrow> (\<And>k. k < n \<Longrightarrow> found (i + k) = Tick) \<Longrightarrow>
    worker_loop W found i w = Some (snd (worker_run W n w))"
proof (induction n arbitrary: i w)
  case 0
  then show ?case by (subst worker_loop.simps) (simp add: worker_run_snd del: worker_run.simps)
next
  case (Suc n)
  have t: "found i = Tick" using Suc.prems(2) [of 0] by simp
  have "worker_loop W found (Suc i) (snd (PublishPending W w)) = Some (snd (worker_run W n (snd (PublishPending W w))))"
    by (rule Suc.IH) (use Suc.prems in \<open>force simp: add.commute\<close>)+
  with t show ?case
    by (subst worker_loop.simps) (simp add: worker_run_snd funpow_Suc_right del: funpow.simps(2) worker_run.simps)
qed

text \<open>The loop returns exactly if the context is done at some select, and not before.\<close>

lemma worker_loop_returns:
  assumes "worker_loop W found i w = Some w'"
  shows "\<exists>n\<ge>i. found n = Done"
proof (rule worker_loop.raw_induct [where P = "\<lambda>W found i w w'. \<exists>n\<ge>i. found n = Done", OF _ assms], goal_cases)
  case (1 loop W found i w w')
  show ?case
  proof (cases "found i")
    case Tick
    with 1(2) have "loop W found (Suc i) (snd (PublishPending W w)) = Some w'" by (simp add: Let_def)
    from 1(1) [OF this] show ?thesis using Suc_leD by blast
  qed blast
qed

theorem worker_loop_stops:
  "worker_loop W found 0 w = (if \<exists>n. found n = Done
    then Some (snd (worker_run W (LEAST n. found n = Done) w)) else None)"
proof (cases "\<exists>n. found n = Done")
  case True
  let ?n = "LEAST n. found n = Done"
  have d: "found (0 + ?n) = Done" unfolding add_0 using True by (rule LeastI_ex)
  have t: "found (0 + k) = Tick" if "k < ?n" for k
    unfolding add_0 using not_less_Least [OF that] by (cases "found k") blast+
  have "worker_loop W found 0 w = Some (snd (worker_run W ?n w))"
    by (rule worker_loop_done [where i = 0 and n = ?n]) (rule d, rule t)
  with True show ?thesis by (simp only: if_True)
next
  case False
  then show ?thesis using worker_loop_returns [of W found 0 w] by (cases "worker_loop W found 0 w") auto
qed

end
