(* ===== verification/Flights.thy ===== *)
theory Flights
  imports Interleaving Coherence
begin

text \<open>
  The cache under interleaving. A request that has read a wallet, or has committed a change of its
  balance, holds that balance and may write it to Redis much later, after other requests have
  moved it on. The state of a run is the world and the balances that are held. Whatever the order, a
  cached balance is one the wallet once had; but a late write leaves an old one behind, even
  when no call fails.
\<close>

section \<open>Balances in flight\<close>

type_synonym held = "(uuid \<times> int64) set"

definition held_rows :: "wallet list \<Rightarrow> held" where
  "held_rows ws = (\<lambda>x. (ID x, BalanceCachedMinor x)) ` set ws"

text \<open>The bodies of the three database transactions.\<close>

definition money_body :: "'h transaction_service \<Rightarrow> ('h, tx_result) go \<Rightarrow> bool" where
  "money_body S body \<longleftrightarrow> (\<exists>req key h. body = TopUp_tx S req key h) \<or>
    (\<exists>req key h. body = Transfer_tx S req key h) \<or> (\<exists>i key h. body = Reverse_tx S i key h)"

lemma money_bodyI [simp]: "money_body S (TopUp_tx S treq key h)" "money_body S (Transfer_tx S req key h)"
  "money_body S (Reverse_tx S i key h)"
  unfolding money_body_def by blast+

text \<open>
  The phases of \<open>Interleaving\<close> do not touch the keys of Redis. A commit hands its request the rows it
  has touched, the read of \<open>GetBalance\<close> the row it has read, and a write to Redis takes a balance
  that some request holds. Held balances are never given up: a request may stop at any point.
\<close>

inductive flight :: "'h app \<Rightarrow> 'h world \<times> held \<Rightarrow> 'h world \<times> held \<Rightarrow> bool" for A where
  away: "phase A w w' \<Longrightarrow> flight A (w, P) (w', P)"
| book: "money_body (app_transactions A) body \<Longrightarrow>
    withTransaction (ts_env (app_transactions A)) body w = (Inr (resp, ws), w') \<Longrightarrow>
    flight A (w, P) (w', P \<union> held_rows ws)"
| look_up: "WalletRepository_GetByID (ws_env (app_wallets A)) i w = (Inr wl, w') \<Longrightarrow>
    flight A (w, P) (w', P \<union> held_rows [wl])"
| set_cache: "(i, b) \<in> P \<Longrightarrow> ts_cacheStore (app_transactions A) = Some C \<Longrightarrow> cache_Set C i b w = (r, w') \<Longrightarrow>
    flight A (w, P) (w', P)"

inductive_cases flight_cases [consumes 1, case_names away book look_up set_cache]: "flight A (w, P) (w', Q)"

abbreviation flights :: "'h app \<Rightarrow> 'h world \<times> held \<Rightarrow> 'h world \<times> held \<Rightarrow> bool" where
  "flights A \<equiv> (flight A)\<^sup>*\<^sup>*"

lemma flights_one: "flight A s t \<Longrightarrow> flights A s t"
  by (rule r_into_rtranclp)

lemma flights_next: "flights A s t \<Longrightarrow> flight A t u \<Longrightarrow> flights A s u"
  by (rule rtranclp.rtrancl_into_rtrancl)

lemma flights_trans: "flights A s t \<Longrightarrow> flights A t u \<Longrightarrow> flights A s u"
  by (rule rtranclp_trans)

lemma phases_flights: "phases A w w' \<Longrightarrow> flights A (w, P) (w', P)"
  by (induction rule: rtranclp_induct) (auto intro: flights_next flight.away)

lemma held_rows_simps [simp]: "held_rows [] = {}" "held_rows (x # ws) = insert (ID x, BalanceCachedMinor x) (held_rows ws)"
  by (auto simp: held_rows_def)

section \<open>What a step does to the cache and to what is held\<close>

context app_laws
begin

lemma commit_outside:
  assumes "withTransaction E body w = (r, w')" "keeps outside body"
  shows "kv w' = kv w \<and> streams w' = streams w"
proof (cases r)
  case (Inl e)
  have "keeps kv body" "keeps streams body" using assms(2) by (auto simp: keeps_def outside_def)
  with Transaction_Inl [OF assms(1) [unfolded Inl withTransaction_def]] show ?thesis by (simp add: visible_eq)
next
  case (Inr a)
  obtain resp ws where a: "a = (resp, ws)" by (cases a)
  from assms(1) [unfolded Inr a withTransaction_def] obtain w1 w2 where
    v: "visible w1 = visible w" "body w1 = (Inr (resp, ws), w2)" "visible w' = visible w2"
    by (rule Transaction_Inr)
  have "outside w2 = outside w1" by (rule keepsD [OF assms(2) v(2)])
  with v show ?thesis by (simp add: visible_eq outside_def)
qed

lemma money_body_outside: "money_body (app_transactions app) body \<Longrightarrow> keeps outside body"
  using ts.keeps_bodies by (auto simp: money_body_def)

lemma money_body_phase:
  assumes "money_body (app_transactions app) body" "withTransaction E body w = (r, w')"
  shows "phase app w w'"
  using assms phase.commit_top_up [of app, unfolded wire_env] phase.commit_transfer [of app, unfolded wire_env]
    phase.commit_reverse [of app, unfolded wire_env]
  by (auto simp: money_body_def)

lemma money_body_fresh:
  assumes "money_body (app_transactions app) body" "inv_db (RT E) (db w)"
    and "withTransaction E body w = (Inr (resp, ws), w')"
  shows "fresh_rows (db w) (db w') ws"
proof -
  from assms(3) [unfolded withTransaction_def] obtain w1 w2 where
    v: "visible w1 = visible w" "body w1 = (Inr (resp, ws), w2)" "visible w' = visible w2"
    by (rule Transaction_Inr)
  from v(1,3) have d: "db w1 = db w" "db w' = db w2" by (auto dest: visible_db)
  note wf = inv_db_wf [OF assms(2), folded d(1)]
  have "fresh_rows (db w1) (db w2) ws" using assms(1) unfolding money_body_def
  proof (elim disjE exE)
    fix req key h assume "body = TopUp_tx (app_transactions app) req key h"
    with ts.TopUp_tx_posting v(2) wf(1) show ?thesis by blast
  next
    fix req key h assume "body = Transfer_tx (app_transactions app) req key h"
    with ts.Transfer_tx_posting v(2) wf(1) show ?thesis by blast
  next
    fix i key h assume "body = Reverse_tx (app_transactions app) i key h"
    with ts.Reverse_tx_posting v(2) wf show ?thesis by blast
  qed
  then show ?thesis by (simp add: d)
qed

text \<open>Only a write to Redis changes what Redis holds.\<close>

lemma phase_kv:
  assumes "phase app w w'"
  shows "kv w' = kv w"
  using assms
proof cases
  case quiet
  then show ?thesis by (simp add: visible_eq)
next
  case (save_new_user u r1)
  then show ?thesis by (cases r1) (auto simp: visible_def dest!: Create_Inl(1) UserRepository_Create_Inr)
next
  case (save_user u r2)
  then show ?thesis by (cases r2) (auto simp: visible_def dest!: Update_Inl(1) UserRepository_Update_Inr)
next
  case (remove_user i r3)
  then show ?thesis unfolding UserRepository_Delete_def
    by (cases r3) (auto simp: visible_def dest!: Delete_Inl Delete_Inr)
next
  case (save_new_wallet wl r4)
  then show ?thesis by (cases r4) (auto simp: visible_def dest!: Create_Inl(2) WalletRepository_Create_Inr)
next
  case (save_status wl status r5)
  then obtain q where q: "WalletRepository_Update E (wl\<lparr>wallet_Status := status\<rparr>) w = (q, w')"
    by (cases r5) (auto simp: status_write_def prog_simps)
  have "\<exists>x\<in>set (wallets (db w)). ID x = ID (wl\<lparr>wallet_Status := status\<rparr>) \<and> wallet_live x"
    using save_status(1) by (auto simp: current_def)
  with q show ?thesis
    by (cases q) (auto simp: visible_def dest!: Update_Inl(2) WalletRepository_Update_Inr)
next
  case (commit_top_up treq key h r6)
  then show ?thesis using commit_outside ts.keeps_bodies(1) by auto
next
  case (commit_transfer freq key h r7)
  then show ?thesis using commit_outside ts.keeps_bodies(2) by auto
next
  case (commit_reverse i key h r8)
  then show ?thesis using commit_outside ts.keeps_bodies(3) by auto
next
  case (send key vs r9)
  then show ?thesis by (cases r9) (auto simp: visible_def dest!: publisher.Publish_Inr publisher.Publish_Inl)
next
  case (mark_published i at r10)
  then show ?thesis by (cases r10) (auto simp: visible_def dest!: Outbox_Inl(1) MarkPublished_Inr)
next
  case (record_failure i m r11)
  then show ?thesis by (cases r11) (auto simp: visible_def dest!: Outbox_Inl(2) RecordFailure_Inr)
next
  case (seed_system_user r12)
  then show ?thesis using seed_user [of w r12 w'] by (auto simp: visible_def)
next
  case (seed_system_wallet r13)
  then show ?thesis using seed_wallet [of w r13 w'] by (auto simp: visible_def)
qed

lemma set_cache_world:
  assumes "ts_cacheStore (app_transactions app) = Some C" "cache_Set C i b w = (r, w')"
  shows "db w' = db w \<and> streams w' = streams w \<and>
    (cached (RT E) w' = cached (RT E) w \<or> cached (RT E) w' = (cached (RT E) w)(i \<mapsto> b))"
proof -
  have C: "C = NewRedisBalanceCache client (RT E) (BalanceCacheTTL cfg)" using assms(1) by simp
  from keepsD [OF cache.keeps_cache_Set assms(2) [unfolded C]] cache.Set_cases [OF assms(2) [unfolded C]]
  show ?thesis by simp
qed

text \<open>A run with held balances is an interleaving, so the books are kept.\<close>

lemma flight_interleaved:
  assumes "flight app (w, P) (w', Q)"
  shows "interleaved app w w'"
  using assms
proof (cases rule: flight_cases)
  case away
  then show ?thesis by (simp add: interleaved_one)
next
  case (book body resp ws)
  then show ?thesis using interleaved_one [OF money_body_phase] by simp
next
  case (look_up i wl)
  then show ?thesis using interleaved_one [OF phase.quiet [OF keepsD [OF keeps_Get(2)]]] by simp
next
  case (set_cache i b C r)
  with set_cache_world show ?thesis by (intro interleaved.redis [OF interleaved.nothing]) simp_all
qed

lemma flights_interleaved: "flights app s t \<Longrightarrow> interleaved app (fst s) (fst t)"
proof (induction rule: rtranclp_induct)
  case (step t u)
  with interleaved_trans [OF flight_interleaved [of "fst t" "snd t" "fst u" "snd u"]] show ?case by simp
qed (rule interleaved.nothing)

end

section \<open>A cached balance is one the wallet had\<close>

text \<open>At some earlier state of the run the database held the balance.\<close>

definition once :: "'h app \<Rightarrow> 'h world \<times> held \<Rightarrow> 'h world \<times> held \<Rightarrow> uuid \<Rightarrow> int64 \<Rightarrow> bool" where
  "once A s t i b \<longleftrightarrow> (\<exists>v. flights A s v \<and> flights A v t \<and> balances (db (fst v)) i = Some b)"

lemma once_later: "once A s t i b \<Longrightarrow> flight A t u \<Longrightarrow> once A s u i b"
  unfolding once_def using flights_next by metis

lemma once_now: "flights A s t \<Longrightarrow> balances (db (fst t)) i = Some b \<Longrightarrow> once A s t i b"
  unfolding once_def by blast

context app_laws
begin

text \<open>What a step makes known was held, or cached, or is the balance now.\<close>

lemma flight_known:
  assumes "flight app (w, P) (w', Q)" "inv_db (RT E) (db w)" "(i, b) \<in> Q \<or> cached (RT E) w' i = Some b"
  shows "(i, b) \<in> P \<or> cached (RT E) w i = Some b \<or> balances (db w') i = Some b"
  using assms(1)
proof (cases rule: flight_cases)
  case away
  with cached_kv [OF phase_kv] assms(3) show ?thesis by metis
next
  case (book body resp ws)
  then have t: "withTransaction E body w = (Inr (resp, ws), w')" by simp
  have "cached (RT E) w' = cached (RT E) w"
    using commit_outside [OF t money_body_outside [OF book(2)]] by (blast intro: cached_kv)
  moreover have "balances (db w') i = Some b" if "(i, b) \<in> held_rows ws"
    using money_body_fresh [OF book(2) assms(2) t] that by (auto simp: held_rows_def fresh_rows_def)
  ultimately show ?thesis using assms(3) book(1) by auto
next
  case (look_up j wl)
  then have r: "WalletRepository_GetByID E j w = (Inr wl, w')" by simp
  have v: "visible w' = visible w" by (rule keepsD [OF keeps_Get(2) r])
  have "balances (db w) (ID wl) = Some (BalanceCachedMinor wl)"
    using balances_row [OF wf_db_distinct(2) [OF inv_db_wf(1) [OF assms(2)]]]
      env_laws.Get_Inr(2) [OF env_laws_axioms r] by auto
  moreover have "db w' = db w" "cached (RT E) w' = cached (RT E) w" using v by (auto simp: visible_eq intro: cached_kv)
  ultimately show ?thesis using assms(3) look_up(1) by auto
next
  case (set_cache j c C r)
  with set_cache_world [OF set_cache(3,4)] assms(3) show ?thesis by (auto split: if_splits)
qed

theorem known_once:
  assumes "flights app (s0, {}) t" "inv_db (RT E) (db s0)" "\<forall>i. cached (RT E) s0 i = None"
    and "(i, b) \<in> snd t \<or> cached (RT E) (fst t) i = Some b"
  shows "once app (s0, {}) t i b"
  using assms(1,4)
proof (induction arbitrary: i b rule: rtranclp_induct)
  case base
  then show ?case using assms(3) by simp
next
  case (step t u)
  obtain w P w' Q where tu: "t = (w, P)" "u = (w', Q)" by (cases t; cases u)
  have "inv_db (RT E) (db w)"
    using interleaved_inv [OF flights_interleaved [OF step.hyps(1)]] assms(2) by (simp add: tu)
  from flight_known [OF step.hyps(2) [unfolded tu] this] step.prems
  consider "(i, b) \<in> P \<or> cached (RT E) w i = Some b" | "balances (db w') i = Some b" by (auto simp: tu)
  then show ?case
  proof cases
    case 1
    then have "once app (s0, {}) t i b" by (intro step.IH) (simp add: tu)
    then show ?thesis using step.hyps(2) by (rule once_later)
  next
    case 2
    then show ?thesis by (intro once_now [OF flights_next [OF step.hyps]]) (simp add: tu)
  qed
qed

section \<open>Whole operations are flights\<close>

lemma touched_flights:
  "touchedWallets (ts_cacheStore (app_transactions app)) ws w = (r, w') \<Longrightarrow> held_rows ws \<subseteq> P \<Longrightarrow>
    flights app (w, P) (w', P)"
proof (induction ws arbitrary: w)
  case Nil
  then show ?case by (simp add: returnE_def)
next
  case (Cons x ws)
  let ?C = "NewRedisBalanceCache client (RT E) (BalanceCacheTTL cfg)"
  obtain q w1 where s: "cache_Set ?C (ID x) (BalanceCachedMinor x) w = (q, w1)" by fastforce
  have "touchedWallets (Some ?C) ws w1 = (r, w')"
    using Cons.prems(1) s by (cases q) (simp_all add: bindE_def handleE_def returnE_def)
  with Cons have "flights app (w1, P) (w', P)" by simp
  moreover have "flight app (w, P) (w1, P)"
    by (rule flight.set_cache [OF _ _ s]) (use Cons.prems(2) in simp_all)
  ultimately show ?case by (rule flights_trans [OF flights_one, rotated])
qed

lemma guarded_flights:
  assumes run: "guarded (app_transactions app) key ep h body w = (r, w')" and m: "money_body (app_transactions app) body"
  shows "\<exists>Q. flights app (w, P) (w', Q)"
proof (cases "getIdempotencyReplay E key ep h w")
  case (Pair q w1)
  have v: "flights app (w, P) (w1, P)"
    by (rule phases_flights [OF phases_visible [OF keepsD [OF keeps_getIdempotencyReplay Pair]]])
  show ?thesis
  proof (cases q)
    case (Inl e)
    with run Pair v show ?thesis by (auto simp: guarded_def bindE_def)
  next
    case (Inr a)
    obtain resp st k where a: "a = (resp, st, k)" by (cases a)
    show ?thesis
    proof (cases "st = 0")
      case False
      with run Pair Inr a v show ?thesis by (auto simp: guarded_def bindE_def returnE_eq)
    next
      case True
      obtain p w2 where t: "withTransaction E body w1 = (p, w2)" by fastforce
      show ?thesis
      proof (cases p)
        case Inl': (Inl e)
        with run Pair Inr a True t have "w' = w2" by (simp add: guarded_def bindE_def)
        with flights_next [OF v flight.away [OF money_body_phase [OF m t]]] show ?thesis by blast
      next
        case Inr': (Inr b)
        obtain response touched where b: "b = (response, touched)" by (cases b)
        let ?Q = "P \<union> held_rows touched"
        obtain w3 where w3: "touchedWallets (ts_cacheStore (app_transactions app)) touched w2 = (Inr (), w3)"
          using ts.touched_Inr by blast
        have "w' = w3" using run Pair Inr a True t Inr' b w3 by (simp add: guarded_def bindE_def returnE_eq)
        moreover have "flight app (w1, P) (w2, ?Q)"
          by (rule flight.book [OF m]) (use t Inr' b in simp)
        moreover have "flights app (w2, ?Q) (w3, ?Q)" by (rule touched_flights [OF w3]) simp
        ultimately show ?thesis using flights_trans [OF flights_next [OF v]] by blast
      qed
    qed
  qed
qed

lemma money_flights:
  "TopUp (app_transactions app) treq key w = (r1, w') \<Longrightarrow> \<exists>Q. flights app (w, P) (w', Q)"
  "Transfer (app_transactions app) freq key w = (r2, w') \<Longrightarrow> \<exists>Q. flights app (w, P) (w', Q)"
  "Reverse (app_transactions app) i key w = (r3, w') \<Longrightarrow> \<exists>Q. flights app (w, P) (w', Q)"
proof -
  show "TopUp (app_transactions app) treq key w = (r1, w') \<Longrightarrow> \<exists>Q. flights app (w, P) (w', Q)"
    unfolding ts.TopUp_guarded by (erule guarded_flights) simp
  show "Reverse (app_transactions app) i key w = (r3, w') \<Longrightarrow> \<exists>Q. flights app (w, P) (w', Q)"
    unfolding ts.Reverse_guarded by (erule guarded_flights) simp
  assume t: "Transfer (app_transactions app) freq key w = (r2, w')"
  show "\<exists>Q. flights app (w, P) (w', Q)"
  proof (cases "tr_SourceWalletID freq = tr_DestinationWalletID freq")
    case True
    with t show ?thesis by (auto simp: Transfer_def throwE_eq)
  next
    case False
    from t [unfolded ts.Transfer_guarded [OF False]] show ?thesis
      by (rule guarded_flights) simp
  qed
qed

lemma balance_from_database_flights:
  assumes "balance_from_database (ws_cacheStore (app_wallets app)) wl w = (r, w')" "held_rows [wl] \<subseteq> P"
  shows "flights app (w, P) (w', P)"
proof -
  let ?C = "NewRedisBalanceCache client (RT E) (BalanceCacheTTL cfg)"
  obtain q w1 where s: "cache_Set ?C (ID wl) (BalanceCachedMinor wl) w = (q, w1)" by fastforce
  with assms(1) have "w' = w1"
    by (cases q) (simp_all add: balance_from_database_def bindE_def handleE_def returnE_def)
  moreover have "flight app (w, P) (w1, P)"
    by (rule flight.set_cache [OF _ _ s]) (use assms(2) in simp_all)
  ultimately show ?thesis by (simp add: flights_one)
qed

lemma get_balance_flights:
  assumes "GetBalance (app_wallets app) i w = (r, w')"
  shows "\<exists>Q. flights app (w, P) (w', Q)"
  using assms unfolding GetBalance_def
proof (rule tryE_first, simp)
  fix e assume "WalletRepository_GetByID (ws_env (app_wallets app)) i w = (Inl e, w')"
  then have "WalletRepository_GetByID E i w = (Inl e, w')" by simp
  from phases_flights [OF phases_visible [OF keepsD [OF keeps_Get(2) this]]] show ?thesis by blast
next
  let ?C = "NewRedisBalanceCache client (RT E) (BalanceCacheTTL cfg)" and ?db = "balance_from_database (ws_cacheStore (app_wallets app))"
  fix wl w1 assume wl: "WalletRepository_GetByID (ws_env (app_wallets app)) i w = (Inr wl, w1)"
    and rest: "(case ws_cacheStore (app_wallets app) of None \<Rightarrow> balance_from_database None wl
       | Some c \<Rightarrow> tryE (cache_Get c i) (\<lambda>cacheErr. balance_from_database (Some c) wl)
           (\<lambda>(balance, found). if found then returnE \<lparr>br_WalletID = ID wl, br_Currency = wallet_Currency wl,
               br_BalanceMinor = balance, br_Source = ''redis''\<rparr> else balance_from_database (Some c) wl)) w1 = (r, w')"
  let ?P = "P \<union> held_rows [wl]"
  obtain q w2 where g: "cache_Get ?C i w1 = (q, w2)" by fastforce
  from rest g consider "w' = w2" | r' where "?db wl w2 = (r', w')"
    by (cases q) (auto simp: tryE_def returnE_eq split: if_splits)
  then have "flights app (w2, ?P) (w', ?P)"
    by cases (simp_all add: balance_from_database_flights)
  moreover have "flight app (w1, ?P) (w2, ?P)"
    by (rule flight.away [OF phase.quiet [OF keepsD [OF cache.keeps_cache_Get g]]])
  ultimately show ?thesis
    using flights_trans [OF flights_next [OF flights_one [OF flight.look_up [OF wl]]]] by blast
qed

theorem step_flights:
  assumes "api_step app w w'"
  shows "\<exists>Q. flights app (w, P) (w', Q)"
  using assms
proof cases
  case (restart r)
  then have "SeedSystemAccounts E w = (r, w')" by (simp add: wire_env)
  from phases_flights [OF seed_phases [OF this]] show ?thesis by blast
qed (blast intro: phases_flights phases_visible user_phases wallet_phases publish_phases
    get_balance_flights money_flights)+

theorem reachable_flights: "reachable app w w' \<Longrightarrow> \<exists>Q. flights app (w, P) (w', Q)"
proof (induction rule: reachable.induct)
  case (step w1 w2)
  from step.IH obtain Q where Q: "flights app (w, P) (w1, Q)" by blast
  from step_flights [OF step.hyps(2)] obtain Q' where "flights app (w1, Q) (w2, Q')" by blast
  from flights_trans [OF Q this] show ?case by blast
qed blast

section \<open>A late write leaves an old balance behind\<close>

text \<open>
  A request has committed and refreshes the cache only after other operations: the entry becomes
  the balance of its commit, which is right exactly if the balance has not changed since.
\<close>

theorem late_refresh:
  assumes "inv_db (RT E) (db w)" "money_body (app_transactions app) body"
    and "withTransaction E body w = (Inr (resp, ws), w1)" "interleaved app w1 w2" "sets_reliable client"
    and "touchedWallets (ts_cacheStore (app_transactions app)) ws w2 = (r, w3)" "x \<in> set ws"
  shows "cached (RT E) w3 (ID x) = balances (db w1) (ID x) \<and>
    (cached (RT E) w3 (ID x) = balances (db w3) (ID x) \<longleftrightarrow> balances (db w2) (ID x) = balances (db w1) (ID x))"
proof -
  let ?C = "NewRedisBalanceCache client (RT E) (BalanceCacheTTL cfg)"
  have "\<exists>w'. cache_Set ?C j b v = (Inr (), w')" for j b v
    using assms(5) by (simp add: sets_reliable_def NewRedisBalanceCache_def RedisBalanceCache_Set_def)
  from cache.touchedWallets_written [OF this, of ws w2 r w3 "ID x"] assms(6,7) obtain y where
    y: "y \<in> set ws" "ID y = ID x" "cached (RT E) w3 (ID x) = Some (BalanceCachedMinor y)" by auto
  have "balances (db w1) (ID y) = Some (BalanceCachedMinor y)"
    using money_body_fresh [OF assms(2,1,3)] y(1) by (simp add: fresh_rows_def)
  moreover have "db w3 = db w2" using ts.touched_db [OF assms(6)] by simp
  ultimately show ?thesis using y by auto
qed

end

end
