(* ===== verification/Program.thy ===== *)
theory Program
  imports Logging Flights
begin

text \<open>
  \<open>cmd/api/main.go\<close> with the start of the database (\<open>OpenPostgres\<close>, \<open>AutoMigrate\<close>) and of the Redis
  client: a run of the program loads the configuration, opens and migrates the database, seeds the
  system accounts, serves requests and runs the worker until it is told to stop or its server
  fails, and closes what it opened. What the drivers do is the record \<open>platform\<close>.
\<close>

section \<open>Drivers\<close>

record redis_options =
  Addr :: string
  Password :: string
  RedisIndex :: int64

record 'h platform =
  gorm_Open :: "string \<Rightarrow> ('h, 'h gorm) go"
  sql_DB :: "'h gorm \<Rightarrow> ('h, unit) go"
  sql_Ping :: "'h gorm \<Rightarrow> ('h, unit) go"
  sql_Close :: "'h gorm \<Rightarrow> ('h, unit) go"
  gorm_AutoMigrate :: "'h gorm \<Rightarrow> string list \<Rightarrow> ('h, unit) go"
  redis_NewClient :: "redis_options \<Rightarrow> 'h redis"
  redis_Close :: "'h redis \<Rightarrow> ('h, unit) go"
  http_Shutdown :: "int \<Rightarrow> ('h, unit) go"

text \<open>
  An opened database obeys the laws of gorm. Opening, migrating and closing change no row: the
  migration creates tables, columns and indexes that are missing and deletes nothing.
\<close>

locale platform_laws = runtime_laws R for R :: "'h runtime" +
  fixes P :: "'h platform"
  assumes Open_gorm: "gorm_Open P dsn w = (Inr d, w') \<Longrightarrow> gorm_laws d"
    and NewClient_redis: "redis_laws (redis_NewClient P opts)"
    and keeps_Open: "keeps visible (gorm_Open P dsn)"
    and keeps_sql: "keeps visible (sql_DB P d)" "keeps visible (sql_Ping P d)" "keeps visible (sql_Close P d)"
    and keeps_migrate: "keeps visible (gorm_AutoMigrate P d models)"
    and keeps_stop: "keeps visible (redis_Close P c)" "keeps visible (http_Shutdown P t)"

section \<open>db.go and balance\_cache.go\<close>

definition OpenPostgres :: "'h platform \<Rightarrow> string \<Rightarrow> ('h, 'h gorm) go" where
  "OpenPostgres P dsn =
    bindE (onErr (Errorf ''open database'') (gorm_Open P dsn)) (\<lambda>d.
    bindE (onErr (Errorf ''get sql db'') (sql_DB P d)) (\<lambda>_.
    bindE (onErr (Errorf ''ping database'') (sql_Ping P d)) (\<lambda>_.
    returnE d)))"

definition AutoMigrate :: "'h platform \<Rightarrow> 'h gorm \<Rightarrow> ('h, unit) go" where
  "AutoMigrate P d = gorm_AutoMigrate P d
    [''User'', ''Wallet'', ''Transaction'', ''LedgerEntry'', ''IdempotencyKey'', ''OutboxEvent'']"

definition NewRedisClient :: "'h platform \<Rightarrow> string \<Rightarrow> string \<Rightarrow> int64 \<Rightarrow> 'h redis" where
  "NewRedisClient P addr password n = redis_NewClient P \<lparr>Addr = addr, Password = password, RedisIndex = n\<rparr>"

section \<open>main.go\<close>

text \<open>What \<open>main\<close> has built when it starts to serve.\<close>

record 'h server =
  srv_config :: config
  srv_db :: "'h gorm"
  srv_redis :: "'h redis"
  srv_app :: "'h app"
  srv_api :: "'h api"

text \<open>The start: the error of each step is the text \<open>log.Fatalf\<close> prints before it exits.\<close>

definition main_start :: "'h platform \<Rightarrow> 'h runtime \<Rightarrow> body_decoder \<Rightarrow> environ \<Rightarrow>
    ('h world, string, 'h server) prog" where
  "main_start P R B env =
    bindE (onErr (\<lambda>err. ''load config: '' @ Error err) (liftR (Load env))) (\<lambda>cfg.
    bindE (onErr (\<lambda>err. ''open postgres: '' @ Error err) (OpenPostgres P (DBDSN cfg))) (\<lambda>d.
    bindE (onErr (\<lambda>err. ''auto migrate: '' @ Error err) (AutoMigrate P d)) (\<lambda>_.
    bindE (onErr (\<lambda>err. ''seed system accounts: '' @ Error err) (SeedSystemAccounts \<lparr>DB = d, RT = R\<rparr>)) (\<lambda>_.
    let redisClient = NewRedisClient P (RedisAddr cfg) (RedisPassword cfg) (RedisDB cfg);
        E = \<lparr>DB = d, RT = R\<rparr>
    in returnE \<lparr>srv_config = cfg, srv_db = d, srv_redis = redisClient, srv_app = wire E redisClient cfg,
         srv_api = mount E redisClient cfg B (sql_DB P d) (sql_Ping P d)\<rparr>))))"

definition error_line :: "string \<Rightarrow> go_error \<Rightarrow> log_line" where
  "error_line msg err = \<lparr>Level = LogError, Message = msg, Attrs = [(''error'', LStr (Error err))]\<rparr>"

text \<open>The goroutine of the server: \<open>exited\<close> is what \<open>ListenAndServe\<close> returns, if it returns.\<close>

definition ErrServerClosed :: go_error where
  "ErrServerClosed = PlainError ''http: Server closed''"

definition serve_lines :: "'h server \<Rightarrow> go_error option \<Rightarrow> log_line list" where
  "serve_lines s exited =
    \<lparr>Level = Info, Message = ''starting api server'', Attrs = [(''port'', LStr (HTTPPort (srv_config s)))]\<rparr> #
    (case exited of None \<Rightarrow> []
     | Some err \<Rightarrow> if err \<noteq> ErrServerClosed then [error_line ''server exited unexpectedly'' err] else [])"

text \<open>The stop: an error is logged and the next thing is closed.\<close>

definition closing :: "string \<Rightarrow> ('h, unit) go \<Rightarrow> 'h world \<Rightarrow> log_line list \<times> 'h world" where
  "closing msg m w = (case m w of (Inl err, w') \<Rightarrow> ([error_line msg err], w') | (Inr _, w') \<Rightarrow> ([], w'))"

definition stop_server :: "'h platform \<Rightarrow> 'h server \<Rightarrow> 'h world \<Rightarrow> log_line list \<times> 'h world" where
  "stop_server P s = closing ''shutdown server'' (http_Shutdown P (ShutdownTimeout (srv_config s)))"

definition stop_redis :: "'h platform \<Rightarrow> 'h server \<Rightarrow> 'h world \<Rightarrow> log_line list \<times> 'h world" where
  "stop_redis P s = closing ''close redis client'' (redis_Close P (srv_redis s))"

definition stop_database :: "'h platform \<Rightarrow> 'h server \<Rightarrow> 'h world \<Rightarrow> log_line list \<times> 'h world" where
  "stop_database P s w = (case sql_DB P (srv_db s) w of (Inl err, w') \<Rightarrow> ([], w')
     | (Inr _, w') \<Rightarrow> closing ''close database'' (sql_Close P (srv_db s)) w')"

datatype main_exit = Fatal string | Exit "log_line list" | Killed

text \<open>
  A run of the program. Requests, the worker and other replicas interleave while it serves, and go on
  while it stops: \<open>Shutdown\<close> waits for the requests it has, the worker notices the end of its
  context between two batches. A run may be killed at any point.
\<close>

inductive main_run :: "'h platform \<Rightarrow> 'h runtime \<Rightarrow> body_decoder \<Rightarrow> environ \<Rightarrow> 'h world \<Rightarrow> main_exit \<Rightarrow> 'h world \<Rightarrow> bool"
  for P R B env w where
  fatal: "main_start P R B env w = (Inl msg, w') \<Longrightarrow> main_run P R B env w (Fatal msg) w'"
| killed: "main_start P R B env w = (Inr s, w1) \<Longrightarrow> interleaved (srv_app s) w1 w' \<Longrightarrow> main_run P R B env w Killed w'"
| stopped: "main_start P R B env w = (Inr s, w1) \<Longrightarrow> interleaved (srv_app s) w1 w2 \<Longrightarrow>
    stop_server P s w2 = (l1, w3) \<Longrightarrow> interleaved (srv_app s) w3 w4 \<Longrightarrow>
    stop_redis P s w4 = (l2, w5) \<Longrightarrow> interleaved (srv_app s) w5 w6 \<Longrightarrow>
    stop_database P s w6 = (l3, w') \<Longrightarrow>
    main_run P R B env w (Exit (serve_lines s exited @ l1 @ l2 @ l3)) w'"

text \<open>The program is started again and again, with any configuration.\<close>

definition run_once :: "'h platform \<Rightarrow> 'h runtime \<Rightarrow> body_decoder \<Rightarrow> 'h world \<Rightarrow> 'h world \<Rightarrow> bool" where
  "run_once P R B w w' \<longleftrightarrow> (\<exists>env out. main_run P R B env w out w')"

abbreviation main_runs :: "'h platform \<Rightarrow> 'h runtime \<Rightarrow> body_decoder \<Rightarrow> 'h world \<Rightarrow> 'h world \<Rightarrow> bool" where
  "main_runs P R B \<equiv> (run_once P R B)\<^sup>*\<^sup>*"

section \<open>Wallets are never removed\<close>

definition owners :: "db \<Rightarrow> (uuid \<times> uuid) set" where
  "owners d = (\<lambda>x. (ID x, UserID x)) ` set (wallets d)"

lemma owners_same: "wallets d' = wallets d \<Longrightarrow> owners d \<subseteq> owners d'"
  by (simp add: owners_def)

lemma owners_append: "wallets d' = wallets d @ xs \<Longrightarrow> owners d \<subseteq> owners d'"
  by (auto simp: owners_def)

lemma owners_money:
  assumes "money_step R w w'"
  shows "owners (db w) \<subseteq> owners (db w')"
proof (cases "visible w' = visible w")
  case True
  then show ?thesis by (simp add: visible_eq)
next
  case False
  with assms obtain a b n where "list_all2 (wallet_moved a b n) (wallets (db w)) (wallets (db w'))"
    by (auto simp: money_step_def posting_def)
  then have "map (\<lambda>x. (ID x, UserID x)) (wallets (db w)) = map (\<lambda>x. (ID x, UserID x)) (wallets (db w'))"
    by (induction rule: list_all2_induct) (auto simp: wallet_moved_def)
  from arg_cong [OF this, of set] show ?thesis by (simp add: owners_def)
qed

context app_laws
begin

lemma phase_owners:
  assumes "phase app w w'" "inv_db (RT E) (db w)"
  shows "owners (db w) \<subseteq> owners (db w')"
  using assms(1)
proof cases
  case quiet
  then show ?thesis by (simp add: visible_eq)
next
  case (save_new_user u r1)
  then have "wallets (db w') = wallets (db w)"
    by (cases r1) (auto simp: visible_def dest!: Create_Inl(1) UserRepository_Create_Inr)
  then show ?thesis by (rule owners_same)
next
  case (save_user u r2)
  then have "wallets (db w') = wallets (db w)"
    by (cases r2) (auto simp: visible_def dest!: Update_Inl(1) UserRepository_Update_Inr)
  then show ?thesis by (rule owners_same)
next
  case (remove_user i r3)
  then have "wallets (db w') = wallets (db w)" unfolding UserRepository_Delete_def
    by (cases r3) (auto simp: visible_def dest!: Delete_Inl Delete_Inr)
  then show ?thesis by (rule owners_same)
next
  case (save_new_wallet wl r4)
  then show ?thesis
    by (cases r4) (auto simp: visible_def owners_def dest!: Create_Inl(2) WalletRepository_Create_Inr)
next
  case (save_status wl status r5)
  then obtain x where x: "x \<in> set (wallets (db w))" "wallet_live x" "ID x = ID wl" "UserID x = UserID wl"
    by (auto simp: current_def)
  show ?thesis
  proof (cases r5)
    case (Inl e)
    with save_status(2) have "visible w' = visible w"
      by (auto simp: status_write_def prog_simps dest: Update_Inl(2))
    then show ?thesis by (simp add: visible_eq)
  next
    case (Inr resp)
    from status_write_stale [OF save_status(2) [unfolded Inr]] x obtain t where
      d: "db w' = (db w)\<lparr>wallets := replace_row (\<lambda>z. ID z = ID wl \<and> wallet_live z)
        (touch t (wl\<lparr>wallet_Status := status\<rparr>)) (wallets (db w))\<rparr>" by blast
    have one: "z = x" if "z \<in> set (wallets (db w))" "ID z = ID wl" for z
      using distinct_key_eq [OF wf_db_distinct(2) [OF inv_db_wf(1) [OF assms(2)]] that(1) x(1)] that(2) x(3) by simp
    have "(ID z, UserID z) \<in> owners (db w')" if "z \<in> set (wallets (db w))" for z
    proof (cases "ID z = ID wl")
      case True
      let ?y = "touch t (wl\<lparr>wallet_Status := status\<rparr>)"
      have "?y \<in> set (wallets (db w'))" using x by (force simp: d replace_row_def)
      moreover have "(ID ?y, UserID ?y) = (ID z, UserID z)" using one [OF that True] x by (simp add: touch_def)
      ultimately show ?thesis unfolding owners_def by (metis (no_types, lifting) image_eqI)
    next
      case False
      with that show ?thesis by (auto simp: d owners_def replace_row_def image_iff intro!: bexI [of _ z])
    qed
    then show ?thesis by (auto simp: owners_def)
  qed
next
  case (commit_top_up treq key h r6)
  then show ?thesis using owners_money [OF commit_steps(1) [OF assms(2)]] by simp
next
  case (commit_transfer freq key h r7)
  then show ?thesis using owners_money [OF commit_steps(2) [OF assms(2)]] by simp
next
  case (commit_reverse i key h r8)
  then show ?thesis using owners_money [OF commit_steps(3) [OF assms(2)]] by simp
next
  case (send key vs r9)
  then have "db w' = db w" by (cases r9) (auto simp: visible_def dest!: publisher.Publish_Inr publisher.Publish_Inl)
  then show ?thesis by simp
next
  case (mark_published i at r10)
  then have "wallets (db w') = wallets (db w)"
    by (cases r10) (auto simp: visible_def dest!: Outbox_Inl(1) MarkPublished_Inr)
  then show ?thesis by (rule owners_same)
next
  case (record_failure i m r11)
  then have "wallets (db w') = wallets (db w)"
    by (cases r11) (auto simp: visible_def dest!: Outbox_Inl(2) RecordFailure_Inr)
  then show ?thesis by (rule owners_same)
next
  case (seed_system_user r12)
  then show ?thesis using seed_user [of w r12 w'] by (intro owners_same) (auto simp: visible_def)
next
  case (seed_system_wallet r13)
  then show ?thesis using seed_wallet [of w r13 w'] by (auto simp: visible_def owners_def)
qed

lemma interleaved_owners:
  assumes "interleaved app s0 w" "inv_db (RT E) (db s0)"
  shows "owners (db s0) \<subseteq> owners (db w)"
  using assms(1)
proof (induction rule: interleaved.induct)
  case (another w w')
  with phase_owners [OF another.hyps(2) interleaved_inv [OF another.hyps(1) assms(2)]] show ?case by blast
qed simp_all

text \<open>After the accounts are seeded the system user has a wallet.\<close>

lemma seed_owner:
  assumes "SeedSystemAccounts E w = (Inr u, w')"
  shows "\<exists>x\<in>set (wallets (db w')). wallet_clash system_wallet x"
proof -
  from assms obtain w1 u1 u2 where
    "bindE (Wallet_BeforeCreate (RT E) system_wallet) (gCreateDoNothing (Wallets (DB E))) w1 = (Inr u2, w')"
    by (auto simp: SeedSystemAccounts_def prog_simps)
  then obtain wl w2 where h: "Wallet_BeforeCreate (RT E) system_wallet w1 = (Inr wl, w2)"
    and c: "gCreateDoNothing (Wallets (DB E)) wl w2 = (Inr u2, w')" by (auto simp: prog_simps)
  have "wl = system_wallet" by (rule seed_hooks(2) [OF h])
  with wallets.CreateDoNothing_Inr [OF c] show ?thesis
    by (auto simp: visible_eq visible_split wallet_clash_def born_def split: if_splits)
qed

end

section \<open>Every run keeps the books\<close>

context platform_laws
begin

lemma keeps_OpenPostgres: "keeps visible (OpenPostgres P dsn)"
  unfolding OpenPostgres_def by (intro keeps_intros keeps_Open keeps_sql)

lemma start_cases:
  assumes "main_start P R B env w = (r, w')"
  obtains (early) msg where "r = Inl msg" "visible w' = visible w"
  | (seed) cfg d w1 q where "Load env = Inr cfg" "gorm_laws d" "visible w1 = visible w"
      "SeedSystemAccounts \<lparr>DB = d, RT = R\<rparr> w1 = (q, w')" "isl r = isl q"
      "\<And>s. r = Inr s \<Longrightarrow> srv_config s = cfg \<and>
        srv_app s = wire \<lparr>DB = d, RT = R\<rparr> (NewRedisClient P (RedisAddr cfg) (RedisPassword cfg) (RedisDB cfg)) cfg"
proof (cases "Load env")
  case (Inl e)
  with assms early show thesis by (auto simp: main_start_def bindE_def onErr_def handleE_def liftR_def throwE_def)
next
  case (Inr cfg)
  obtain q1 w1 where o: "OpenPostgres P (DBDSN cfg) w = (q1, w1)" by fastforce
  have v1: "visible w1 = visible w" by (rule keepsD [OF keeps_OpenPostgres o])
  show thesis
  proof (cases q1)
    case Inl1: (Inl e)
    with assms Inr o have "r = Inl (''open postgres: '' @ Error e)" "w' = w1"
      by (auto simp: main_start_def bindE_def onErr_def handleE_def liftR_def throwE_def)
    with v1 early show thesis by blast
  next
    case Inr1: (Inr d)
    have d: "gorm_laws d" using o Inr1 Open_gorm by (auto simp: OpenPostgres_def prog_simps)
    obtain q2 w2 where m: "AutoMigrate P d w1 = (q2, w2)" by fastforce
    have v2: "visible w2 = visible w" using keepsD [OF keeps_migrate m [unfolded AutoMigrate_def]] v1 by simp
    show thesis
    proof (cases q2)
      case Inl2: (Inl e)
      with assms Inr o Inr1 m have "r = Inl (''auto migrate: '' @ Error e)" "w' = w2"
        by (auto simp: main_start_def bindE_def onErr_def handleE_def liftR_def throwE_def)
      with v2 early show thesis by blast
    next
      case Inr2: (Inr u)
      obtain q3 w3 where sd: "SeedSystemAccounts \<lparr>DB = d, RT = R\<rparr> w2 = (q3, w3)" by fastforce
      from assms Inr o Inr1 m Inr2 sd have
        r: "main_start P R B env w = (case q3 of Inl e \<Rightarrow> Inl (''seed system accounts: '' @ Error e)
          | Inr u \<Rightarrow> Inr \<lparr>srv_config = cfg, srv_db = d, srv_redis = NewRedisClient P (RedisAddr cfg) (RedisPassword cfg) (RedisDB cfg),
              srv_app = wire \<lparr>DB = d, RT = R\<rparr> (NewRedisClient P (RedisAddr cfg) (RedisPassword cfg) (RedisDB cfg)) cfg,
              srv_api = mount \<lparr>DB = d, RT = R\<rparr> (NewRedisClient P (RedisAddr cfg) (RedisPassword cfg) (RedisDB cfg)) cfg B
                (sql_DB P d) (sql_Ping P d)\<rparr>, w3)"
        by (cases q3) (simp_all add: main_start_def bindE_def onErr_def handleE_def liftR_def throwE_def returnE_def Let_def)
      then have "w' = w3" using assms by simp
      with sd have sd': "SeedSystemAccounts \<lparr>DB = d, RT = R\<rparr> w2 = (q3, w')" by simp
      show thesis
        by (rule seed [OF Inr d v2 sd']) (use assms r in \<open>auto split: sum.splits\<close>)
    qed
  qed
qed

lemma server_laws:
  "gorm_laws d \<Longrightarrow> app_laws \<lparr>DB = d, RT = R\<rparr> (NewRedisClient P a p n)"
  using NewClient_redis runtime_laws_axioms by (simp add: app_laws_def env_laws_def NewRedisClient_def)

lemma keeps_closing: "keeps visible m \<Longrightarrow> closing msg m w = (ls, w') \<Longrightarrow> visible w' = visible w"
  by (auto simp: closing_def keeps_def split: prod.splits sum.splits)

lemma keeps_stops:
  "stop_server P s w = (l1, w') \<Longrightarrow> visible w' = visible w"
  "stop_redis P s w = (l2, w') \<Longrightarrow> visible w' = visible w"
  "stop_database P s w = (l3, w') \<Longrightarrow> visible w' = visible w"
proof -
  show "stop_server P s w = (l1, w') \<Longrightarrow> visible w' = visible w" "stop_redis P s w = (l2, w') \<Longrightarrow> visible w' = visible w"
    unfolding stop_server_def stop_redis_def using keeps_closing [OF keeps_stop(2)] keeps_closing [OF keeps_stop(1)] by blast+
  assume st: "stop_database P s w = (l3, w')"
  obtain q w1 where q: "sql_DB P (srv_db s) w = (q, w1)" by fastforce
  have v: "visible w1 = visible w" by (rule keepsD [OF keeps_sql(1) q])
  show "visible w' = visible w"
  proof (cases q)
    case (Inl e)
    with st q v show ?thesis by (simp add: stop_database_def)
  next
    case (Inr u)
    with st q have "closing ''close database'' (sql_Close P (srv_db s)) w1 = (l3, w')" by (simp add: stop_database_def)
    from keeps_closing [OF keeps_sql(3) this] v show ?thesis by simp
  qed
qed

text \<open>A run that serves is one interleaving after the start.\<close>

lemma run_cases:
  assumes "main_run P R B env w out w'"
  obtains (fatal) msg where "out = Fatal msg" "main_start P R B env w = (Inl msg, w')"
  | (serves) s w1 where "\<And>msg. out \<noteq> Fatal msg" "main_start P R B env w = (Inr s, w1)" "interleaved (srv_app s) w1 w'"
  using assms
proof cases
  case (killed s w1)
  with serves show thesis by blast
next
  case (stopped s w1 w2 l1 w3 w4 l2 w5 w6 l3 exited)
  note i = interleaved_trans and q = interleaved_one [OF phase.quiet]
  have "interleaved (srv_app s) w1 w'"
    by (rule i [OF q [OF keeps_stops(3) [OF stopped(8)]]], rule i [OF stopped(7)], rule i [OF q [OF keeps_stops(2) [OF stopped(6)]]],
        rule i [OF stopped(5)], rule i [OF q [OF keeps_stops(1) [OF stopped(4)]]], rule stopped(3))
  with stopped(1,2) serves show thesis by blast
qed (use fatal in blast)

lemma seed_keeps:
  assumes "gorm_laws d" "SeedSystemAccounts \<lparr>DB = d, RT = R\<rparr> v = (q, v')" "inv_db R (db v)"
  shows "inv_db R (db v') \<and> owners (db v) \<subseteq> owners (db v')" "kv v' = kv v \<and> balances_stay (db v) (db v')"
proof -
  note L = server_laws [OF assms(1), of "[]" "[]" 0]
  note i = phases_interleaved [OF app_laws.seed_phases [OF L assms(2)]]
  from app_laws.interleaved_inv [OF L i] app_laws.interleaved_owners [OF L i] assms(3)
  show "inv_db R (db v') \<and> owners (db v) \<subseteq> owners (db v')" by simp
  show "kv v' = kv v \<and> balances_stay (db v) (db v')" by (rule app_laws.restart_follows [OF L assms(2)])
qed

lemma start_books:
  assumes "main_start P R B env w = (r, w')" "inv_db R (db w)"
  shows "inv_db R (db w') \<and> owners (db w) \<subseteq> owners (db w') \<and> kv w' = kv w \<and> balances_stay (db w) (db w')"
  using assms(1)
proof (cases rule: start_cases)
  case (early msg)
  with assms(2) show ?thesis by (simp add: visible_eq balances_stay_def)
next
  case (seed cfg d w1 q)
  have "inv_db R (db w1)" using assms(2) visible_db [OF seed(3)] by simp
  from seed_keeps [OF seed(2,4) this] seed(3) show ?thesis by (simp add: visible_eq)
qed

text \<open>
  Whatever becomes of a run, the books are kept and no wallet goes; one that fails to start has moved
  no balance and touched no cache, and one that serves has a valid configuration and the wallet of
  the system user.
\<close>

theorem main_run_books:
  assumes "main_run P R B env w out w'" "inv_db R (db w)"
  shows "inv_db R (db w')" "owners (db w) \<subseteq> owners (db w')"
    and "out = Fatal msg \<Longrightarrow> kv w' = kv w \<and> balances_stay (db w) (db w')"
    and "(\<And>msg. out \<noteq> Fatal msg) \<Longrightarrow> (\<exists>cfg. Load env = Inr cfg) \<and>
      (\<exists>x\<in>set (wallets (db w')). ID x = SystemWalletID \<or> UserID x = SystemUserID)"
proof -
  have "inv_db R (db w') \<and> owners (db w) \<subseteq> owners (db w') \<and>
    (\<forall>msg. out = Fatal msg \<longrightarrow> kv w' = kv w \<and> balances_stay (db w) (db w')) \<and>
    ((\<forall>msg. out \<noteq> Fatal msg) \<longrightarrow> (\<exists>cfg. Load env = Inr cfg) \<and>
      (\<exists>x\<in>set (wallets (db w')). ID x = SystemWalletID \<or> UserID x = SystemUserID))"
    using assms(1)
  proof (cases rule: run_cases)
    case (fatal msg)
    with start_books [OF fatal(2) assms(2)] show ?thesis by simp
  next
    case (serves s w1)
    from serves(2) show ?thesis
    proof (cases rule: start_cases)
      case (seed cfg d v q)
      let ?E = "\<lparr>DB = d, RT = R\<rparr>" and ?C = "NewRedisClient P (RedisAddr cfg) (RedisPassword cfg) (RedisDB cfg)"
      note L = server_laws [OF seed(2), of "RedisAddr cfg" "RedisPassword cfg" "RedisDB cfg"]
      have app: "srv_app s = wire ?E ?C cfg" using seed(6) by simp
      obtain u where u: "q = Inr u" using seed(5) by (cases q) auto
      note b = start_books [OF serves(2) assms(2)]
      then have inv: "inv_db (RT ?E) (db w1)" by simp
      note i = serves(3) [unfolded app]
      have o: "owners (db w1) \<subseteq> owners (db w')" by (rule app_laws.interleaved_owners [OF L i inv])
      obtain x where "x \<in> set (wallets (db w1))" "wallet_clash system_wallet x"
        using app_laws.seed_owner [OF L seed(4) [unfolded u]] by blast
      then have "(ID x, UserID x) \<in> owners (db w')" "ID x = SystemWalletID \<or> UserID x = SystemUserID"
        using o by (auto simp: owners_def wallet_clash_def system_wallet_def)
      with app_laws.interleaved_inv [OF L i inv] b o serves(1) seed(1) show ?thesis
        by (fastforce simp: owners_def)
    qed simp
  qed
  then show "inv_db R (db w')" "owners (db w) \<subseteq> owners (db w')"
    "out = Fatal msg \<Longrightarrow> kv w' = kv w \<and> balances_stay (db w) (db w')"
    "(\<And>msg. out \<noteq> Fatal msg) \<Longrightarrow> (\<exists>cfg. Load env = Inr cfg) \<and>
      (\<exists>x\<in>set (wallets (db w')). ID x = SystemWalletID \<or> UserID x = SystemUserID)"
    by blast+
qed

theorem main_runs_books: "main_runs P R B w w' \<Longrightarrow> inv_db R (db w) \<Longrightarrow> inv_db R (db w')"
  by (induction rule: rtranclp_induct) (auto simp: run_once_def intro: main_run_books(1))

end

end
