(* ===== verification/Scenario.thy ===== *)
theory Scenario
  imports System
begin

text \<open>
  The program wired to the reference engine, and a concrete run of it that the witnesses use: the
  system accounts are seeded, two users sign up and open wallets, one is topped up, transfers and
  the transfer is reversed. The interpretations discharge the laws of every locale of the
  development on the engine; \<open>run_rules\<close> and \<open>run_congs\<close> evaluate an operation in the order the
  program runs it, with the bodies of later steps left alone until their turn.
\<close>

section \<open>The wired program on the engine\<close>

definition cfg0 :: config where
  "cfg0 = (case Load (\<lambda>_. None) of Inr c \<Rightarrow> c | Inl e \<Rightarrow> undefined)"

definition app0 :: "engine app" where
  "app0 = wire eng_env eng_redis cfg0"

interpretation eng_app: app_laws eng_env eng_redis cfg for cfg
  by unfold_locales

definition w0 :: "engine world" where
  "w0 = \<lparr>db = empty_db, kv = (\<lambda>_. None), streams = [],
     host = \<lparr>clock = 1000, next_uuid = 10, faults = []\<rparr>\<rparr>"

section \<open>Evaluation\<close>

named_theorems run_rules \<open>what a step of a program computes\<close>

lemma bindE_cong: "bindE m f = bindE m f" ..
lemma handleE_cong: "handleE m f = handleE m f" ..
lemma onErr_cong: "onErr g m = onErr g m" ..
lemma tryE_cong: "tryE m h f = tryE m h f" ..
lemma liftS_cong: "liftS f = liftS f" ..
lemma exec_cong: "exec f = exec f" ..
lemma Let_cong: "Let a f = Let a f" ..
lemma eng_transaction_cong: "eng_transaction f = eng_transaction f" ..

lemmas run_congs = bindE_cong handleE_cong onErr_cong tryE_cong liftS_cong exec_cong Let_cong
  eng_transaction_cong

lemma onErr_run: "onErr g m s = (case m s of (Inl e, s1) \<Rightarrow> (Inl (g e), s1) | (Inr a, s1) \<Rightarrow> (Inr a, s1))"
  by (auto simp: onErr_def handleE_def throwE_def split: prod.splits sum.splits)

lemmas comb_runs [run_rules] = bindE_def handleE_def onErr_run tryE_def returnE_def throwE_def liftR_def
  liftS_def failWhen_def Let_def fault_def exec_def eng_Now_def eng_New_def eng_transaction_def

lemma table_runs [run_rules]:
  "gCreate (eng_table tab upd pk clash live birth renew) r w = exec (\<lambda>t d.
      if list_ex (clash r) (tab d) then Inl duplicate
      else Inr (birth t r, upd (\<lambda>xs. xs @ [birth t r]) d)) w"
  "gCreateAll (eng_table tab upd pk clash live birth renew) rs w = exec (\<lambda>t d.
      case insert_all clash birth t (tab d) rs of None \<Rightarrow> Inl duplicate
      | Some rs' \<Rightarrow> Inr (rs', upd (\<lambda>xs. xs @ rs') d)) w"
  "gCreateDoNothing (eng_table tab upd pk clash live birth renew) r w = exec (\<lambda>t d.
      if list_ex (clash r) (tab d) then Inr ((), d)
      else Inr ((), upd (\<lambda>xs. xs @ [birth t r]) d)) w"
  "gFirst (eng_table tab upd pk clash live birth renew) P w = exec (\<lambda>t d.
     case first_row (\<lambda>r. live r \<and> P r) (tab d) of Inl e \<Rightarrow> Inl e | Inr r \<Rightarrow> Inr (r, d)) w"
  "gFirstForUpdate (eng_table tab upd pk clash live birth renew) P w = exec (\<lambda>t d.
     case first_row (\<lambda>r. live r \<and> P r) (tab d) of Inl e \<Rightarrow> Inl e | Inr r \<Rightarrow> Inr (r, d)) w"
  "gFind (eng_table tab upd pk clash live birth renew) q w = exec (\<lambda>t d.
     Inr (window (Offset q) (QLimit q) (sort_key (Order q) (filter (\<lambda>r. live r \<and> Where q r) (tab d))), d)) w"
  "gSave (eng_table tab upd pk clash live birth renew) r w = exec (\<lambda>t d.
      if list_ex (\<lambda>x. pk x \<noteq> pk r \<and> clash r x) (tab d) then Inl duplicate
      else Inr (renew t r, upd (replace_row (\<lambda>x. pk x = pk r \<and> live x) (renew t r)) d)) w"
  "gUpdates (eng_table tab upd pk clash live birth renew) i f w = exec (\<lambda>t d.
      Inr ((), upd (map (\<lambda>x. if pk x = i \<and> live x then renew t (f x) else x)) d)) w"
  by (simp_all add: eng_table_def eng_first_def)

lemma env_runs [run_rules]:
  "RT eng_env = eng_runtime" "Transaction (DB eng_env) f w = eng_transaction f w"
  "Users (DB eng_env) = eng_table users users_update ID user_clash user_live born touch"
  "Wallets (DB eng_env) = eng_table wallets wallets_update ID wallet_clash wallet_live born touch"
  "Transactions (DB eng_env) =
     eng_table transactions transactions_update ID transaction_clash (\<lambda>_. True) born touch"
  "LedgerEntries (DB eng_env) = eng_table ledger_entries ledger_entries_update entry_ID
     ledger_entry_clash (\<lambda>_. True) entry_born (\<lambda>_ r. r)"
  "IdempotencyKeys (DB eng_env) = eng_table idempotency_keys idempotency_keys_update idem_ID
     idempotency_key_clash (\<lambda>_. True) idem_born (\<lambda>_ r. r)"
  "OutboxEvents (DB eng_env) =
     eng_table outbox_events outbox_events_update ID outbox_event_clash (\<lambda>_. True) born touch"
  "uuid_New eng_runtime = eng_New" "time_Now eng_runtime = eng_Now"
  by (simp_all add: eng_env_def eng_gorm_def eng_runtime_def)

text \<open>Texts are compared by what they stand for.\<close>

lemma text_runs [run_rules]:
  "uuid_String eng_runtime i = uuid_String eng_runtime j \<longleftrightarrow> i = j"
  "List.member (sort_key f xs) x = List.member xs x"
  by (simp_all add: eng_runtime.uuid_String_inject)

lemmas data_runs [run_rules] = born_def touch_def entry_born_def idem_born_def clash_defs user_live_def
  wallet_live_def IsActive_def const_defs first_row_def window_def replace_row_def
  empty_db_def new_entry_def add_balance_def optionalString_def toJSONMap_def responseList_def
  TransactionFromModel_def UserFromModel_def WalletFromModel_def uuid_Nil_def SystemUserID_def
  SystemWalletID_def

lemmas model_runs [run_rules] = BaseModel_BeforeCreate_def [THEN fun_cong] assignID_def [THEN fun_cong]
  User_BeforeCreate_def [THEN fun_cong] Wallet_BeforeCreate_def [THEN fun_cong]
  Transaction_BeforeCreate_def [THEN fun_cong] LedgerEntry_BeforeCreate_def [THEN fun_cong]
  IdempotencyKey_BeforeCreate_def [THEN fun_cong] OutboxEvent_BeforeCreate_def [THEN fun_cong]
  hooks.simps [THEN fun_cong] newReferenceCode_def

lemmas repository_runs [run_rules] = UserRepository_Create_def [THEN fun_cong]
  UserRepository_GetByID_def [THEN fun_cong] WalletRepository_Create_def [THEN fun_cong]
  WalletRepository_GetByID_def [THEN fun_cong] WalletRepository_Update_def [THEN fun_cong]
  WalletRepository_GetByIDsForUpdate_def [THEN fun_cong] TransactionRepository_Create_def [THEN fun_cong]
  TransactionRepository_CreateLedgerEntries_def [THEN fun_cong]
  TransactionRepository_GetByIDForUpdate_def [THEN fun_cong]
  TransactionRepository_Update_def [THEN fun_cong] IdempotencyRepository_Get_def [THEN fun_cong]
  IdempotencyRepository_Create_def [THEN fun_cong] IdempotencyRepository_SaveResponse_def [THEN fun_cong]
  OutboxRepository_Create_def [THEN fun_cong] system_user_def system_wallet_def

lemmas service_runs [run_rules] = SeedSystemAccounts_def [THEN fun_cong]
  UserService_Create_def [THEN fun_cong] WalletService_Create_def [THEN fun_cong]
  TopUp_def [THEN fun_cong] Transfer_def [THEN fun_cong] Reverse_def [THEN fun_cong]
  TopUp_tx_def [THEN fun_cong] Transfer_tx_def [THEN fun_cong] Reverse_tx_def [THEN fun_cong]
  hashRequest_def getIdempotencyReplay_def [THEN fun_cong] createIdempotencyRecord_def [THEN fun_cong]
  withTransaction_def [THEN fun_cong] touchedWallets.simps [THEN fun_cong]
  saveResponse_def [THEN fun_cong] NewOutboxEvent_def [THEN fun_cong]
  resolveTransferWallets_def resolveTopUpWallets_def endpoint_defs

lemma eng_runtime_RT: "eng_runtime = RT eng_env"
  by (simp add: eng_env_def)

lemma app_runs [run_rules]:
  "us_env (app_users app0) = eng_env" "ws_env (app_wallets app0) = eng_env"
  "ts_env (app_transactions app0) = eng_env"
  "ts_cacheStore (app_transactions app0) =
     Some (NewRedisBalanceCache eng_redis eng_runtime (BalanceCacheTTL cfg0))"
  "ws_cacheStore (app_wallets app0) =
     Some (NewRedisBalanceCache eng_redis eng_runtime (BalanceCacheTTL cfg0))"
  "cache_Set (NewRedisBalanceCache C R ttl) i b w = rSet C (balanceKey R i) (FormatInt b) ttl w"
  by (simp_all add: app0_def eng_runtime_RT NewRedisBalanceCache_def RedisBalanceCache_Set_def)

lemma redis_runs [run_rules]:
  "rSet eng_redis k v ttl w = bindE fault (\<lambda>_ w. (Inr (), w\<lparr>kv := (kv w)(k \<mapsto> v)\<rparr>)) w"
  by (simp add: eng_redis_def)

lemma error_runs [run_rules]: "IsNotFound ErrRecordNotFound"
  by (simp add: IsNotFound_def errors_Is_def)

section \<open>A run\<close>

text \<open>The system accounts are seeded.\<close>

definition system_row :: user where
  "system_row = system_user\<lparr>CreatedAt := 1000, UpdatedAt := 1000\<rparr>"

definition wallet_row :: "uuid \<Rightarrow> time \<Rightarrow> uuid \<Rightarrow> int64 \<Rightarrow> time \<Rightarrow> wallet" where
  "wallet_row i t u b t' = \<lparr>ID = i, CreatedAt = t, UpdatedAt = t', UserID = u,
     wallet_Currency = CurrencyTHB, wallet_Status = WalletStatusActive, BalanceCachedMinor = b,
     wallet_DeletedAt = None\<rparr>"

definition user_row :: "uuid \<Rightarrow> time \<Rightarrow> string \<Rightarrow> user" where
  "user_row i t n = \<lparr>ID = i, CreatedAt = t, UpdatedAt = t, ExternalRef = None, FullName = n,
     Email = n, PhoneNumber = n, user_Status = UserStatusActive, user_DeletedAt = None\<rparr>"

lemmas row_runs [run_rules] = system_row_def wallet_row_def user_row_def

definition w_seed :: "engine world" where
  "w_seed = \<lparr>db = empty_db\<lparr>users := [system_row], wallets := [wallet_row 2 1001 1 0 1001]\<rparr>,
     kv = (\<lambda>_. None), streams = [], host = \<lparr>clock = 1002, next_uuid = 10, faults = []\<rparr>\<rparr>"

lemma seed_run: "SeedSystemAccounts eng_env w0 = (Inr (), w_seed)"
  by (simp add: run_rules w0_def w_seed_def cong: run_congs)

text \<open>Two users sign up and open wallets.\<close>

definition sign_up :: "string \<Rightarrow> create_user_request" where
  "sign_up n = \<lparr>cu_ExternalRef = None, cu_FullName = n, cu_Email = n, cu_PhoneNumber = n, cu_Status = []\<rparr>"

definition open_wallet :: "uuid \<Rightarrow> create_wallet_request" where
  "open_wallet i = \<lparr>cw_UserID = i, cw_Currency = []\<rparr>"

definition w_ann :: "engine world" where
  "w_ann = snd (UserService_Create (app_users app0) (sign_up ''ann'') w_seed)"

definition w_bob :: "engine world" where
  "w_bob = snd (UserService_Create (app_users app0) (sign_up ''bob'') w_ann)"

definition w_ann_wallet :: "engine world" where
  "w_ann_wallet = snd (WalletService_Create (app_wallets app0) (open_wallet 10) w_bob)"

definition w_open :: "engine world" where
  "w_open = snd (WalletService_Create (app_wallets app0) (open_wallet 11) w_ann_wallet)"

lemma w_open_eq: "w_open =
  \<lparr>db = empty_db\<lparr>users := [system_row, user_row 10 1002 ''ann'', user_row 11 1003 ''bob''],
     wallets := [wallet_row 2 1001 1 0 1001, wallet_row 12 1005 10 0 1005, wallet_row 13 1007 11 0 1007]\<rparr>,
   kv = (\<lambda>_. None), streams = [], host = \<lparr>clock = 1008, next_uuid = 14, faults = []\<rparr>\<rparr>"
  by (simp add: w_open_def w_ann_wallet_def w_bob_def w_ann_def w_seed_def sign_up_def open_wallet_def
      run_rules cong: run_congs)

text \<open>Ann's wallet 12 is topped up by 500, and 200 of it go to Bob's wallet 13.\<close>

definition req1 :: top_up_request where
  "req1 = \<lparr>tu_WalletID = 12, tu_AmountMinor = 500, tu_Metadata = None\<rparr>"

definition req2 :: transfer_request where
  "req2 = \<lparr>tr_SourceWalletID = 12, tr_DestinationWalletID = 13, tr_AmountMinor = 200, tr_Metadata = None\<rparr>"

definition tx1 :: transaction where
  "tx1 = \<lparr>ID = 16, CreatedAt = 1012, UpdatedAt = 1012,
     ReferenceCode = ''TOPUP-'' @ uuid_String eng_runtime 15, Type = TransactionTypeTopUp,
     Status = TransactionStatusCompleted, SourceWalletID = Some 2, DestinationWalletID = Some 12,
     AmountMinor = 500, Currency = CurrencyTHB, IdempotencyKey = Some ''k1'',
     RelatedTransactionID = None, MetadataJSON = None\<rparr>"

definition entry_row :: "uuid \<Rightarrow> uuid \<Rightarrow> uuid \<Rightarrow> string \<Rightarrow> int64 \<Rightarrow> time \<Rightarrow> ledger_entry" where
  "entry_row i t wl ty n at = \<lparr>entry_ID = i, TransactionID = t, WalletID = wl, EntryType = ty,
     entry_AmountMinor = n, entry_CreatedAt = at\<rparr>"

definition key_row :: "uuid \<Rightarrow> string \<Rightarrow> string \<Rightarrow> json \<Rightarrow> transaction \<Rightarrow> time \<Rightarrow> idempotency_key" where
  "key_row i k ep req t at = \<lparr>idem_ID = i, idem_Key = k, idem_Endpoint = ep,
     RequestHash = sha256_hex eng_runtime req, ResponseStatusCode = Some 201,
     ResponseBodyJSON = Some (response_to_json eng_runtime (TransactionFromModel t)),
     ResourceID = Some (ID t), idem_CreatedAt = at + 1,
     ExpiresAt = at + idempotencyTTL (app_transactions app0)\<rparr>"

definition event_row :: "uuid \<Rightarrow> uuid \<Rightarrow> string \<Rightarrow> transaction \<Rightarrow> time \<Rightarrow> outbox_event" where
  "event_row i eid ty t at = \<lparr>ID = i, CreatedAt = at, UpdatedAt = at, AggregateType = ''transaction'',
     AggregateID = ID t, EventType = ty, PayloadJSON = payload_to_json eng_runtime (event_payload eid ty t),
     outbox_Status = OutboxStatusPending, PublishedAt = None, RetryCount = 0, LastError = None\<rparr>"

lemmas demo_rows [run_rules] = entry_row_def key_row_def event_row_def

definition w_topup :: "engine world" where
  "w_topup = \<lparr>db = \<lparr>users = users (db w_open),
     wallets = [wallet_row 2 1001 1 (- 500) 1013, wallet_row 12 1005 10 500 1014, wallet_row 13 1007 11 0 1007],
     transactions = [tx1],
     ledger_entries = [entry_row 17 16 2 LedgerEntryTypeDebit 500 1015,
       entry_row 18 16 12 LedgerEntryTypeCredit 500 1015],
     idempotency_keys = [key_row 14 ''k1'' topUpEndpoint (top_up_to_json eng_runtime req1) tx1 1009],
     outbox_events = [event_row 20 19 ''transaction.completed'' tx1 1016]\<rparr>,
   kv = [balanceKey eng_runtime 2 \<mapsto> FormatInt (- 500), balanceKey eng_runtime 12 \<mapsto> FormatInt 500],
   streams = [], host = \<lparr>clock = 1018, next_uuid = 21, faults = []\<rparr>\<rparr>"

text \<open>
  The runs are stated under a predicate: the simplifier then computes the result before it compares
  the two records.
\<close>

lemma topup_eval: "P (Inr (TransactionFromModel tx1, 201), w_topup) \<Longrightarrow>
    P (TopUp (app_transactions app0) req1 ''k1'' w_open)"
  by (simp add: w_topup_def req1_def tx1_def w_open_eq run_rules cong: run_congs)

lemma topup_run: "TopUp (app_transactions app0) req1 ''k1'' w_open = (Inr (TransactionFromModel tx1, 201), w_topup)"
  by (rule topup_eval) (rule refl)

definition tx2 :: transaction where
  "tx2 = \<lparr>ID = 23, CreatedAt = 1022, UpdatedAt = 1022,
     ReferenceCode = ''TRF-'' @ uuid_String eng_runtime 22, Type = TransactionTypeTransfer,
     Status = TransactionStatusCompleted, SourceWalletID = Some 12, DestinationWalletID = Some 13,
     AmountMinor = 200, Currency = CurrencyTHB, IdempotencyKey = Some ''k2'',
     RelatedTransactionID = None, MetadataJSON = None\<rparr>"

definition w_paid :: "engine world" where
  "w_paid = \<lparr>db = \<lparr>users = users (db w_open),
     wallets = [wallet_row 2 1001 1 (- 500) 1013, wallet_row 12 1005 10 300 1023, wallet_row 13 1007 11 200 1024],
     transactions = [tx1, tx2],
     ledger_entries = [entry_row 17 16 2 LedgerEntryTypeDebit 500 1015,
       entry_row 18 16 12 LedgerEntryTypeCredit 500 1015,
       entry_row 24 23 12 LedgerEntryTypeDebit 200 1025,
       entry_row 25 23 13 LedgerEntryTypeCredit 200 1025],
     idempotency_keys = [key_row 14 ''k1'' topUpEndpoint (top_up_to_json eng_runtime req1) tx1 1009,
       key_row 21 ''k2'' transferEndpoint (transfer_to_json eng_runtime req2) tx2 1019],
     outbox_events = [event_row 20 19 ''transaction.completed'' tx1 1016,
       event_row 27 26 ''transaction.completed'' tx2 1026]\<rparr>,
   kv = [balanceKey eng_runtime 2 \<mapsto> FormatInt (- 500), balanceKey eng_runtime 12 \<mapsto> FormatInt 300,
     balanceKey eng_runtime 13 \<mapsto> FormatInt 200],
   streams = [], host = \<lparr>clock = 1028, next_uuid = 28, faults = []\<rparr>\<rparr>"

lemma transfer_eval: "P (Inr (TransactionFromModel tx2, 201), w_paid) \<Longrightarrow>
    P (Transfer (app_transactions app0) req2 ''k2'' w_topup)"
  by (simp add: w_topup_def w_paid_def req1_def req2_def tx1_def tx2_def run_rules cong: run_congs)

lemma transfer_run: "Transfer (app_transactions app0) req2 ''k2'' w_topup =
    (Inr (TransactionFromModel tx2, 201), w_paid)"
  by (rule transfer_eval) (rule refl)

text \<open>The transfer is reversed.\<close>

definition tx3 :: transaction where
  "tx3 = \<lparr>ID = 30, CreatedAt = 1033, UpdatedAt = 1033,
     ReferenceCode = ''REV-'' @ uuid_String eng_runtime 29, Type = TransactionTypeReversal,
     Status = TransactionStatusCompleted, SourceWalletID = Some 13, DestinationWalletID = Some 12,
     AmountMinor = 200, Currency = CurrencyTHB, IdempotencyKey = Some ''k3'',
     RelatedTransactionID = Some 23, MetadataJSON = None\<rparr>"

definition w_back :: "engine world" where
  "w_back = \<lparr>db = \<lparr>users = users (db w_open),
     wallets = [wallet_row 2 1001 1 (- 500) 1013, wallet_row 12 1005 10 500 1034, wallet_row 13 1007 11 0 1035],
     transactions = [tx1, tx2\<lparr>Status := TransactionStatusReversed, UpdatedAt := 1037\<rparr>, tx3],
     ledger_entries = [entry_row 17 16 2 LedgerEntryTypeDebit 500 1015,
       entry_row 18 16 12 LedgerEntryTypeCredit 500 1015,
       entry_row 24 23 12 LedgerEntryTypeDebit 200 1025,
       entry_row 25 23 13 LedgerEntryTypeCredit 200 1025,
       entry_row 31 30 13 LedgerEntryTypeDebit 200 1036,
       entry_row 32 30 12 LedgerEntryTypeCredit 200 1036],
     idempotency_keys = [key_row 14 ''k1'' topUpEndpoint (top_up_to_json eng_runtime req1) tx1 1009,
       key_row 21 ''k2'' transferEndpoint (transfer_to_json eng_runtime req2) tx2 1019,
       key_row 28 ''k3'' reverseEndpoint (reverse_to_json eng_runtime 23) tx3 1029],
     outbox_events = [event_row 20 19 ''transaction.completed'' tx1 1016,
       event_row 27 26 ''transaction.completed'' tx2 1026,
       event_row 34 33 ''transaction.reversed'' tx3 1038]\<rparr>,
   kv = [balanceKey eng_runtime 2 \<mapsto> FormatInt (- 500), balanceKey eng_runtime 12 \<mapsto> FormatInt 500,
     balanceKey eng_runtime 13 \<mapsto> FormatInt 0],
   streams = [], host = \<lparr>clock = 1040, next_uuid = 35, faults = []\<rparr>\<rparr>"

lemma reverse_eval: "P (Inr (TransactionFromModel tx3, 201), w_back) \<Longrightarrow>
    P (Reverse (app_transactions app0) 23 ''k3'' w_paid)"
  by (simp add: w_paid_def w_back_def req1_def req2_def tx1_def tx2_def tx3_def run_rules cong: run_congs)

lemma reverse_run: "Reverse (app_transactions app0) 23 ''k3'' w_paid =
    (Inr (TransactionFromModel tx3, 201), w_back)"
  by (rule reverse_eval) (rule refl)

section \<open>The worlds of the run are deployments\<close>

lemma run_reachable:
  "reachable app0 w0 w_seed" "reachable app0 w0 w_open" "reachable app0 w0 w_topup"
  "reachable app0 w0 w_paid" "reachable app0 w0 w_back"
proof -
  note s = reachable.step
  show "reachable app0 w0 w_seed"
    by (rule s [OF reachable.start api_step.restart [OF trans [OF _ seed_run]]]) (simp add: app_runs)
  then have "reachable app0 w0 w_ann" unfolding w_ann_def
    by (rule s [OF _ api_step.create_user [OF prod.collapse [symmetric]]])
  then have "reachable app0 w0 w_bob" unfolding w_bob_def
    by (rule s [OF _ api_step.create_user [OF prod.collapse [symmetric]]])
  then have "reachable app0 w0 w_ann_wallet" unfolding w_ann_wallet_def
    by (rule s [OF _ api_step.create_wallet [OF prod.collapse [symmetric]]])
  then show "reachable app0 w0 w_open" unfolding w_open_def
    by (rule s [OF _ api_step.create_wallet [OF prod.collapse [symmetric]]])
  then show "reachable app0 w0 w_topup" by (rule s [OF _ api_step.top_up [OF topup_run]])
  then show "reachable app0 w0 w_paid" by (rule s [OF _ api_step.transfer [OF transfer_run]])
  then show "reachable app0 w0 w_back" by (rule s [OF _ api_step.reverse [OF reverse_run]])
qed

lemma run_start: "db w0 = empty_db" "streams w0 = []"
  by (simp_all add: w0_def)

lemma run_deployed:
  "deployed app0 w_seed" "deployed app0 w_open" "deployed app0 w_topup" "deployed app0 w_paid"
  "deployed app0 w_back"
  unfolding deployed_def using run_reachable run_start(1) by blast+

text \<open>What a property over any program with the laws says at the engine.\<close>

lemma eng_app_laws: "app_laws eng_env eng_redis"
  by (rule eng_app.app_laws_axioms)

end
