(* ===== verification/Progress.thy ===== *)
theory Progress
  imports Guarantees
begin

text \<open>
  Total correctness of the money operations: while the database, Redis and the runtime answer, an
  operation whose preconditions hold returns its booking; the one thing that can still stop it is
  an identifier the runtime drew that is already a key of a table. \<open>works up C m w Q\<close> says that
  \<open>m\<close>, run on \<open>w\<close>, returns a result with \<open>Q\<close> and leaves the systems up, or fails with an error of
  \<open>C\<close>; the rules below compose it along a program, and a step may use the equation of its run.
\<close>

section \<open>A calculus of runs that return\<close>

definition works :: "('s \<Rightarrow> bool) \<Rightarrow> ('e \<Rightarrow> bool) \<Rightarrow> ('s, 'e, 'a) prog \<Rightarrow> 's \<Rightarrow> ('a \<Rightarrow> 's \<Rightarrow> bool) \<Rightarrow> bool" where
  "works up C m w Q \<longleftrightarrow> (\<exists>a w'. m w = (Inr a, w') \<and> up w' \<and> Q a w') \<or> (\<exists>e w'. m w = (Inl e, w') \<and> C e)"

lemma works_bind:
  assumes "works up C m w P" "\<And>a w'. m w = (Inr a, w') \<Longrightarrow> up w' \<Longrightarrow> P a w' \<Longrightarrow> works up C (f a) w' Q"
  shows "works up C (bindE m f) w Q"
  using assms unfolding works_def by (fastforce simp: bindE_def)

lemma works_onErr:
  assumes "works up C m w Q" "\<And>e. C e \<Longrightarrow> D (g e)"
  shows "works up D (onErr g m) w Q"
  using assms unfolding works_def by (fastforce simp: onErr_step onErr_stop)

lemma works_return: "up w \<Longrightarrow> Q a w \<Longrightarrow> works up C (returnE a) w Q"
  by (auto simp: works_def returnE_def)

lemma works_pass: "\<not> c \<Longrightarrow> up w \<Longrightarrow> works up C (failWhen c e) w (\<lambda>_ w'. w' = w)"
  by (simp add: works_def failWhen_def)

lemma works_pure: "r = Inr a \<Longrightarrow> up w \<Longrightarrow> works up C (liftR r) w (\<lambda>b w'. w' = w \<and> b = a)"
  by (simp add: works_def liftR_def)

lemma works_try:
  assumes "works up C m w P"
    and "\<And>a w'. m w = (Inr a, w') \<Longrightarrow> up w' \<Longrightarrow> P a w' \<Longrightarrow> works up D (f a) w' Q"
    and "\<And>e w'. C e \<Longrightarrow> \<exists>e'. h e w' = (Inl e', w') \<and> D e'"
  shows "works up D (tryE m h f) w Q"
  using assms unfolding works_def by (fastforce simp: tryE_def)

lemma works_weaken: "works up C m w P \<Longrightarrow> (\<And>a w'. P a w' \<Longrightarrow> Q a w') \<Longrightarrow> works up C m w Q"
  unfolding works_def by blast

lemma works_known:
  assumes "works up C m w P" "\<And>a w'. m w = (Inr a, w') \<Longrightarrow> P a w' \<Longrightarrow> Q a w'"
  shows "works up C m w Q"
  using assms unfolding works_def by blast

text \<open>Drawn identifiers may collide.\<close>

definition taken :: "go_error \<Rightarrow> bool" where
  "taken e \<longleftrightarrow> (\<exists>m. e = PgError ''23505'' m)"

definition collision :: "go_error \<Rightarrow> bool" where
  "collision e \<longleftrightarrow> e = in_use \<or> (\<exists>d. taken d \<and> e = internal d)"

lemma taken_internal: "taken e \<Longrightarrow> collision (internal e)"
  by (auto simp: collision_def)

lemma taken_duplicate: "taken e \<Longrightarrow> IsDuplicate (Some e)"
  by (auto simp: taken_def IsDuplicate_def errors_As_PgError_def)

section \<open>Repositories that are up\<close>

context gorm_table_up
begin

lemma Create_works: "up w \<Longrightarrow> works up taken (gCreate T r) w (\<lambda>_ _. True)"
  using Create_up [of w r] Create_clash [of w r] unfolding works_def taken_def by metis

lemma CreateAll_works: "up w \<Longrightarrow> works up taken (gCreateAll T rs) w (\<lambda>_ _. True)"
  using CreateAll_up [of w rs] CreateAll_clash [of w rs] unfolding works_def taken_def by metis

lemma Find_works: "up w \<Longrightarrow> works up (\<lambda>_. False) (gFind T q) w (\<lambda>_ _. True)"
  using Find_up [of w q] unfolding works_def by blast

end

context env_up
begin

lemma New_works: "up w \<Longrightarrow> works up C (liftS (uuid_New (RT E))) w (\<lambda>_ _. True)"
  using New_up [of w] by (auto simp: works_def liftS_def split: prod.splits)

lemma Now_works: "up w \<Longrightarrow> works up C (liftS (time_Now (RT E))) w (\<lambda>_ _. True)"
  using Now_up [of w] by (auto simp: works_def liftS_def split: prod.splits)

lemma assignID_works: "up w \<Longrightarrow> works up C (assignID (RT E) i) w (\<lambda>_ _. True)"
  by (simp add: assignID_def New_works works_return)

lemma hook_works:
  "up w \<Longrightarrow> works up C (BaseModel_BeforeCreate (RT E) b) w (\<lambda>_ _. True)"
  "up w \<Longrightarrow> works up C (LedgerEntry_BeforeCreate (RT E) l) w (\<lambda>_ _. True)"
  "up w \<Longrightarrow> works up C (IdempotencyKey_BeforeCreate (RT E) k) w (\<lambda>_ _. True)"
  by (simp_all add: BaseModel_BeforeCreate_def LedgerEntry_BeforeCreate_def IdempotencyKey_BeforeCreate_def
      works_bind [OF assignID_works] works_return)

lemma row_hook_works:
  "up w \<Longrightarrow> works up C (Transaction_BeforeCreate (RT E) t) w (\<lambda>_ _. True)"
  "up w \<Longrightarrow> works up C (OutboxEvent_BeforeCreate (RT E) ev) w (\<lambda>_ _. True)"
  by (simp_all add: Transaction_BeforeCreate_def OutboxEvent_BeforeCreate_def Let_def
      works_bind [OF hook_works(1)] works_return)

lemma hooks_works: "up w \<Longrightarrow> works up C (hooks (LedgerEntry_BeforeCreate (RT E)) es) w (\<lambda>_ _. True)"
proof (induction es arbitrary: w)
  case (Cons e es)
  show ?case unfolding hooks.simps
    by (rule works_bind [OF hook_works(2) [OF Cons.prems]], rule works_bind [OF Cons.IH])
      (simp_all add: works_return)
qed (simp add: works_return)

lemma create_works:
  "up w \<Longrightarrow> works up taken (TransactionRepository_Create E t) w (\<lambda>_ _. True)"
  "up w \<Longrightarrow> works up taken (IdempotencyRepository_Create E k) w (\<lambda>_ _. True)"
  "up w \<Longrightarrow> works up taken (OutboxRepository_Create E ev) w (\<lambda>_ _. True)"
  "up w \<Longrightarrow> works up taken (TransactionRepository_CreateLedgerEntries E es) w (\<lambda>_ _. True)"
  unfolding create_defs TransactionRepository_CreateLedgerEntries_def
  by (auto intro: works_bind [OF row_hook_works(1) transactions.Create_works]
      works_bind [OF hook_works(3) idem.Create_works] works_bind [OF row_hook_works(2) outbox.Create_works]
      works_bind [OF hooks_works entries.CreateAll_works] works_return)

lemma record_works:
  "up w \<Longrightarrow> works up collision (createIdempotencyRecord E key ep h ttl) w (\<lambda>_ _. True)"
  unfolding createIdempotencyRecord_def
  by (auto intro!: works_return works_bind [OF Now_works] works_try [OF create_works(2)]
      simp: taken_duplicate throwE_def collision_def in_use_def)

lemma lock_works:
  "up w \<Longrightarrow> works up (\<lambda>_. False) (WalletRepository_GetByIDsForUpdate E ids) w (\<lambda>_ _. True)"
  by (simp add: WalletRepository_GetByIDsForUpdate_def Let_def wallets.Find_works works_return)

lemma reference_works:
  assumes "up w"
  shows "works up C (liftS (newReferenceCode (RT E) p)) w (\<lambda>_ w'. db w' = db w)"
proof (cases "uuid_New (RT E) w")
  case (Pair u w1)
  with New_up [OF assms Pair] visible_db [OF New_frame [OF Pair]] show ?thesis
    by (simp add: works_def liftS_def newReferenceCode_def)
qed

lemma event_works: "up w \<Longrightarrow> works up C (NewOutboxEvent (RT E) ty t) w (\<lambda>_ _. True)"
  by (simp add: NewOutboxEvent_def Let_def works_bind [OF New_works] works_return)

lemma save_response_works:
  assumes "up w"
  shows "works up C (saveResponse E rec resp i) w (\<lambda>_ _. True)"
proof (cases rec)
  case (Some r)
  have "works up (\<lambda>_. False) (IdempotencyRepository_SaveResponse E (idem_ID r) 201 resp (Some i)) w (\<lambda>_ _. True)"
    unfolding IdempotencyRepository_SaveResponse_def Let_def works_def
    by (rule disjI1, cut_tac idem.Updates_up [OF assms]) (fastforce simp: idempotency_key_clash_def)+
  then show ?thesis using Some by (simp add: saveResponse_def works_onErr)
qed (simp add: saveResponse_def works_return assms)

text \<open>A live wallet is saved with another balance: its keys clash with no other wallet.\<close>

lemma save_wallet_works:
  assumes "up w" "x \<in> set (wallets (db w))" "wallet_live x"
    and "distinct (map ID (wallets (db w)))" "distinct (map UserID (wallets (db w)))"
  shows "works up C (WalletRepository_Update E (add_balance n x)) w (\<lambda>_ _. True)"
proof -
  have "\<forall>y\<in>set (wallets (db w)). ID y \<noteq> ID x \<longrightarrow> \<not> wallet_clash (add_balance n x) y"
    using distinct_key_eq [OF assms(5) assms(2)] by (fastforce simp: wallet_clash_def add_balance_def)
  with wallets.Save_up [OF assms(1), of "add_balance n x"] assms(2,3) show ?thesis
    by (auto simp: works_def WalletRepository_Update_def add_balance_def)
qed

lemma save_wallet_keys:
  assumes "WalletRepository_Update E (add_balance n x) w = (Inr x', w')"
    and "x \<in> set (wallets (db w))" "wallet_live x" "distinct (map ID (wallets (db w)))"
  shows "map ID (wallets (db w')) = map ID (wallets (db w))" "map UserID (wallets (db w')) = map UserID (wallets (db w))"
proof -
  obtain ws where "db w' = (db w)\<lparr>wallets := ws\<rparr>" "list_all2 (row_add (ID x) n) (wallets (db w)) ws"
    using update_one(2) [OF assms] by blast
  then have l: "list_all2 (row_add (ID x) n) (wallets (db w)) (wallets (db w'))" by simp
  then show "map ID (wallets (db w')) = map ID (wallets (db w))"
    by (induction rule: list_all2_induct) (auto simp: row_add_def)
  from l show "map UserID (wallets (db w')) = map UserID (wallets (db w))"
    by (induction rule: list_all2_induct) (auto simp: row_add_def)
qed

lemma save_wallet_transactions:
  assumes "WalletRepository_Update E (add_balance n x) w = (Inr x', w')"
    and "x \<in> set (wallets (db w))" "wallet_live x" "distinct (map ID (wallets (db w)))"
  shows "transactions (db w') = transactions (db w)"
  using update_one(2) [OF assms] by auto

text \<open>Both wallets of a movement are saved, in either order.\<close>

lemma save_two_work:
  assumes "up w" "x \<in> set (wallets (db w))" "wallet_live x" "y \<in> set (wallets (db w))" "wallet_live y"
    and "ID y \<noteq> ID x" "distinct (map ID (wallets (db w)))" "distinct (map UserID (wallets (db w)))"
    and "\<And>x' y' w'. up w' \<Longrightarrow> transactions (db w') = transactions (db w) \<Longrightarrow> works up collision (k x' y') w' Q"
  shows "works up collision (bindE (onErr internal (WalletRepository_Update E (add_balance m x))) (\<lambda>x'.
    bindE (onErr internal (WalletRepository_Update E (add_balance n y))) (\<lambda>y'. k x' y'))) w Q"
proof (rule works_bind [OF works_onErr [OF save_wallet_works [OF assms(1-3,7,8), of taken]]], goal_cases)
  case (2 x' w1)
  then have u: "WalletRepository_Update E (add_balance m x) w = (Inr x', w1)" by (simp add: prog_simps)
  note keys = save_wallet_keys [OF u assms(2,3,7)] save_wallet_transactions [OF u assms(2,3,7)]
  have y: "y \<in> set (wallets (db w1))"
    using update_one(2) [OF u assms(2,3,7)] assms(4,6) by auto
  then have "works up taken (WalletRepository_Update E (add_balance n y)) w1 (\<lambda>_ _. True)"
    using keys assms(7,8) by (intro save_wallet_works [OF 2(2) _ assms(5)]) simp_all
  then show ?case
  proof (rule works_bind [OF works_onErr], goal_cases)
    case (2 y' w2)
    then have "transactions (db w2) = transactions (db w1)"
      using save_wallet_transactions [of n y w1 y' w2] y keys assms(5,7) by (simp add: prog_simps)
    with 2 keys show ?case by (intro assms(9)) simp_all
  qed (simp_all add: taken_internal)
qed (simp_all add: taken_internal)

text \<open>Both wallets of a request are found under their locks.\<close>

lemma find_two_work:
  assumes "up w" "x \<in> set (wallets (db w))" "wallet_live x" "y \<in> set (wallets (db w))" "wallet_live y"
    and "ID x \<noteq> ID y" "distinct (map ID (wallets (db w)))"
    and "\<And>w'. up w' \<Longrightarrow> db w' = db w \<Longrightarrow> works up collision (k (x, y)) w' Q"
  shows "works up collision (bindE (onErr internal (WalletRepository_GetByIDsForUpdate E [ID x, ID y])) (\<lambda>ws.
    bindE (liftR (resolveTransferWallets ws (ID x) (ID y))) k)) w Q"
proof (rule works_bind [OF works_onErr [OF lock_works [OF assms(1)]]], goal_cases)
  case (2 ws w1)
  then have l: "WalletRepository_GetByIDsForUpdate E [ID x, ID y] w = (Inr ws, w1)" by (simp add: prog_simps)
  have "resolveTransferWallets ws (ID x) (ID y) = Inr (x, y)"
  proof (cases "resolveTransferWallets ws (ID x) (ID y)")
    case (Inl e)
    from resolve_Inl [OF this] locked_wallets(1) [OF l] assms(2-6) show ?thesis by auto
  next
    case (Inr p)
    obtain x' y' where p: "p = (x', y')" by (cases p)
    from resolve_Inr [OF Inr [unfolded p]] locked_wallets(1) [OF l] assms(2,4)
      distinct_key_eq [OF assms(7)] Inr p show ?thesis by auto
  qed
  then have "works up collision (liftR (resolveTransferWallets ws (ID x) (ID y))) w1 (\<lambda>b w'. w' = w1 \<and> b = (x, y))"
    by (rule works_pure) (rule 2(2))
  from works_bind [OF this] assms(8) [OF 2(2) locked_wallets(2) [OF l]] show ?case by blast
qed simp_all

text \<open>What follows the checks: the transaction, the wallets, the ledger, and the rest.\<close>

lemma event_tail_works:
  "up w \<Longrightarrow> works up collision (bindE (onErr internal (NewOutboxEvent (RT E) ty t)) (\<lambda>ev.
    bindE (onErr internal (OutboxRepository_Create E ev)) (\<lambda>_.
    bindE (saveResponse E rec resp i) (\<lambda>_. returnE r)))) w (\<lambda>a _. a = r)"
  by (intro works_bind [OF works_onErr [OF event_works [of _ taken]]] works_bind [OF works_onErr [OF create_works(3)]]
      works_bind [OF save_response_works] works_return) (simp_all add: taken_internal)

lemma booking_works:
  assumes "up w" "x \<in> set (wallets (db w))" "wallet_live x" "y \<in> set (wallets (db w))" "wallet_live y"
    and "ID y \<noteq> ID x" "distinct (map ID (wallets (db w)))" "distinct (map UserID (wallets (db w)))"
    and "\<And>t x' y' w'. up w' \<Longrightarrow> transactions (db w') = transactions (db w) @ [t] \<Longrightarrow>
      \<forall>z\<in>set (transactions (db w)). \<not> transaction_clash t z \<Longrightarrow> works up collision (k t x' y') w' Q"
    and "\<And>t x' y'. L t x' y' \<noteq> []"
  shows "works up collision (bindE (liftS (newReferenceCode (RT E) pre)) (\<lambda>ref.
    bindE (onErr internal (TransactionRepository_Create E (T ref))) (\<lambda>t.
    bindE (onErr internal (WalletRepository_Update E (add_balance m x))) (\<lambda>x'.
    bindE (onErr internal (WalletRepository_Update E (add_balance n y))) (\<lambda>y'.
    bindE (onErr internal (TransactionRepository_CreateLedgerEntries E (L t x' y'))) (\<lambda>_. k t x' y')))))) w Q"
proof (rule works_bind [OF reference_works [OF assms(1)]], rule works_bind [OF works_onErr [OF create_works(1)]],
    goal_cases)
  case (3 ref w1 t w2)
  then have "wallets (db w2) = wallets (db w) \<and> transactions (db w2) = transactions (db w) @ [t] \<and>
      (\<forall>z\<in>set (transactions (db w)). \<not> transaction_clash t z)"
    using TransactionRepository_Create_Inr by (fastforce simp: prog_simps visible_def)
  with 3 assms(2-8) show ?case
  proof (intro save_two_work, goal_cases)
    case (9 x' y' w3)
    show ?case
    proof (rule works_bind [OF works_onErr [OF create_works(4)]], goal_cases)
      case (3 es w4)
      then have "transactions (db w4) = transactions (db w3)"
        using CreateLedgerEntries_Inr(4) [OF _ assms(10)] by (fastforce simp: prog_simps visible_def)
      with 3 9 show ?case by (intro assms(9)) simp_all
    qed (use 9 in \<open>simp_all add: taken_internal\<close>)
  qed simp_all
qed (simp_all add: taken_internal)

lemma record_keeps:
  "createIdempotencyRecord E key ep h ttl w = (Inr rec, w') \<Longrightarrow> wallets (db w') = wallets (db w) \<and>
    transactions (db w') = transactions (db w)"
  using record_start [of key ep h ttl w rec w'] by auto

lemma Transfer_tx_works:
  assumes "up w" "wf_db (db w)" "ts_env S = E"
    and "live_wallet (db w) (tr_SourceWalletID req) x" "IsActive x"
    and "live_wallet (db w) (tr_DestinationWalletID req) y" "IsActive y"
    and "tr_SourceWalletID req \<noteq> tr_DestinationWalletID req"
    and "sint (tr_AmountMinor req) \<le> sint (BalanceCachedMinor x)"
  shows "works up collision (Transfer_tx S req key h) w (\<lambda>_ _. True)"
proof -
  have a: "tr_SourceWalletID req = ID x" "tr_DestinationWalletID req = ID y"
    and xy: "x \<in> set (wallets (db w))" "wallet_live x" "y \<in> set (wallets (db w))" "wallet_live y"
    using assms(4,6) by (auto simp: live_wallet_def)
  show ?thesis unfolding Transfer_tx_def Let_def assms(3) a
  proof (rule works_bind [OF record_works [OF assms(1)]], goal_cases)
    case (1 rec w1)
    from record_keeps [OF 1(1)] xy wf_db_distinct(2,6) [OF assms(2)] assms(5,7-9) a 1(2) show ?case
      by (intro find_two_work) (auto intro!: works_bind [OF works_pass] booking_works
          works_weaken [OF event_tail_works])
  qed
qed

lemma TopUp_tx_works:
  assumes "up w" "wf_db (db w)" "ts_env S = E"
    and "live_wallet (db w) SystemWalletID x"
    and "live_wallet (db w) (tu_WalletID req) y" "IsActive y" "tu_WalletID req \<noteq> SystemWalletID"
  shows "works up collision (TopUp_tx S req key h) w (\<lambda>_ _. True)"
proof -
  have a: "SystemWalletID = ID x" "tu_WalletID req = ID y"
    and xy: "x \<in> set (wallets (db w))" "wallet_live x" "y \<in> set (wallets (db w))" "wallet_live y"
    using assms(4,5) by (auto simp: live_wallet_def)
  show ?thesis unfolding TopUp_tx_def Let_def assms(3) resolveTopUp_eq a
  proof (rule works_bind [OF record_works [OF assms(1)]], goal_cases)
    case (1 rec w1)
    from record_keeps [OF 1(1)] xy wf_db_distinct(2,6) [OF assms(2)] assms(6,7) a 1(2) show ?case
      by (intro find_two_work) (auto intro!: works_bind [OF works_pass] booking_works
          works_weaken [OF event_tail_works])
  qed
qed

text \<open>The original is saved as reversed: its keys clash with no other transaction, the new one included.\<close>

lemma mark_works:
  assumes "up w" "transactions (db w) = ts @ [t]" "orig \<in> set ts" "\<forall>z\<in>set ts. \<not> transaction_clash t z"
    and "uniq transaction_clash ts"
  shows "works up C (TransactionRepository_Update E (orig\<lparr>Status := st\<rparr>)) w (\<lambda>_ _. True)"
proof -
  have "distinct (map ID ts)" "distinct (map ReferenceCode ts)"
    using assms(5) by (auto intro: uniq_distinct simp: transaction_clash_def)
  then have "\<not> transaction_clash orig z" if "z \<in> set ts" "ID z \<noteq> ID orig" for z
    using that assms(3) by (auto simp: transaction_clash_def dest: distinct_key_eq)
  moreover have "\<not> transaction_clash orig t"
    using assms(3,4) by (auto simp: transaction_clash_def)
  ultimately have "\<forall>z\<in>set (transactions (db w)). ID z \<noteq> ID orig \<longrightarrow> \<not> transaction_clash (orig\<lparr>Status := st\<rparr>) z"
    using assms(2) by (auto simp: transaction_clash_def)
  with transactions.Save_up [OF assms(1), of "orig\<lparr>Status := st\<rparr>"] assms(2,3) show ?thesis
    by (auto simp: works_def TransactionRepository_Update_def)
qed

lemma get_original_works:
  assumes "up w" "orig \<in> set (transactions (db w))" "distinct (map ID (transactions (db w)))"
  shows "works up (\<lambda>_. False) (TransactionRepository_GetByIDForUpdate E (ID orig)) w
    (\<lambda>t w'. t = orig \<and> db w' = db w)"
proof -
  have "\<exists>t\<in>set (transactions (db w)). ID t = ID orig" using assms(2) by blast
  then obtain t w' where t: "TransactionRepository_GetByIDForUpdate E (ID orig) w = (Inr t, w')" "up w'"
    using transactions.FirstForUpdate_up [OF assms(1), of "\<lambda>t. ID t = ID orig"]
    unfolding TransactionRepository_GetByIDForUpdate_def by auto
  have "t = orig" using Get_Inr(5) [OF t(1)] assms(2) distinct_key_eq [OF assms(3)] by blast
  moreover have "db w' = db w" using keepsD [OF keeps_Get(5) t(1)] by (rule visible_db)
  ultimately show ?thesis using t by (simp add: works_def)
qed

lemma Reverse_tx_works:
  assumes "up w" "wf_db (db w)" "ts_env S = E"
    and "orig \<in> set (transactions (db w))" "ID orig = i" "Status orig \<noteq> TransactionStatusReversed"
    and "Type orig \<in> {TransactionTypeTopUp, TransactionTypeTransfer}"
    and "SourceWalletID orig = Some a" "live_wallet (db w) a x"
    and "DestinationWalletID orig = Some b" "live_wallet (db w) b y" "a \<noteq> b"
    and "sint (AmountMinor orig) \<le> sint (BalanceCachedMinor y)"
  shows "works up collision (Reverse_tx S i key h) w (\<lambda>_ _. True)"
proof -
  have a: "SourceWalletID orig = Some (ID x)" "DestinationWalletID orig = Some (ID y)"
    and xy: "x \<in> set (wallets (db w))" "wallet_live x" "y \<in> set (wallets (db w))" "wallet_live y" "ID x \<noteq> ID y"
    using assms(8-12) by (auto simp: live_wallet_def)
  note wf = wf_db_distinct(2,3,6) [OF assms(2)]
  show ?thesis unfolding Reverse_tx_def Let_def assms(3) assms(5) [symmetric]
  proof (rule works_bind [OF record_works [OF assms(1)]], rule works_try [OF get_original_works], goal_cases)
    case (4 rec w1 t w2)
    with record_keeps [OF 4(1)] have w2: "up w2" "t = orig" "wallets (db w2) = wallets (db w)"
      "transactions (db w2) = transactions (db w)" by simp_all
    have u: "uniq transaction_clash (transactions (db w))" using assms(2) by (simp add: wf_db_def)
    have p: "works up collision (failWhen c e) w2 (\<lambda>_ w'. w' = w2)" if "\<not> c" for c e
      by (rule works_pass [OF that]) (rule w2(1))
    show ?case unfolding w2(2)
      by (rule works_bind [OF p [OF assms(6)]], clarify, rule works_bind [OF p])
        (use assms(4,7,13) a w2 xy wf u in \<open>auto intro!: find_two_work works_bind [OF works_pass] booking_works
          works_bind [OF works_onErr [OF mark_works [of _ "transactions (db w)"]]] works_weaken [OF event_tail_works]\<close>)
  qed (use record_keeps assms(4) wf in auto)
qed

text \<open>The look-up of a replay: nothing without a record, the stored response with one.\<close>

lemma replay_none:
  assumes "up w" "key \<notin> idem_Key ` {k \<in> set (idempotency_keys (db w)). idem_Endpoint k = ep}"
  shows "\<exists>w'. getIdempotencyReplay E key ep h w = (Inr (zero_response, 0, None), w') \<and> up w' \<and> visible w' = visible w"
proof (cases "key = []")
  case False
  have "\<forall>r\<in>set (idempotency_keys (db w)). \<not> (True \<and> idem_Key r = key \<and> idem_Endpoint r = ep)"
    using assms(2) by auto
  from idem.First_none [OF assms(1) this] obtain w'
    where w': "gFirst (IdempotencyKeys (DB E)) (\<lambda>r. idem_Key r = key \<and> idem_Endpoint r = ep) w = (Inl ErrRecordNotFound, w')"
      "up w'" by auto
  moreover have "visible w' = visible w" by (rule keepsD [OF idem.keeps_First w'(1)])
  ultimately show ?thesis using False
    by (simp add: getIdempotencyReplay_def IdempotencyRepository_Get_def tryE_def IsNotFound_def errors_Is_def
        returnE_def)
qed (simp add: getIdempotencyReplay_def returnE_def assms(1))

lemma replay_found:
  assumes "up w" "wf_db (db w)" "key \<noteq> []" "replays (RT E) key ep h (db w) resp st"
  shows "\<exists>r w'. getIdempotencyReplay E key ep h w = (Inr (resp, st, r), w') \<and> up w' \<and> visible w' = visible w"
proof -
  obtain k where k: "k \<in> set (idempotency_keys (db w))" "idem_Key k = key" "idem_Endpoint k = ep"
      "RequestHash k = h" "ResponseStatusCode k = Some st"
      "\<exists>b. ResponseBodyJSON k = Some b \<and> response_of_json (RT E) b = Inr resp"
    using assms(4) by (auto simp: replays_def)
  then have ex: "\<exists>r\<in>set (idempotency_keys (db w)). True \<and> idem_Key r = key \<and> idem_Endpoint r = ep" by blast
  obtain r w' where r: "IdempotencyRepository_Get E key ep w = (Inr r, w')" "up w'"
    using idem.First_up [OF assms(1) ex] unfolding IdempotencyRepository_Get_def by auto
  have "distinct (map (\<lambda>k. (idem_Key k, idem_Endpoint k)) (idempotency_keys (db w)))"
    by (rule uniq_distinct [of idempotency_key_clash])
      (use assms(2) in \<open>auto simp: wf_db_def idempotency_key_clash_def\<close>)
  from distinct_key_eq [OF this k(1), of r] Get_Inr(6) [OF r(1)] k(2,3) have "r = k" by auto
  moreover have "visible w' = visible w" by (rule keepsD [OF keeps_Get(6) r(1)])
  ultimately show ?thesis using r k assms(3)
    by (auto simp: getIdempotencyReplay_def tryE_def replayResponse_def bindE_def onErr_def handleE_def
        liftR_def returnE_def)
qed

lemma transaction_works:
  assumes "up w" "\<And>w1. up w1 \<Longrightarrow> visible w1 = visible w \<Longrightarrow> works up C f w1 Q"
  shows "works up C (withTransaction E f) w (\<lambda>_ _. True)"
proof -
  from Transaction_up [OF assms(1), of f] obtain w1 where w1: "visible w1 = visible w" "up w1"
    and ok: "\<forall>a w2. f w1 = (Inr a, w2) \<longrightarrow> up w2 \<longrightarrow>
        (\<exists>w'. Transaction (DB E) f w = (Inr a, w') \<and> visible w' = visible w2 \<and> up w')"
    and bad: "\<forall>e w2. f w1 = (Inl e, w2) \<longrightarrow> (\<exists>w'. Transaction (DB E) f w = (Inl e, w'))"
    by blast
  from assms(2) [OF w1(2,1)] show ?thesis
    unfolding works_def withTransaction_def using ok bad by metis
qed

end

section \<open>The wired program\<close>

context app_up
begin

lemma cache_set_works:
  "up w \<Longrightarrow> \<exists>w'. cache_Set (NewRedisBalanceCache client (RT E) ttl) i b w = (Inr (), w') \<and> up w'"
  using Set_up [of w] by (simp add: NewRedisBalanceCache_def RedisBalanceCache_Set_def)

lemma touched_works:
  "up w \<Longrightarrow> \<exists>w'. touchedWallets (Some (NewRedisBalanceCache client (RT E) ttl)) ws w = (Inr (), w') \<and> up w'"
proof (induction ws arbitrary: w)
  case (Cons x ws)
  obtain w1 where w1: "cache_Set (NewRedisBalanceCache client (RT E) ttl) (ID x) (BalanceCachedMinor x) w = (Inr (), w1)"
      "up w1" using cache_set_works [OF Cons.prems] by blast
  from Cons.IH [OF w1(2)] w1(1) show ?case by (auto simp: bindE_def handleE_def)
qed (simp add: returnE_def)

lemma guarded_works:
  assumes "up w" "key \<notin> idem_Key ` {k \<in> set (idempotency_keys (db w)). idem_Endpoint k = ep}"
    and "\<And>w1. up w1 \<Longrightarrow> visible w1 = visible w \<Longrightarrow> works up collision body w1 Q"
  shows "works up collision (guarded (app_transactions app) key ep h body) w (\<lambda>(_, st) _. st = 201)"
proof -
  obtain w1 where w1: "getIdempotencyReplay E key ep h w = (Inr (zero_response, 0, None), w1)" "up w1"
      "visible w1 = visible w" using replay_none [OF assms(1,2)] by blast
  have "works up collision (withTransaction E body) w1 (\<lambda>_ _. True)"
    by (rule transaction_works [OF w1(2)]) (use assms(3) w1(3) in simp)
  then have "works up collision (bindE (withTransaction E body) (\<lambda>(response, touched).
      bindE (touchedWallets (ts_cacheStore (app_transactions app)) touched) (\<lambda>_. returnE (response, 201))))
      w1 (\<lambda>(_, st) _. st = (201 :: int))"
  proof (rule works_bind, clarify, goal_cases)
    case (1 resp touched w2)
    then obtain w3 where "touchedWallets (ts_cacheStore (app_transactions app)) touched w2 = (Inr (), w3)" "up w3"
      using touched_works by fastforce
    then show ?case by (simp add: works_def bindE_def returnE_def)
  qed
  then show ?thesis using w1(1) unfolding works_def by (simp add: guarded_def bindE_def)
qed

lemma guarded_replays:
  assumes "up w" "wf_db (db w)" "key \<noteq> []" "replays (RT E) key ep h (db w) resp st"
  shows "\<exists>w'. guarded (app_transactions app) key ep h body w = (Inr (resp, st), w') \<and> up w' \<and> visible w' = visible w"
proof -
  obtain r w' where "getIdempotencyReplay E key ep h w = (Inr (resp, st, r), w')" "up w'" "visible w' = visible w"
    using replay_found [OF assms] by blast
  moreover have "st \<noteq> 0" using assms(4) by (auto simp: replays_def)
  ultimately show ?thesis by (simp add: guarded_def bindE_def returnE_def)
qed

theorem Transfer_works:
  assumes "up w" "deployed app w"
    and "live_wallet (db w) (tr_SourceWalletID req) x" "IsActive x"
    and "live_wallet (db w) (tr_DestinationWalletID req) y" "IsActive y"
    and "tr_SourceWalletID req \<noteq> tr_DestinationWalletID req"
    and "sint (tr_AmountMinor req) \<le> sint (BalanceCachedMinor x)"
    and "key \<notin> idem_Key ` {k \<in> set (idempotency_keys (db w)). idem_Endpoint k = transferEndpoint}"
  shows "works up collision (Transfer (app_transactions app) req key) w (\<lambda>(_, st) _. st = 201)"
  unfolding ts.Transfer_guarded [OF assms(7)]
proof (rule guarded_works [OF assms(1,9), where Q = "\<lambda>_ _. True"], goal_cases)
  case (1 w1)
  with visible_db [of w1 w] deployed_wf [OF assms(2)] assms(3-8) show ?case
    by (intro Transfer_tx_works [where x = x and y = y]) simp_all
qed

theorem TopUp_works:
  assumes "up w" "deployed app w"
    and "live_wallet (db w) SystemWalletID x"
    and "live_wallet (db w) (tu_WalletID req) y" "IsActive y" "tu_WalletID req \<noteq> SystemWalletID"
    and "key \<notin> idem_Key ` {k \<in> set (idempotency_keys (db w)). idem_Endpoint k = topUpEndpoint}"
  shows "works up collision (TopUp (app_transactions app) req key) w (\<lambda>(_, st) _. st = 201)"
  unfolding ts.TopUp_guarded
proof (rule guarded_works [OF assms(1,7), where Q = "\<lambda>_ _. True"], goal_cases)
  case (1 w1)
  with visible_db [of w1 w] deployed_wf [OF assms(2)] assms(3-6) show ?case
    by (intro TopUp_tx_works [where x = x and y = y]) simp_all
qed

theorem Reverse_works:
  assumes "up w" "deployed app w"
    and "orig \<in> set (transactions (db w))" "ID orig = i" "Status orig \<noteq> TransactionStatusReversed"
    and "Type orig \<in> {TransactionTypeTopUp, TransactionTypeTransfer}"
    and "SourceWalletID orig = Some a" "live_wallet (db w) a x"
    and "DestinationWalletID orig = Some b" "live_wallet (db w) b y" "a \<noteq> b"
    and "sint (AmountMinor orig) \<le> sint (BalanceCachedMinor y)"
    and "key \<notin> idem_Key ` {k \<in> set (idempotency_keys (db w)). idem_Endpoint k = reverseEndpoint}"
  shows "works up collision (Reverse (app_transactions app) i key) w (\<lambda>(_, st) _. st = 201)"
  unfolding ts.Reverse_guarded
proof (rule guarded_works [OF assms(1,13), where Q = "\<lambda>_ _. True"], goal_cases)
  case (1 w1)
  with visible_db [of w1 w] deployed_wf [OF assms(2)] show ?case
    by (intro Reverse_tx_works [where orig = orig and x = x and y = y and a = a and b = b])
      (use assms(3-12) in simp_all)
qed

theorem Transfer_replays:
  assumes "up w" "deployed app w" "key \<noteq> []" "tr_SourceWalletID req \<noteq> tr_DestinationWalletID req"
    and "replays (RT E) key transferEndpoint (sha256_hex (RT E) (transfer_to_json (RT E) req)) (db w) resp st"
  shows "\<exists>w'. Transfer (app_transactions app) req key w = (Inr (resp, st), w') \<and> up w' \<and> visible w' = visible w"
  unfolding ts.Transfer_guarded [OF assms(4)]
  using guarded_replays [OF assms(1) _ assms(3,5)] deployed_wf [OF assms(2)] by simp

end

end
