(* ===== verification/Runs.thy ===== *)
theory Runs
  imports Scenario Progress Http
begin

text \<open>
  More runs of the example: requests sent again, requests refused, a suspended wallet, and
  amounts that do not fit. They give the witnesses their worlds.
\<close>

interpretation eng_up: app_up cfg eng_env eng_redis healthy for cfg
  by unfold_locales

lemma eng_app_up: "app_up eng_env eng_redis healthy"
  by (rule eng_up.app_up_axioms)

lemma paid_healthy: "healthy w_paid"
  by (simp add: healthy_def w_paid_def)

lemma cfg0_batch: "0 < sint (OutboxBatchSize cfg0)" "OutboxBatchSize cfg0 = 20"
  "0 < sint (DefaultPageLimit cfg0)" "sint (DefaultPageLimit cfg0) \<le> sint (MaxPageLimit cfg0)"
  by (simp_all add: cfg0_def Load_def envInt_def envString_def Let_def)

lemma paid_pending: "length (pending (db w_paid)) \<le> (0 + 1) * nat (sint (OutboxBatchSize cfg0))"
  by (simp add: pending_def w_paid_def event_row_def cfg0_batch(2))

text \<open>After one batch the events of the run are on the stream.\<close>

lemma paid_published: "\<exists>w'. reachable app0 w0 w' \<and> streams w' \<noteq> []"
proof -
  obtain w' where w': "worker_run (app_worker app0) 0 w_paid = (Inr (), w')"
      "\<forall>e\<in>set (outbox_events (db w')). sent (app_worker app0) w' e"
      "map core (outbox_events (db w')) = map core (outbox_events (db w_paid))"
    using eng_up.backlog_drained [OF run_reachable(4) [unfolded app0_def] run_start paid_healthy cfg0_batch(1)
        paid_pending] unfolding app0_def by blast
  have "length (outbox_events (db w')) = length (outbox_events (db w_paid))"
    using arg_cong [OF w'(3), of length] by simp
  then obtain e where "e \<in> set (outbox_events (db w'))" by (cases "outbox_events (db w')") (auto simp: w_paid_def)
  with w'(2) have "streams w' \<noteq> []" by (auto simp: sent_def)
  moreover have "reachable app0 w0 w'"
    using reachable_trans [OF eng_up.worker_reaches [OF w'(1) [unfolded app0_def]] run_reachable(4) [unfolded app0_def]]
    by (simp add: app0_def)
  ultimately show ?thesis by blast
qed

section \<open>Over HTTP\<close>

text \<open>
  A reference decoder: the fields of a body by position (an ID takes 36 characters), with the tags
  checked after decoding.
\<close>

definition checked :: "string \<Rightarrow> string \<Rightarrow> ('a \<Rightarrow> bool) \<Rightarrow> 'a \<Rightarrow> bind_error + 'a" where
  "checked field tag ok r = (if ok r then Inr r else Inl (ValidationErrors [(field, tag)]))"

definition body_id :: "string \<Rightarrow> uuid" where
  "body_id s = (case uuid_Parse eng_runtime s of Inl e \<Rightarrow> uuid_Nil | Inr i \<Rightarrow> i)"

definition body_amount :: "string \<Rightarrow> int64" where
  "body_amount s = (case ParseInt s of Inl e \<Rightarrow> 0 | Inr n \<Rightarrow> n)"

definition eng_decoder :: body_decoder where
  "eng_decoder = \<lparr>
     bind_top_up = (\<lambda>s. checked ''AmountMinor'' ''gt'' valid_top_up
       \<lparr>tu_WalletID = body_id (take 36 s), tu_AmountMinor = body_amount (drop 36 s), tu_Metadata = None\<rparr>),
     bind_transfer = (\<lambda>s. checked ''AmountMinor'' ''gt'' valid_transfer
       \<lparr>tr_SourceWalletID = body_id (take 36 s), tr_DestinationWalletID = body_id (take 36 (drop 36 s)),
        tr_AmountMinor = body_amount (drop 72 s), tr_Metadata = None\<rparr>),
     bind_create_user = (\<lambda>s. checked ''FullName'' ''required'' valid_create_user
       \<lparr>cu_ExternalRef = None, cu_FullName = s, cu_Email = s, cu_PhoneNumber = s, cu_Status = []\<rparr>),
     bind_update_user = (\<lambda>s. checked ''FullName'' ''required'' valid_update_user
       \<lparr>uu_ExternalRef = None, uu_FullName = s, uu_Email = s, uu_PhoneNumber = s, uu_Status = ''active''\<rparr>),
     bind_create_wallet = (\<lambda>s. checked ''UserID'' ''required'' valid_create_wallet
       \<lparr>cw_UserID = body_id s, cw_Currency = []\<rparr>),
     bind_wallet_status = (\<lambda>s. checked ''Status'' ''oneof'' valid_wallet_status \<lparr>uw_Status = s\<rparr>)\<rparr>"

lemma checked_Inr [simp]: "checked f t ok r = Inr r' \<longleftrightarrow> ok r \<and> r' = r"
  by (auto simp: checked_def)

interpretation eng_http: http_laws cfg eng_env eng_redis eng_decoder "returnE ()" fault for cfg
  by unfold_locales (auto simp: eng_decoder_def keeps_def returnE_def dest: fault_visible)

lemma eng_http_laws: "http_laws eng_env eng_redis eng_decoder (returnE ()) fault"
  by (rule eng_http.http_laws_axioms)

definition api0 :: "engine api" where
  "api0 = mount eng_env eng_redis cfg0 eng_decoder (returnE ()) fault"

text \<open>Requests that bring their own request identifier.\<close>

definition with_body :: "string \<Rightarrow> string \<Rightarrow> http_request" where
  "with_body key b = \<lparr>Param = (\<lambda>_. []), Query = (\<lambda>_. []),
     GetHeader = (\<lambda>h. if h = ''Idempotency-Key'' then key else ''r1''), Body = b\<rparr>"

lemma respond_snd: "snd (respond m f w) = snd (m w)"
  by (auto simp: respond_def split: prod.splits sum.splits)

lemma http_run:
  assumes "((m, path), h) \<in> set (NewRouter a)" "distinct (map fst (NewRouter a))"
    and "GetHeader c ''X-Request-ID'' \<noteq> []" "snd (h c w) = w'"
  shows "http_step a A w w'"
proof (rule http_step.request)
  show "serve a m path = Some (RequestID (api_RT a) h)"
    using map_of_is_SomeI [OF assms(2,1)] by (simp add: serve_def)
  show "RequestID (api_RT a) h c w = (fst (RequestID (api_RT a) h c w), w')"
    using assms(3,4) by (simp add: RequestID_def incoming_id_def Let_def prod_eq_iff split: prod.splits)
qed

lemma routes_distinct: "distinct (map fst (NewRouter a))"
  by (simp add: NewRouter_def)

lemma with_body_id [simp]: "GetHeader (with_body k b) ''X-Request-ID'' \<noteq> []" "Body (with_body k b) = b"
  "GetHeader (with_body k b) ''Idempotency-Key'' = k"
  by (simp_all add: with_body_def)

lemma body_id_String: "body_id (uuid_String eng_runtime i) = i"
  by (simp add: body_id_def)

definition http_tail :: "uuid \<Rightarrow> string \<Rightarrow> string" where
  "http_tail i s = uuid_String eng_runtime i @ s"

lemma length_uuid_String: "length (uuid_String eng_runtime i) = 36"
  by (simp add: eng_runtime_def eng_uuid_String_def Let_def)

lemma http_tail_simps [simp]: "take 36 (http_tail i s) = uuid_String eng_runtime i" "drop 36 (http_tail i s) = s"
  by (simp_all add: http_tail_def length_uuid_String)

lemma http_handlers:
  "snd (createUser api0 (with_body k ''ann'') w) = snd (UserService_Create (app_users app0) (sign_up ''ann'') w)"
  "snd (createUser api0 (with_body k ''bob'') w) = snd (UserService_Create (app_users app0) (sign_up ''bob'') w)"
  "i \<noteq> uuid_Nil \<Longrightarrow> snd (createWallet api0 (with_body k (uuid_String eng_runtime i)) w) =
    snd (WalletService_Create (app_wallets app0) (open_wallet i) w)"
  by (simp_all add: createUser_def createWallet_def api0_def app0_def eng_decoder_def okay_def respond_snd
      bindJSON_def checked_def valid_create_user_def valid_create_wallet_def sign_up_def open_wallet_def body_id_String)

lemma http_topup: "snd (topUp api0 (with_body ''k1'' (http_tail 12 ''500'')) w) =
    snd (TopUp (app_transactions app0) req1 ''k1'' w)"
proof -
  have "body_amount ''500'' = 500" by code_simp
  then show ?thesis
    by (simp add: topUp_def api0_def app0_def eng_decoder_def okay_def respond_snd bindJSON_def checked_def
        valid_top_up_def req1_def body_id_String uuid_Nil_def)
qed

lemma http_reached: "http_reachable api0 app0 w0 w_topup"
proof -
  note run = http_next [OF _ http_run [OF _ routes_distinct with_body_id(1)]]
  have "http_reachable api0 app0 w0 w_seed"
    by (rule http_next [OF http_start http_step.start [OF trans [OF _ seed_run]]]) (simp add: app_runs)
  then have "http_reachable api0 app0 w0 w_ann" unfolding w_ann_def
    by (rule run [of _ _ _ _ POST "''/api/v1/users''" "createUser api0", OF _ _ http_handlers(1)])
      (simp add: NewRouter_def)
  then have "http_reachable api0 app0 w0 w_bob" unfolding w_bob_def
    by (rule run [of _ _ _ _ POST "''/api/v1/users''" "createUser api0", OF _ _ http_handlers(2)])
      (simp add: NewRouter_def)
  then have "http_reachable api0 app0 w0 w_ann_wallet" unfolding w_ann_wallet_def
    by (rule run [of _ _ _ _ POST "''/api/v1/wallets''" "createWallet api0", OF _ _ http_handlers(3)])
      (simp_all add: NewRouter_def uuid_Nil_def)
  then have "http_reachable api0 app0 w0 w_open" unfolding w_open_def
    by (rule run [of _ _ _ _ POST "''/api/v1/wallets''" "createWallet api0", OF _ _ http_handlers(3)])
      (simp_all add: NewRouter_def uuid_Nil_def)
  moreover have "snd (topUp api0 (with_body ''k1'' (http_tail 12 ''500'')) w_open) = w_topup"
    by (simp add: http_topup topup_run)
  note run [of _ _ _ _ POST "''/api/v1/transactions/topup''" "topUp api0", OF _ _ this]
  ultimately show ?thesis by (simp add: NewRouter_def)
qed

section \<open>Sent again\<close>

definition later :: "engine world \<Rightarrow> engine world" where
  "later w = w\<lparr>host := (host w)\<lparr>clock := clock (host w) + 1\<rparr>\<rparr>"

lemmas replay_runs [run_rules] = getIdempotencyReplay_def [THEN fun_cong] replayResponse_def
  eng_runtime.response_json_roundtrip

lemma transfer_again_eval: "P (Inr (TransactionFromModel tx2, 201), later w_paid) \<Longrightarrow>
    P (Transfer (app_transactions app0) req2 ''k2'' w_paid)"
  by (simp add: later_def w_paid_def req1_def req2_def tx1_def tx2_def run_rules cong: run_congs)

lemma transfer_again_run: "Transfer (app_transactions app0) req2 ''k2'' w_paid =
    (Inr (TransactionFromModel tx2, 201), later w_paid)"
  by (rule transfer_again_eval) (rule refl)

lemma topup_again_eval: "P (Inr (TransactionFromModel tx1, 201), later w_paid) \<Longrightarrow>
    P (TopUp (app_transactions app0) req1 ''k1'' w_paid)"
  by (simp add: later_def w_paid_def req1_def req2_def tx1_def tx2_def run_rules cong: run_congs)

lemma topup_again_run: "TopUp (app_transactions app0) req1 ''k1'' w_paid =
    (Inr (TransactionFromModel tx1, 201), later w_paid)"
  by (rule topup_again_eval) (rule refl)

lemma reverse_again_eval: "P (Inr (TransactionFromModel tx3, 201), later w_back) \<Longrightarrow>
    P (Reverse (app_transactions app0) 23 ''k3'' w_back)"
  by (simp add: later_def w_back_def req1_def req2_def tx1_def tx2_def tx3_def run_rules endpoint_defs cong: run_congs)

lemma reverse_again_run: "Reverse (app_transactions app0) 23 ''k3'' w_back =
    (Inr (TransactionFromModel tx3, 201), later w_back)"
  by (rule reverse_again_eval) (rule refl)

section \<open>Refused\<close>

definition req_big :: transfer_request where
  "req_big = \<lparr>tr_SourceWalletID = 12, tr_DestinationWalletID = 13, tr_AmountMinor = 1000, tr_Metadata = None\<rparr>"

lemma transfer_big: "fst (Transfer (app_transactions app0) req_big ''k9'' w_paid) = Inl (AppErr InsufficientFunds)"
  by (simp add: w_paid_def req1_def req2_def req_big_def tx1_def tx2_def run_rules cong: run_congs)

definition w_short :: "engine world" where
  "w_short = snd (Transfer (app_transactions app0) req_big ''k9'' w_paid)"

lemma transfer_big_run: "Transfer (app_transactions app0) req_big ''k9'' w_paid = (Inl (AppErr InsufficientFunds), w_short)"
  by (simp add: w_short_def prod_eq_iff transfer_big)

definition req_nobody :: top_up_request where
  "req_nobody = \<lparr>tu_WalletID = 99, tu_AmountMinor = 5, tu_Metadata = None\<rparr>"

lemma topup_nobody: "fst (TopUp (app_transactions app0) req_nobody ''k9'' w_paid) = Inl not_found"
  by (simp add: w_paid_def req1_def req2_def req_nobody_def tx1_def tx2_def run_rules cong: run_congs)

definition w_nobody :: "engine world" where
  "w_nobody = snd (TopUp (app_transactions app0) req_nobody ''k9'' w_paid)"

lemma topup_nobody_run: "TopUp (app_transactions app0) req_nobody ''k9'' w_paid = (Inl not_found, w_nobody)"
  by (simp add: w_nobody_def prod_eq_iff topup_nobody)

lemma reverse_twice: "fst (Reverse (app_transactions app0) 23 ''k9'' w_back) = Inl (AppErr AlreadyReversed)"
  by (simp add: w_back_def req1_def req2_def tx1_def tx2_def tx3_def run_rules endpoint_defs cong: run_congs)

definition w_twice :: "engine world" where
  "w_twice = snd (Reverse (app_transactions app0) 23 ''k9'' w_back)"

lemma reverse_twice_run: "Reverse (app_transactions app0) 23 ''k9'' w_back = (Inl (AppErr AlreadyReversed), w_twice)"
  by (simp add: w_twice_def prod_eq_iff reverse_twice)

section \<open>Suspended\<close>

lemmas status_runs [run_rules] = UpdateStatus_def [THEN fun_cong]

definition w_suspended :: "engine world" where
  "w_suspended = w_paid\<lparr>db := (db w_paid)\<lparr>wallets := [wallet_row 2 1001 1 (- 500) 1013,
     wallet_row 12 1005 10 300 1023, (wallet_row 13 1007 11 200 1029)\<lparr>wallet_Status := WalletStatusSuspended\<rparr>]\<rparr>,
     host := \<lparr>clock = 1030, next_uuid = 28, faults = []\<rparr>\<rparr>"

lemma suspend_eval: "P (snd (UpdateStatus (app_wallets app0) 13 WalletStatusSuspended w_paid)) \<Longrightarrow> P w_suspended"
  by (simp add: w_suspended_def w_paid_def run_rules cong: run_congs)

lemma suspend_run: "snd (UpdateStatus (app_wallets app0) 13 WalletStatusSuspended w_paid) = w_suspended"
  by (rule suspend_eval [of "\<lambda>w. _ = w"]) (rule refl)

lemma reverse_suspended: "map_sum id snd (fst (Reverse (app_transactions app0) 23 ''k3'' w_suspended)) = Inr 201"
  by (simp add: w_suspended_def w_paid_def req1_def req2_def tx1_def tx2_def run_rules endpoint_defs cong: run_congs)

section \<open>Beyond the range of a balance\<close>

definition req_max :: top_up_request where
  "req_max = \<lparr>tu_WalletID = 12, tu_AmountMinor = 9223372036854775807, tu_Metadata = None\<rparr>"

lemma topup_max: "case TopUp (app_transactions app0) req_max [] w_topup of (r, w') \<Rightarrow>
    map_sum id snd r = Inr 201 \<and> balances (db w') 12 = Some (- 9223372036854775309)"
  by (simp add: w_topup_def req1_def req_max_def tx1_def balances_def run_rules cong: run_congs)

section \<open>Reads\<close>

lemma suspended_run: "UpdateStatus (app_wallets app0) 13 WalletStatusSuspended w_paid =
    (Inr (WalletFromModel ((wallet_row 13 1007 11 200 1029)\<lparr>wallet_Status := WalletStatusSuspended\<rparr>)), w_suspended)"
proof -
  have "fst (UpdateStatus (app_wallets app0) 13 WalletStatusSuspended w_paid) =
      Inr (WalletFromModel ((wallet_row 13 1007 11 200 1029)\<lparr>wallet_Status := WalletStatusSuspended\<rparr>))"
    by (simp add: w_paid_def run_rules cong: run_congs)
  then show ?thesis using suspend_run by (simp add: prod_eq_iff)
qed

lemma open_run: "WalletService_Create (app_wallets app0) (open_wallet 10) w_bob =
    (Inr (WalletFromModel (wallet_row 12 1005 10 0 1005)), w_ann_wallet)"
proof -
  have "fst (WalletService_Create (app_wallets app0) (open_wallet 10) w_bob) =
      Inr (WalletFromModel (wallet_row 12 1005 10 0 1005))"
    by (simp add: w_bob_def w_ann_def w_seed_def sign_up_def open_wallet_def run_rules cong: run_congs)
  then show ?thesis by (simp add: prod_eq_iff w_ann_wallet_def)
qed

lemmas read_runs [run_rules] = GetBalance_def [THEN fun_cong] balance_from_database_def [THEN fun_cong]
  RedisBalanceCache_Get_def [THEN fun_cong] TransactionService_List_def [THEN fun_cong]
  TransactionRepository_List_def [THEN fun_cong]

lemma cache_get_run [run_rules]: "cache_Get (NewRedisBalanceCache eng_redis R ttl) i w = RedisBalanceCache_Get eng_redis R i w"
  "rGet eng_redis k w = bindE fault (\<lambda>_ w. (case kv w k of None \<Rightarrow> Inl redis_Nil | Some v \<Rightarrow> Inr v, w)) w"
  "gCount (eng_table tab upd pk clash live birth renew) P w = exec (\<lambda>t d.
     Inr (of_nat (length (filter (\<lambda>r. live r \<and> P r) (tab d))), d)) w"
  by (simp_all add: NewRedisBalanceCache_def eng_redis_def eng_table_def)

definition w_read :: "engine world" where
  "w_read = snd (GetBalance (app_wallets app0) 12 w_open)"

lemma balance_run: "GetBalance (app_wallets app0) 12 w_open =
    (Inr \<lparr>br_WalletID = 12, br_Currency = CurrencyTHB, br_BalanceMinor = 0, br_Source = ''database''\<rparr>, w_read)"
proof -
  have "fst (GetBalance (app_wallets app0) 12 w_open) =
      Inr \<lparr>br_WalletID = 12, br_Currency = CurrencyTHB, br_BalanceMinor = 0, br_Source = ''database''\<rparr>"
    by (simp add: w_open_eq run_rules cong: run_congs)
  then show ?thesis by (simp add: prod_eq_iff w_read_def)
qed

definition no_filters :: transaction_filters where
  "no_filters = \<lparr>filter_WalletID = None, filter_Type = None, filter_Status = None\<rparr>"

lemma cfg0_loads: "Load (\<lambda>_. None) = Inr cfg0"
  by (simp add: cfg0_def Load_def envInt_def envString_def Let_def)

definition w_list :: "engine world" where
  "w_list = snd (TransactionService_List (app_transactions app0) (- 3) 1000 no_filters w_paid)"

lemma list_run: "TransactionService_List (app_transactions app0) (- 3) 1000 no_filters w_paid =
    (Inr \<lparr>Items = map TransactionFromModel [tx2, tx1], Page = 1, Limit = 100, Total = 2\<rparr>, w_list)"
proof -
  have "ts_pagination (app_transactions app0) = \<lparr>defaultLimit = 20, maxLimit = 100\<rparr>"
    by (simp add: app0_def wire_defs cfg0_def Load_def envInt_def envString_def)
  then have "fst (TransactionService_List (app_transactions app0) (- 3) 1000 no_filters w_paid) =
      Inr \<lparr>Items = map TransactionFromModel [tx2, tx1], Page = 1, Limit = 100, Total = 2\<rparr>"
    by (simp add: w_paid_def tx1_def tx2_def no_filters_def filters_match_def normalizePage_def
        NormalizePagination_def run_rules cong: run_congs)
  then show ?thesis by (simp add: prod_eq_iff w_list_def)
qed

end
