(* ===== verification/CacheRuns.thy ===== *)
theory CacheRuns
  imports Runs Coherence
begin

text \<open>
  The two sides of the cache on the run of \<open>Scenario\<close>: a Redis that executes every SET keeps the
  entries exact, and one that loses the two writes of a transfer leaves the old balance behind.
\<close>

section \<open>A Redis that executes every SET\<close>

definition steady_redis :: "engine redis" where
  "steady_redis = eng_redis\<lparr>rSet := \<lambda>k v ttl w. (Inr (), w\<lparr>kv := (kv w)(k \<mapsto> v)\<rparr>)\<rparr>"

lemma steady_sets: "sets_reliable steady_redis"
  by (simp add: sets_reliable_def steady_redis_def)

interpretation steady: redis_laws steady_redis
proof (unfold_locales, goal_cases)
  case (1 k w v w')
  then show ?case by (intro eng_redis.Get_Inr) (simp add: steady_redis_def)
next
  case (2 k)
  show ?case using eng_redis.keeps_rGet by (simp add: steady_redis_def)
next
  case 3
  show ?case using eng_redis.keeps_rPing by (simp add: steady_redis_def)
next
  case (6 k w u w')
  then show ?case using eng_redis.Del_Inr by (simp add: steady_redis_def)
next
  case (7 k w e w')
  then show ?case using eng_redis.Del_Inl by (simp add: steady_redis_def)
next
  case (8 s vs w u w')
  then show ?case using eng_redis.XAdd_Inr by (simp add: steady_redis_def)
next
  case (9 s vs w e w')
  then show ?case using eng_redis.XAdd_Inl by (simp add: steady_redis_def)
qed (auto simp: steady_redis_def visible_def)

interpretation steady_app: app_laws eng_env steady_redis cfg for cfg
  by unfold_locales

lemma steady_app_laws: "app_laws eng_env steady_redis"
  by (rule steady_app.app_laws_axioms)

definition app1 :: "engine app" where
  "app1 = wire eng_env steady_redis cfg0"

lemma steady_runs [run_rules]:
  "us_env (app_users app1) = eng_env" "ws_env (app_wallets app1) = eng_env"
  "ts_env (app_transactions app1) = eng_env"
  "ts_cacheStore (app_transactions app1) =
     Some (NewRedisBalanceCache steady_redis eng_runtime (BalanceCacheTTL cfg0))"
  "ws_cacheStore (app_wallets app1) =
     Some (NewRedisBalanceCache steady_redis eng_runtime (BalanceCacheTTL cfg0))"
  "idempotencyTTL (app_transactions app1) = idempotencyTTL (app_transactions app0)"
  "rSet steady_redis k v ttl w = (Inr (), w\<lparr>kv := (kv w)(k \<mapsto> v)\<rparr>)"
  "rGet steady_redis = rGet eng_redis"
  "cache_Get (NewRedisBalanceCache steady_redis R ttl) i w = RedisBalanceCache_Get steady_redis R i w"
  by (simp_all add: app0_def app1_def eng_runtime_RT steady_redis_def wire_defs NewRedisBalanceCache_def)

lemma topup_steady_eval: "P (Inr (TransactionFromModel tx1, 201), w_topup) \<Longrightarrow>
    P (TopUp (app_transactions app1) req1 ''k1'' w_open)"
  by (simp add: w_topup_def req1_def tx1_def w_open_eq run_rules cong: run_congs)

lemma topup_steady_run: "TopUp (app_transactions app1) req1 ''k1'' w_open = (Inr (TransactionFromModel tx1, 201), w_topup)"
  by (rule topup_steady_eval) (rule refl)

text \<open>The steps before it do not use Redis.\<close>

lemma same_steps:
  "app_users app1 = app_users app0"
  "WalletService_Create (app_wallets app1) = WalletService_Create (app_wallets app0)"
  by (simp add: app0_def app1_def wire_defs) (simp only: fun_eq_iff WalletService_Create_def steady_runs app_runs, simp)

lemma steady_steps:
  "api_step app1 w (snd (UserService_Create (app_users app0) req w))"
  "api_step app1 w (snd (WalletService_Create (app_wallets app0) wreq w))"
  by (rule api_step.create_user, subst same_steps, rule prod.collapse [symmetric])
    (rule api_step.create_wallet, subst same_steps, rule prod.collapse [symmetric])

lemma steady_reachable: "reachable app1 w0 w_topup"
proof -
  note s = reachable.step
  have "reachable app1 w0 w_seed"
    by (rule s [OF reachable.start api_step.restart [OF trans [OF _ seed_run]]]) (simp add: steady_runs)
  then have "reachable app1 w0 w_ann" unfolding w_ann_def by (rule s [OF _ steady_steps(1)])
  then have "reachable app1 w0 w_bob" unfolding w_bob_def by (rule s [OF _ steady_steps(1)])
  then have "reachable app1 w0 w_ann_wallet" unfolding w_ann_wallet_def by (rule s [OF _ steady_steps(2)])
  then have "reachable app1 w0 w_open" unfolding w_open_def by (rule s [OF _ steady_steps(2)])
  then show ?thesis by (rule s [OF _ api_step.top_up [OF topup_steady_run]])
qed

lemma start_uncached: "\<forall>i. cached (RT eng_env) w0 i = None"
  by (simp add: cached_def w0_def)

definition w_look :: "engine world" where
  "w_look = snd (GetBalance (app_wallets app1) 12 w_topup)"

lemma balance_steady_run: "GetBalance (app_wallets app1) 12 w_topup =
    (Inr \<lparr>br_WalletID = 12, br_Currency = CurrencyTHB, br_BalanceMinor = 500, br_Source = ''redis''\<rparr>, w_look)"
proof -
  have "fst (GetBalance (app_wallets app1) 12 w_topup) =
      Inr \<lparr>br_WalletID = 12, br_Currency = CurrencyTHB, br_BalanceMinor = 500, br_Source = ''redis''\<rparr>"
    by (simp add: w_topup_def run_rules cong: run_congs)
  then show ?thesis by (simp add: prod_eq_iff w_look_def)
qed

section \<open>A transfer whose two writes to Redis are lost\<close>

definition w_flaky :: "engine world" where
  "w_flaky = w_topup\<lparr>host := (host w_topup)\<lparr>faults := [False, False, False, False, False, False, False, False, False, False, False, True, True]\<rparr>\<rparr>"

text \<open>
  It answers 201 and commits: the wallet holds 300 and its entry in Redis still says 500.
\<close>

lemma transfer_stale: "case Transfer (app_transactions app0) req2 ''k2'' w_flaky of (r, w') \<Rightarrow>
    map_sum id snd r = Inr 201 \<and> balances (db w') 12 = Some 300 \<and> cached eng_runtime w' 12 = Some 500"
  by (simp add: w_flaky_def w_topup_def req1_def req2_def tx1_def balances_def cached_def run_rules
      cong: run_congs)

lemma flaky_reachable: "reachable app0 w0 w_flaky"
  by (rule reachable.step [OF run_reachable(3) api_step.idle]) (simp add: w_flaky_def visible_def)

end
