(* ===== verification/FlightRuns.thy ===== *)
theory FlightRuns
  imports CacheRuns Races Flights
begin

text \<open>
  A late refresh on the run of \<open>Scenario\<close>, with a Redis that executes every SET: Ann's transfer of 200
  commits, then 500 are topped up and cached, then the transfer refreshes the cache. Redis
  says 300, the database 800.
\<close>

definition tx_late :: transaction where
  "tx_late = tx2\<lparr>CreatedAt := 1021, UpdatedAt := 1021\<rparr>"

definition w_spent :: "engine world" where
  "w_spent = w_topup\<lparr>db := (db w_topup)\<lparr>
     wallets := [wallet_row 2 1001 1 (- 500) 1013, wallet_row 12 1005 10 300 1022, wallet_row 13 1007 11 200 1023],
     transactions := [tx1, tx_late],
     ledger_entries := ledger_entries (db w_topup) @ [entry_row 24 23 12 LedgerEntryTypeDebit 200 1024,
       entry_row 25 23 13 LedgerEntryTypeCredit 200 1024],
     idempotency_keys := idempotency_keys (db w_topup) @
       [key_row 21 ''k2'' transferEndpoint (transfer_to_json eng_runtime req2) tx_late 1018],
     outbox_events := outbox_events (db w_topup) @ [event_row 27 26 ''transaction.completed'' tx_late 1025]\<rparr>,
   host := \<lparr>clock = 1027, next_uuid = 28, faults = []\<rparr>\<rparr>"

definition spent_rows :: "wallet list" where
  "spent_rows = [wallet_row 12 1005 10 300 1022, wallet_row 13 1007 11 200 1023]"

lemma spent_eval: "P (Inr (TransactionFromModel tx_late, spent_rows), w_spent) \<Longrightarrow>
    P (withTransaction eng_env (Transfer_tx (app_transactions app1) req2 ''k2'' race_hash) w_topup)"
  by (simp add: w_topup_def w_spent_def spent_rows_def req1_def req2_def tx1_def tx2_def tx_late_def race_hash_def
      run_rules cong: run_congs)

lemma spent_run: "withTransaction eng_env (Transfer_tx (app_transactions app1) req2 ''k2'' race_hash) w_topup =
    (Inr (TransactionFromModel tx_late, spent_rows), w_spent)"
  by (rule spent_eval) (rule refl)

text \<open>The top-up of another request, whole.\<close>

definition w_more :: "engine world" where
  "w_more = snd (TopUp (app_transactions app1) req1 ''k9'' w_spent)"

lemma more_balances: "balances (db w_spent) 12 = Some 300" "balances (db w_more) 12 = Some 800"
  by (simp add: balances_def w_spent_def wallet_row_def,
    simp add: balances_def w_more_def w_topup_def w_spent_def req1_def req2_def tx1_def tx2_def tx_late_def run_rules
      cong: run_congs)

text \<open>The refresh of the transfer.\<close>

definition w_late :: "engine world" where
  "w_late = snd (touchedWallets (ts_cacheStore (app_transactions app1)) spent_rows w_more)"

lemma late_run: "\<exists>r. touchedWallets (ts_cacheStore (app_transactions app1)) spent_rows w_more = (r, w_late)"
  unfolding w_late_def by (metis prod.collapse)

end
