(* ===== verification/ProgramRuns.thy ===== *)
theory ProgramRuns
  imports Program FlightRuns
begin

text \<open>
  Runs of the whole program on the reference engine: one that seeds an empty database, serves the
  requests of \<open>Scenario\<close> and stops, and one that cannot reach the database.
\<close>

definition eng_platform :: "engine platform" where
  "eng_platform = \<lparr>gorm_Open = (\<lambda>dsn. bindE fault (\<lambda>_. returnE eng_gorm)), sql_DB = (\<lambda>d. returnE ()),
     sql_Ping = (\<lambda>d. fault), sql_Close = (\<lambda>d. returnE ()), gorm_AutoMigrate = (\<lambda>d models. fault),
     redis_NewClient = (\<lambda>opts. eng_redis), redis_Close = (\<lambda>c. returnE ()), http_Shutdown = (\<lambda>t. returnE ())\<rparr>"

lemma keeps_fault: "keeps visible fault"
  by (auto simp: keeps_def dest: fault_visible)

interpretation eng_platform: platform_laws eng_runtime eng_platform
proof (rule platform_laws.intro [OF eng_runtime.runtime_laws_axioms platform_laws_axioms.intro], goal_cases)
  case (1 dsn w d w')
  then have "d = eng_gorm" by (simp add: eng_platform_def prog_simps)
  then show ?case using env_laws.axioms(1) [OF app_laws.axioms(1) [OF eng_app_laws]] by (simp add: eng_env_def)
next
  case (2 opts)
  show ?case using app_laws.axioms(2) [OF eng_app_laws] by (simp add: eng_platform_def)
qed (auto simp: eng_platform_def intro!: keeps_intros keeps_fault)

lemma eng_platform_laws: "platform_laws eng_runtime eng_platform"
  by (rule eng_platform.platform_laws_axioms)

section \<open>A run that serves\<close>

definition srv0 :: "engine server" where
  "srv0 = \<lparr>srv_config = cfg0, srv_db = eng_gorm, srv_redis = eng_redis, srv_app = app0,
     srv_api = mount eng_env eng_redis cfg0 eng_decoder (returnE ()) fault\<rparr>"

lemma start_healthy:
  assumes "Load env = Inr cfg" "faults (host w) = []"
  shows "main_start eng_platform eng_runtime eng_decoder env w =
    (case SeedSystemAccounts eng_env w of (Inl e, w') \<Rightarrow> (Inl (''seed system accounts: '' @ Error e), w')
     | (Inr u, w') \<Rightarrow> (Inr \<lparr>srv_config = cfg, srv_db = eng_gorm, srv_redis = eng_redis, srv_app = wire eng_env eng_redis cfg,
         srv_api = mount eng_env eng_redis cfg eng_decoder (returnE ()) fault\<rparr>, w'))"
proof -
  have f: "fault w = (Inr (), w)" using assms(2) by (simp add: fault_def)
  have "OpenPostgres eng_platform (DBDSN cfg) w = (Inr eng_gorm, w)" "AutoMigrate eng_platform eng_gorm w = (Inr (), w)"
    by (simp_all add: OpenPostgres_def AutoMigrate_def eng_platform_def bindE_def onErr_def handleE_def returnE_def f)
  with assms(1) show ?thesis
    by (cases "SeedSystemAccounts eng_env w"; cases "fst (SeedSystemAccounts eng_env w)")
      (simp_all add: main_start_def bindE_def onErr_def handleE_def liftR_def throwE_def returnE_def Let_def
        NewRedisClient_def eng_platform_def eng_env_def [symmetric])
qed

lemma start_run: "main_start eng_platform eng_runtime eng_decoder (\<lambda>_. None) w0 = (Inr srv0, w_seed)"
proof -
  have "faults (host w0) = []" by (simp add: w0_def)
  from start_healthy [OF cfg0_loads this] seed_run show ?thesis by (simp add: srv0_def app0_def)
qed

lemma served: "interleaved app0 w_seed w_paid"
proof -
  note s = reachable.step
  have "reachable app0 w_seed w_ann" unfolding w_ann_def
    by (rule s [OF reachable.start api_step.create_user [OF prod.collapse [symmetric]]])
  then have "reachable app0 w_seed w_bob" unfolding w_bob_def
    by (rule s [OF _ api_step.create_user [OF prod.collapse [symmetric]]])
  then have "reachable app0 w_seed w_ann_wallet" unfolding w_ann_wallet_def
    by (rule s [OF _ api_step.create_wallet [OF prod.collapse [symmetric]]])
  then have "reachable app0 w_seed w_open" unfolding w_open_def
    by (rule s [OF _ api_step.create_wallet [OF prod.collapse [symmetric]]])
  then have "reachable app0 w_seed w_topup" by (rule s [OF _ api_step.top_up [OF topup_run]])
  then have "reachable app0 w_seed w_paid" by (rule s [OF _ api_step.transfer [OF transfer_run]])
  then show ?thesis unfolding app0_def by (rule app_laws.reachable_interleaved [OF eng_app_laws])
qed

lemma main_served: "main_run eng_platform eng_runtime eng_decoder (\<lambda>_. None) w0 (Exit (serve_lines srv0 None)) w_paid"
proof -
  have stops: "stop_server eng_platform srv0 w = ([], w)" "stop_redis eng_platform srv0 w = ([], w)"
    "stop_database eng_platform srv0 w = ([], w)" for w
    by (simp_all add: stop_server_def stop_redis_def stop_database_def closing_def eng_platform_def returnE_def)
  have i: "interleaved (srv_app srv0) w_seed w_paid" using served by (simp add: srv0_def)
  from main_run.stopped [OF start_run i stops(1) interleaved.nothing stops(2) interleaved.nothing stops(3), of None]
  show ?thesis by simp
qed

section \<open>A database that does not answer\<close>

lemma main_unreachable: "main_run eng_platform eng_runtime eng_decoder (\<lambda>_. None)
    (w_paid\<lparr>host := (host w_paid)\<lparr>faults := [False, True]\<rparr>\<rparr>)
    (Fatal ''open postgres: ping database: connection reset'') w_paid"
proof (rule main_run.fatal)
  show "main_start eng_platform eng_runtime eng_decoder (\<lambda>_. None) (w_paid\<lparr>host := (host w_paid)\<lparr>faults := [False, True]\<rparr>\<rparr>) =
      (Inl ''open postgres: ping database: connection reset'', w_paid)"
    using cfg0_loads
    by (simp add: main_start_def OpenPostgres_def eng_platform_def fault_def bindE_def onErr_def handleE_def liftR_def
        returnE_def throwE_def Errorf_def w_paid_def)
qed

end
