(* ===== verification/Spec2Isabelle.thy ===== *)
theory Spec2Isabelle
  imports ProgramRuns
begin

text \<open>
  A verification library for the digital wallet service, a Go program (\<open>src/cmd\<close>, \<open>src/internal\<close>) with
  an HTTP API over PostgreSQL and Redis: users own a wallet each, money is topped up from a system
  wallet, transferred between wallets and given back by reversals, under idempotency keys, with a
  double-entry ledger, a cache of balances in Redis and an outbox of events a worker publishes.

  \<^bold>\<open>The parts and their theories.\<close> A Go function that may fail is a program of \<open>Prelude\<close>: state in,
  a sum (error or result) and the state out; the state is the world of \<open>World\<close> (the database, the
  keys and the streams of Redis, and a hidden part). Definitions keep the names of the source.

  \<^item> \<open>Prelude\<close>: the error-and-state programs, their rules, lists of rows. \<open>Strconv\<close>: \<open>strconv.Atoi\<close>,
    \<open>ParseInt\<close>, \<open>FormatInt\<close>. \<open>World\<close>: the runtime (identifiers, clock, hash), the world, creation hooks.
  \<^item> \<open>AppError\<close>: \<open>internal/apperror\<close>. \<open>Config\<close>: \<open>internal/config\<close> with \<open>time.ParseDuration\<close>.
    \<open>Model\<close>: \<open>internal/model\<close>, the rows and the unique indexes. \<open>Dto\<close>: \<open>internal/dto\<close> with the JSON of
    what is hashed and stored.
  \<^item> \<open>Gorm\<close>: the statements of gorm the program uses, as laws. \<open>Store\<close>: a reference engine that obeys
    them, with faults. \<open>Repository\<close>: \<open>internal/repository\<close>.
  \<^item> \<open>Cache\<close>: \<open>internal/cache\<close> over the laws of a Redis client; the Go interface \<open>BalanceCache\<close> is a record
    and its contract a locale. \<open>Event\<close>: \<open>internal/event\<close>, the payload, the publisher and the worker.
  \<^item> \<open>Helpers\<close>, \<open>UserService\<close> (users and wallets), \<open>TransactionService\<close>: \<open>internal/service\<close>.
  \<^item> \<open>Handler\<close>: \<open>internal/handler\<close> and the request ID of \<open>internal/middleware\<close>. \<open>System\<close>: the wiring of
    \<open>cmd/api/main.go\<close>, the steps of the program and its deployments; \<open>Http\<close>: the mounted API; \<open>Logging\<close>:
    \<open>middleware/logging.go\<close> and the chain of middleware around a handler.
  \<^item> \<open>Program\<close>: a run of \<open>main\<close>. It starts (\<open>main_start\<close>: configuration, \<open>OpenPostgres\<close>, \<open>AutoMigrate\<close>, the
    system accounts, the wiring; an error ends it with the text of \<open>log.Fatalf\<close>), serves, and stops
    (\<open>stop_server\<close>, \<open>stop_redis\<close>, \<open>stop_database\<close>), or is killed.

  \<^bold>\<open>What the lemmas show.\<close>
  \<^item> The abstract program is a balance sheet with one operation, \<open>move\<close>, and a ledger. \<open>Ledger\<close> has the
    invariant \<open>inv_db\<close> of the database and \<open>posting\<close>, what a booking may do to it; \<open>Money\<close> and
    \<open>Postings\<close> show that the bodies of the three database transactions make postings, \<open>Reasons\<close> which
    errors they may return and why, \<open>Operations\<close> and \<open>Outcomes\<close> that the whole operations replay, book or
    fail without a trace, \<open>Solvency\<close> that no balance wraps in range, \<open>History\<close> that rows are only added.
  \<^item> \<open>Delivery\<close>: no event is lost, and a backlog is published while the systems are up. \<open>Progress\<close>: a
    valid request succeeds while they are. \<open>Guarantees\<close>: users, wallets, reads, pages.
    \<open>Coherence\<close>: the cache beside the database, restarts, and the worker's loop.
  \<^item> \<open>Interleaving\<close>: the calls of concurrent requests in any order. A database transaction is one phase:
    each locks the rows it changes (\<open>SELECT ... FOR UPDATE\<close>) before it reads them, and the keys it
    inserts are unique; what is outside a transaction is one phase per call. Every run of whole
    operations is a run of phases, and the invariant holds in all of them but for \<open>UpdateStatus\<close>,
    whose lost update is C39. \<open>Flights\<close> adds what the requests hold and may still write to Redis: the
    cache only ever shows balances that were real (C31), but late writes can leave old ones (C33).
  \<^item> \<open>Scenario\<close>, \<open>Runs\<close>, \<open>CacheRuns\<close>, \<open>Races\<close>, \<open>FlightRuns\<close>, \<open>ProgramRuns\<close>: the program evaluated on the reference engine, from an
    empty database, for the witnesses.

  \<^bold>\<open>Parameters.\<close> gorm with PostgreSQL (\<open>gorm_laws\<close>), the Redis client (\<open>redis_laws\<close>), identifiers, clock
  and hash (\<open>runtime_laws\<close>; no property of the hash is assumed), gin's binding and validation of bodies
  (\<open>decoder_laws\<close>), opening and closing the drivers (\<open>platform_laws\<close>). The laws let any call fail, and any call to Redis that fails take effect; the
  \<open>_up\<close> locales add that calls succeed while the systems are up, which only the theorems that
  something returns use. A transaction that reports an error is taken to be rolled back. \<open>Store\<close> and
  \<open>Cache\<close> interpret every locale at the reference engine, so the laws can hold together.

  \<^bold>\<open>Bounds.\<close> Amounts and balances are 64-bit words and wrap as Go's do. \<open>worker_loop\<close> is the loop of the
  worker as it is written and may not return; \<open>worker_run\<close> is the loop over the number of ticks before
  the context is done. C37 relates the two, C18 says how many ticks a backlog needs.

  \<^bold>\<open>Not modelled.\<close> Signals, and how the HTTP server accepts and drains connections: a run serves an
  interleaving of calls and then stops. The DDL that \<open>AutoMigrate\<close> issues (the unique indexes are in
  \<open>Model\<close>); the log lines other than the middleware's and \<open>main\<close>'s; gin's path matching, panics and recovery
  (so the panic of \<open>time.NewTicker\<close> on an interval that is not positive); the bytes of JSON texts (a JSON
  value is a tree); the tags \<open>email\<close> and \<open>max\<close> of the validator; expiry in Redis beyond that any key may
  be gone when read; a commit whose outcome the client does not learn; the constructors of the
  repositories and \<open>WithTx\<close>, which wrap a handle; \<open>internal/testutil\<close> and the tests, which are not part of
  the program. Cancelled contexts are errors like any other.
\<close>

section \<open>Money operations\<close>



text \<open>
  C2. A top-up that succeeds under a key not used for top-ups before books exactly one transaction of
  its amount from the system wallet to the destination, which is live and active. No funds are asked
  of the system wallet.
\<close>

theorem TopUp_books:
  assumes "app_laws E client" "deployed (wire E client cfg) w"
    and "TopUp (app_transactions (wire E client cfg)) req key w = (Inr (resp, st), w')"
    and "key \<notin> idem_Key ` {k \<in> set (idempotency_keys (db w)). idem_Endpoint k = topUpEndpoint}"
  shows "st = 201 \<and> streams w' = streams w \<and> (\<exists>t. booked (RT E) (db w) t (db w') \<and>
    transactions (db w') = transactions (db w) @ [t] \<and> resp = TransactionFromModel t \<and>
    Type t = TransactionTypeTopUp \<and> AmountMinor t = tu_AmountMinor req \<and>
    SourceWalletID t = Some SystemWalletID \<and> DestinationWalletID t = Some (tu_WalletID req) \<and>
    (\<exists>y. live_wallet (db w) (tu_WalletID req) y \<and> IsActive y))"
proof (rule app_laws.TopUp_cases [OF assms(1-3)], goal_cases)
  case 1
  then show ?case using assms(4) replays_record by blast
qed blast

theorem TopUp_books_witness:
  "\<exists>t. booked eng_runtime (db w_open) t (db w_topup) \<and> AmountMinor t = 500"
proof -
  have "''k1'' \<notin> idem_Key ` {k \<in> set (idempotency_keys (db w_open)). idem_Endpoint k = topUpEndpoint}"
    by (simp add: w_open_eq empty_db_def)
  from TopUp_books [OF eng_app_laws run_deployed(2) [unfolded app0_def] topup_run [unfolded app0_def] this]
  show ?thesis by (auto simp: env_runs req1_def)
qed

text \<open>
  C3. A reversal that succeeds under a key not used for reversals before books one transaction that
  moves the amount of the original, a completed top-up or transfer, back from its destination, which
  holds the amount, to its source; the original is marked reversed and no other transaction changes.
\<close>

theorem Reverse_books:
  assumes "app_laws E client" "deployed (wire E client cfg) w"
    and "Reverse (app_transactions (wire E client cfg)) i key w = (Inr (resp, st), w')"
    and "key \<notin> idem_Key ` {k \<in> set (idempotency_keys (db w)). idem_Endpoint k = reverseEndpoint}"
  shows "st = 201 \<and> streams w' = streams w \<and> (\<exists>t orig at. booked (RT E) (db w) t (db w') \<and>
    resp = TransactionFromModel t \<and> Type t = TransactionTypeReversal \<and>
    orig \<in> set (transactions (db w)) \<and> ID orig = i \<and> Status orig = TransactionStatusCompleted \<and>
    Type orig \<noteq> TransactionTypeReversal \<and> RelatedTransactionID t = Some i \<and>
    transactions (db w') = map (\<lambda>x. if ID x = i then touch at (x\<lparr>Status := TransactionStatusReversed\<rparr>) else x)
      (transactions (db w)) @ [t] \<and>
    SourceWalletID t = DestinationWalletID orig \<and> DestinationWalletID t = SourceWalletID orig \<and>
    AmountMinor t = AmountMinor orig \<and>
    (\<exists>b y. DestinationWalletID orig = Some b \<and> live_wallet (db w) b y \<and>
      sint (AmountMinor orig) \<le> sint (BalanceCachedMinor y)))"
proof (rule app_laws.Reverse_cases [OF assms(1-3)], goal_cases)
  case 1
  then show ?case using assms(4) replays_record by blast
next
  case (2 t orig at b y)
  from 2(4) have "transactions (db w') = map (\<lambda>x. if ID x = i
      then touch at (x\<lparr>Status := TransactionStatusReversed\<rparr>) else x) (transactions (db w)) @ [t]"
    by (simp add: mark_reversed_def)
  with 2 show ?case by blast
qed

theorem Reverse_books_witness:
  "\<exists>t. booked eng_runtime (db w_paid) t (db w_back) \<and> RelatedTransactionID t = Some 23"
proof -
  have "''k3'' \<notin> idem_Key ` {k \<in> set (idempotency_keys (db w_paid)). idem_Endpoint k = reverseEndpoint}"
    by (auto simp: w_paid_def key_row_def endpoint_defs)
  from Reverse_books [OF eng_app_laws run_deployed(4) [unfolded app0_def] reverse_run [unfolded app0_def] this]
  show ?thesis by (auto simp: env_runs)
qed

text \<open>
  C4. In every deployment the balance of each wallet is the sum of its ledger entries, every
  transaction has exactly its debit and its credit in the ledger, no entry is without its
  transaction and its wallet, and all balances, the system wallet's included, sum to zero.
\<close>

theorem ledger_consistent:
  assumes "app_laws E client" "deployed (wire E client cfg) w"
  shows "ledger_ok (db w) \<and> double_entry (db w) \<and> total_balance (db w) = 0"
  using app_laws.deployed_inv [OF assms] by (simp add: inv_db_def)

theorem ledger_consistent_witness:
  "ledger_ok (db w_paid) \<and> double_entry (db w_paid) \<and> total_balance (db w_paid) = 0"
  by (rule ledger_consistent [OF eng_app_laws run_deployed(4) [unfolded app0_def]])

text \<open>
  C5. When a transfer succeeded under a key, a second transfer that succeeds under that key, at any
  later time, has the same response and status, changes nothing that is stored, cached or
  published, and its request has the hash of the first.
\<close>

theorem Transfer_retry:
  assumes "app_laws E client" "deployed (wire E client cfg) w" "key \<noteq> []"
    and "Transfer (app_transactions (wire E client cfg)) req key w = (Inr (resp, st), w1)"
    and "reachable (wire E client cfg) w1 w2"
    and "Transfer (app_transactions (wire E client cfg)) again key w2 = (Inr (resp2, st2), w3)"
  shows "resp2 = resp \<and> st2 = st \<and> visible w3 = visible w2 \<and>
    sha256_hex (RT E) (transfer_to_json (RT E) again) = sha256_hex (RT E) (transfer_to_json (RT E) req)"
proof -
  note step = api_step.transfer [OF assms(4)]
  note later = deployed_later [OF deployed_step [OF assms(2) step] assms(5)]
  from app_laws.retry [OF assms(1,2) step app_laws.app_outcomes(2) [OF assms(1,2,4)] assms(3,5)
      app_laws.app_outcomes(2) [OF assms(1) later assms(6)]]
  show ?thesis by simp
qed

theorem Transfer_retry_witness:
  "Transfer (app_transactions app0) req2 ''k2'' w_paid = (Inr (TransactionFromModel tx2, 201), later w_paid) \<and>
    visible (later w_paid) = visible w_paid"
proof (rule conjI [OF transfer_again_run])
  have "''k2'' \<noteq> []" by simp
  from Transfer_retry [OF eng_app_laws run_deployed(3) [unfolded app0_def] this transfer_run [unfolded app0_def]
      reachable.start transfer_again_run [unfolded app0_def]]
  show "visible (later w_paid) = visible w_paid" by blast
qed



text \<open>
  C7. Once a reversal of a transaction was booked, no later reversal of it books again, under any
  key: one that succeeds is a replay and changes nothing.
\<close>

theorem Reverse_once:
  assumes "app_laws E client" "deployed (wire E client cfg) w"
    and "Reverse (app_transactions (wire E client cfg)) i key w = (Inr (resp, st), w1)"
    and "key \<notin> idem_Key ` {k \<in> set (idempotency_keys (db w)). idem_Endpoint k = reverseEndpoint}"
    and "reachable (wire E client cfg) w1 w2"
    and "Reverse (app_transactions (wire E client cfg)) i key2 w2 = (Inr (resp2, st2), w3)"
  shows "visible w3 = visible w2"
  by (rule app_laws.reverse_final [OF assms])

theorem Reverse_once_witness:
  "Reverse (app_transactions app0) 23 ''k3'' w_back = (Inr (TransactionFromModel tx3, 201), later w_back) \<and>
    visible (later w_back) = visible w_back"
proof (rule conjI [OF reverse_again_run])
  have k: "''k3'' \<notin> idem_Key ` {k \<in> set (idempotency_keys (db w_paid)). idem_Endpoint k = reverseEndpoint}"
    by (auto simp: w_paid_def key_row_def endpoint_defs)
  show "visible (later w_back) = visible w_back"
    by (rule Reverse_once [OF eng_app_laws run_deployed(4) [unfolded app0_def] reverse_run [unfolded app0_def] k
        reachable.start reverse_again_run [unfolded app0_def]])
qed

text \<open>
  C8. In every deployment a transaction has one reversal when it is marked reversed and none
  otherwise, and every reversal mirrors the wallets, amount and currency of a top-up or transfer
  that is marked reversed.
\<close>

theorem reversals_unique:
  assumes "app_laws E client" "deployed (wire E client cfg) w"
  shows "reversals_ok (db w)"
  using app_laws.deployed_inv [OF assms] by (simp add: inv_db_def)

theorem reversals_unique_witness:
  "reversals_ok (db w_back)"
  by (rule reversals_unique [OF eng_app_laws run_deployed(5) [unfolded app0_def]])

text \<open>
  C9. Whatever operations follow, history is only extended: the ledger, the idempotency records and
  the outbox contents keep every row in place, a transaction at most goes from completed to
  reversed, and wallets and users keep their place and their keys.
\<close>

theorem history_kept:
  assumes "app_laws E client" "deployed (wire E client cfg) w" "reachable (wire E client cfg) w w'"
  shows "extends (db w) (db w')"
  by (rule app_laws.deployed_extends [OF assms])

theorem history_kept_witness:
  "extends (db w_paid) (db w_back)"
  by (rule history_kept [OF eng_app_laws run_deployed(4) [unfolded app0_def]
      reachable_one [OF api_step.reverse [OF reverse_run [unfolded app0_def]]]])

text \<open>
  C10. In every deployment the outbox holds, in order, exactly one event per transaction: it decodes
  to the fields of the transaction, and its type says whether the transaction is a reversal.
\<close>

theorem outbox_complete:
  assumes "app_laws E client" "deployed (wire E client cfg) w"
  shows "list_all2 (event_of (RT E)) (outbox_events (db w)) (transactions (db w))"
  using app_laws.deployed_inv [OF assms] by (simp add: inv_db_def outbox_ok_def)

theorem outbox_complete_witness:
  "list_all2 (event_of (RT eng_env)) (outbox_events (db w_back)) (transactions (db w_back))"
  by (rule outbox_complete [OF eng_app_laws run_deployed(5) [unfolded app0_def]])

text \<open>
  C11. In every deployment the idempotency records are exactly those of the transactions made under
  a key: each has its status 201, its stored body decodes to the response the transaction had when
  it was booked, and every transaction under a key has one.
\<close>

theorem idempotency_records:
  assumes "app_laws E client" "deployed (wire E client cfg) w"
  shows "idempotency_ok (RT E) (db w)"
  using app_laws.deployed_inv [OF assms] by (simp add: inv_db_def)

theorem idempotency_records_witness:
  "idempotency_ok (RT eng_env) (db w_back)"
  by (rule idempotency_records [OF eng_app_laws run_deployed(5) [unfolded app0_def]])







text \<open>
  C15. The code checks no overflow, but while the amounts booked are positive and add up to less
  than 2^63, no balance wraps: every balance is within the volume booked, and only the system
  wallet is ever below zero.
\<close>

theorem no_overdraft:
  assumes "app_laws E client" "reachable (wire E client cfg) s0 w" "db s0 = empty_db" "in_range (db w)"
  shows "solvent (db w)"
  by (rule app_laws.deployed_solvent [OF assms])

theorem no_overdraft_witness:
  "in_range (db w_paid) \<and> solvent (db w_paid)"
proof -
  obtain s0 where s0: "reachable (wire eng_env eng_redis cfg0) s0 w_paid" "db s0 = empty_db"
    using run_deployed(4) [unfolded app0_def] unfolding deployed_def by blast
  have "in_range (db w_paid)" by (simp add: in_range_def volume_def w_paid_def tx1_def tx2_def)
  with no_overdraft [OF eng_app_laws s0 this] show ?thesis by blast
qed

section \<open>Delivery of events\<close>

text \<open>
  C16. In every world the program reaches from an empty database and an empty stream, an outbox
  event is pending, or published with its message on the stream; and every message on the stream is
  that of an event of the outbox. A batch may fail anywhere: nothing is lost.
\<close>

theorem published_sent:
  assumes "app_laws E client" "reachable (wire E client cfg) s0 w" "db s0 = empty_db" "streams s0 = []"
  shows "delivered (app_worker (wire E client cfg)) w"
  by (rule app_laws.deployed_delivered [OF assms])

theorem published_sent_witness:
  "delivered (app_worker app0) w_back"
  unfolding app0_def
  by (rule published_sent [OF eng_app_laws run_reachable(5) [unfolded app0_def] run_start])

text \<open>
  C17. Every message on the stream is in the stream of the wallet events and carries the fields of a
  transaction of the database, with the type that says whether it is a reversal.
\<close>

theorem messages_of_transactions:
  assumes "app_laws E client" "reachable (wire E client cfg) s0 w" "db s0 = empty_db" "streams s0 = []"
    and "q \<in> set (streams w)"
  shows "\<exists>t\<in>set (transactions (db w)). \<exists>eid. q =
    (StreamName, ToStreamValues (RT E) (event_payload eid (event_type_of t) t))"
  by (rule app_laws.deployed_messages [OF assms])

theorem messages_of_transactions_witness:
  "\<exists>(w :: engine world) q. q \<in> set (streams w) \<and> (\<exists>t\<in>set (transactions (db w)). \<exists>eid. q =
    (StreamName, ToStreamValues (RT eng_env) (event_payload eid (event_type_of t) t)))"
proof -
  from paid_published obtain w' where w': "reachable (wire eng_env eng_redis cfg0) w0 w'" "streams w' \<noteq> []"
    unfolding app0_def by blast
  note q = hd_in_set [OF w'(2)]
  with messages_of_transactions [OF eng_app_laws w'(1) run_start q] show ?thesis by blast
qed

text \<open>
  C18. While the database, Redis and the runtime are up, the worker started on a backlog of at most
  (ticks + 1) batches returns after the ticks with every event of the outbox published and its
  message on the stream, whatever the size of the batch, and changes no content of an event.
\<close>

theorem backlog_published:
  assumes "app_up E client up" "reachable (wire E client cfg) s0 w" "db s0 = empty_db" "streams s0 = []"
    and "up w" "0 < sint (OutboxBatchSize cfg)"
    and "length (pending (db w)) \<le> (ticks + 1) * nat (sint (OutboxBatchSize cfg))"
  shows "\<exists>w'. worker_run (app_worker (wire E client cfg)) ticks w = (Inr (), w') \<and> up w' \<and>
    (\<forall>e\<in>set (outbox_events (db w')). outbox_Status e = OutboxStatusPublished \<and>
      sent (app_worker (wire E client cfg)) w' e) \<and>
    map core (outbox_events (db w')) = map core (outbox_events (db w))"
  by (rule app_up.backlog_drained [OF assms])

theorem backlog_published_witness:
  "\<exists>w'. worker_run (app_worker app0) 0 w_paid = (Inr (), w') \<and>
    (\<forall>e\<in>set (outbox_events (db w')). outbox_Status e = OutboxStatusPublished)"
  using backlog_published [OF eng_app_up run_reachable(4) [unfolded app0_def] run_start paid_healthy
      cfg0_batch(1) paid_pending] unfolding app0_def by blast

section \<open>Requests that succeed\<close>







text \<open>
  C22. While the systems are up, a transfer whose key has a record of the same request returns the
  recorded response and status, and changes nothing.
\<close>

theorem Transfer_replay_returns:
  assumes "app_up E client up" "up w" "deployed (wire E client cfg) w" "key \<noteq> []"
    and "tr_SourceWalletID req \<noteq> tr_DestinationWalletID req"
    and "replays (RT E) key transferEndpoint (sha256_hex (RT E) (transfer_to_json (RT E) req)) (db w) resp st"
  shows "\<exists>w'. Transfer (app_transactions (wire E client cfg)) req key w = (Inr (resp, st), w') \<and>
    up w' \<and> visible w' = visible w"
  by (rule app_up.Transfer_replays [OF assms])

theorem Transfer_replay_returns_witness:
  "\<exists>w'. Transfer (app_transactions app0) req2 ''k2'' w_paid = (Inr (TransactionFromModel tx2, 201), w') \<and>
    visible w' = visible w_paid"
proof -
  have n: "''k2'' \<noteq> []" "tr_SourceWalletID req2 \<noteq> tr_DestinationWalletID req2" by (simp_all add: req2_def)
  have r: "replays (RT eng_env) ''k2'' transferEndpoint
      (sha256_hex (RT eng_env) (transfer_to_json (RT eng_env) req2)) (db w_paid) (TransactionFromModel tx2) 201"
    by (simp add: replays_def w_paid_def key_row_def env_runs eng_runtime.response_json_roundtrip
        TransactionFromModel_def tx2_def)
  from Transfer_replay_returns [OF eng_app_up paid_healthy run_deployed(4) [unfolded app0_def] n r]
  show ?thesis unfolding app0_def by blast
qed

section \<open>The API\<close>



text \<open>
  C24. Through the API every amount booked is positive, so as long as the amounts add up to less
  than 2^63 no balance wraps and only the system wallet is ever below zero.
\<close>

theorem api_no_overdraft:
  assumes "http_laws E client B sqlDB ping"
    and "http_reachable (mount E client cfg B sqlDB ping) (wire E client cfg) s0 w" "db s0 = empty_db"
    and "volume (db w) < 2 ^ 63"
  shows "amounts_positive (db w) \<and> solvent (db w)"
  using http_laws.http_amounts [OF assms(1-3)] http_laws.http_solvent [OF assms] by blast

theorem api_no_overdraft_witness: "amounts_positive (db w_topup) \<and> solvent (db w_topup)"
proof (rule api_no_overdraft [OF eng_http_laws http_reached [unfolded api0_def app0_def] run_start(1)])
  show "volume (db w_topup) < 2 ^ 63" by (simp add: volume_def w_topup_def tx1_def)
qed

text \<open>
  C25. Through the API the statuses of users and wallets and the currency of wallets only ever hold
  the values the model names.
\<close>

theorem api_values:
  assumes "http_laws E client B sqlDB ping"
    and "http_reachable (mount E client cfg B sqlDB ping) (wire E client cfg) s0 w" "db s0 = empty_db"
  shows "values_ok (db w)"
  by (rule http_laws.http_values [OF assms])

theorem api_values_witness: "values_ok (db w_topup)"
  by (rule api_values [OF eng_http_laws http_reached [unfolded api0_def app0_def] run_start(1)])

text \<open>
  C26. In every deployment the three endpoints that move money answer 201 with a transaction of the
  database as it was booked, or one of 400, 404, 409, 422 and 500 with nothing changed.
\<close>

theorem money_endpoints_answer:
  assumes "http_laws E client B sqlDB ping" "deployed (wire E client cfg) w"
    and "endpoint \<in> {topUp, transfer, reverseTransaction}"
    and "endpoint (mount E client cfg B sqlDB ping) c w = (resp, w')"
  shows "answers resp w w'"
  using http_laws.money_endpoints [OF assms(1,2)] assms(3,4) by blast

theorem money_endpoints_answer_witness:
  "answers (fst (topUp api0 (with_body ''k1'' (http_tail 12 ''500'')) w_open)) w_open
    (snd (topUp api0 (with_body ''k1'' (http_tail 12 ''500'')) w_open))"
  unfolding api0_def
  by (rule money_endpoints_answer [OF eng_http_laws run_deployed(2) [unfolded app0_def] _ prod.collapse [symmetric]])
    simp

section \<open>Users and wallets\<close>

text \<open>
  C27. In every deployment no two users share an email, a phone number or an external reference,
  deleted users included, no user owns two wallets, no two transactions share a reference code, and
  no key has two records for an endpoint.
\<close>

theorem keys_never_shared:
  assumes "app_laws E client" "deployed (wire E client cfg) w"
  shows "keys_unique (db w)"
  using app_laws.deployed_wf [OF assms] by (blast intro: wf_db_keys)

theorem keys_never_shared_witness: "keys_unique (db w_back)"
  by (rule keys_never_shared [OF eng_app_laws run_deployed(5) [unfolded app0_def]])

text \<open>
  C28. A wallet is only opened for a live and active user that has none: it is active and empty, and
  no other row, cached balance or message changes.
\<close>

theorem wallet_opened:
  assumes "app_laws E client"
    and "WalletService_Create (app_wallets (wire E client cfg)) req w = (Inr resp, w')"
  shows "\<exists>u wl. u \<in> set (users (db w)) \<and> user_live u \<and> ID u = cw_UserID req \<and>
    user_Status u = UserStatusActive \<and> UserID wl = cw_UserID req \<and> BalanceCachedMinor wl = 0 \<and>
    IsActive wl \<and> wallet_live wl \<and> (\<forall>x\<in>set (wallets (db w)). UserID x \<noteq> cw_UserID req) \<and>
    resp = WalletFromModel wl \<and>
    visible w' = ((db w)\<lparr>wallets := wallets (db w) @ [wl]\<rparr>, kv w, streams w)"
  by (rule app_laws.create_wallet_books [OF assms])

theorem wallet_opened_witness: "\<exists>u\<in>set (users (db w_bob)). ID u = 10 \<and> user_Status u = UserStatusActive"
  using wallet_opened [OF eng_app_laws open_run [unfolded app0_def]] by (auto simp: open_wallet_def)

text \<open>
  C29. A balance is that of a live wallet: from Redis it is the balance cached for it, from the
  database it is the row's, and reading it changes no row and at most writes that row's balance to
  the cache.
\<close>

theorem balance_source:
  assumes "app_laws E client" "GetBalance (app_wallets (wire E client cfg)) i w = (Inr resp, w')"
  shows "\<exists>wl. live_wallet (db w) i wl \<and> br_WalletID resp = i \<and> br_Currency resp = wallet_Currency wl \<and>
    db w' = db w \<and> streams w' = streams w \<and>
    (br_Source resp = ''redis'' \<and> cached (RT E) w i = Some (br_BalanceMinor resp) \<and> visible w' = visible w \<or>
     br_Source resp = ''database'' \<and> br_BalanceMinor resp = BalanceCachedMinor wl \<and>
       (cached (RT E) w' = cached (RT E) w \<or> cached (RT E) w' = (cached (RT E) w)(i \<mapsto> BalanceCachedMinor wl)))"
  by (rule app_laws.balance_read [OF assms])

theorem balance_source_witness:
  "\<exists>resp w'. GetBalance (app_wallets app0) 12 w_open = (Inr resp, w') \<and> db w' = db w_open"
  using balance_source [OF eng_app_laws balance_run [unfolded app0_def]] balance_run by blast

text \<open>
  C30. With a configuration that loads, a page of transactions has at most the maximal number of
  items, all of them matching transactions, whatever page and limit are asked for; the total is
  the number of the matching ones.
\<close>

theorem page_bounds:
  assumes "app_laws E client" "Load env = Inr cfg"
    and "TransactionService_List (app_transactions (wire E client cfg)) page limit f w = (Inr resp, w')"
  shows "visible w' = visible w \<and> 0 < sint (Page resp) \<and> 0 < sint (Limit resp) \<and>
    sint (Limit resp) \<le> sint (MaxPageLimit cfg) \<and> int (length (Items resp)) \<le> sint (Limit resp) \<and>
    set (Items resp) \<subseteq> TransactionFromModel ` {t \<in> set (transactions (db w)). filters_match f t} \<and>
    Total resp = of_nat (length (filter (filters_match f) (transactions (db w))))"
  by (rule app_laws.list_page [OF assms(1,3) Load_limits(2,3) [OF assms(2)]])

theorem page_bounds_witness: "\<exists>resp w'. TransactionService_List (app_transactions app0) (- 3) 1000 no_filters w_paid =
    (Inr resp, w') \<and> int (length (Items resp)) \<le> 100"
proof -
  have "MaxPageLimit cfg0 = 100" by (simp add: cfg0_def Load_def envInt_def envString_def Let_def)
  with page_bounds [OF eng_app_laws cfg0_loads list_run [unfolded app0_def]] list_run show ?thesis
    by (force simp: app0_def)
qed

section \<open>The cache\<close>





text \<open>
  C33. The cache is refreshed after the commit, so requests may refresh it in another order than they
  committed. A late refresh writes the balance of its commit; the entry is right exactly if
  the balance has not changed since. Redis need not fail for an old balance to be left behind.
\<close>

theorem refresh_race:
  assumes "app_laws E client" "interleaved (wire E client cfg) s0 w" "db s0 = empty_db"
    and "money_body (app_transactions (wire E client cfg)) body"
    and "withTransaction E body w = (Inr (resp, ws), w1)" "interleaved (wire E client cfg) w1 w2"
    and "sets_reliable client"
    and "touchedWallets (ts_cacheStore (app_transactions (wire E client cfg))) ws w2 = (r, w3)" "x \<in> set ws"
  shows "cached (RT E) w3 (ID x) = balances (db w1) (ID x) \<and>
    (cached (RT E) w3 (ID x) = balances (db w3) (ID x) \<longleftrightarrow> balances (db w2) (ID x) = balances (db w1) (ID x))"
proof -
  have "inv_db (RT E) (db w)"
    by (rule app_laws.interleaved_inv [OF assms(1,2)]) (simp add: assms(3) inv_db_empty)
  from app_laws.late_refresh [OF assms(1) this assms(4-9)] show ?thesis .
qed

theorem refresh_race_witness: "cached eng_runtime w_late 12 = Some 300 \<and> balances (db w_more) 12 = Some 800 \<and>
    cached eng_runtime w_late 12 \<noteq> balances (db w_late) 12"
proof -
  note steady = steady_app_laws
  have 1: "interleaved (wire eng_env steady_redis cfg0) w0 w_topup"
    by (rule app_laws.reachable_interleaved [OF steady steady_reachable [unfolded app1_def]])
  have 2: "interleaved (wire eng_env steady_redis cfg0) w_spent w_more" unfolding w_more_def app1_def
    by (rule app_laws.reachable_interleaved [OF steady reachable_one [OF api_step.top_up [OF prod.collapse [symmetric]]]])
  obtain r where r: "touchedWallets (ts_cacheStore (app_transactions app1)) spent_rows w_more = (r, w_late)"
    using late_run by blast
  have x: "wallet_row 12 1005 10 300 1022 \<in> set spent_rows" "ID (wallet_row 12 1005 10 300 1022) = 12"
    by (simp_all add: spent_rows_def wallet_row_def)
  have "Some (800 :: int64) \<noteq> Some 300" by simp
  with refresh_race [OF steady 1 run_start(1) money_bodyI(2) spent_run [unfolded app1_def] 2 steady_sets
      r [unfolded app1_def] x(1)] more_balances
  show ?thesis unfolding x(2) eng_runtime_RT by metis
qed

section \<open>Round trips and equivalences\<close>

text \<open>
  C34. The JSON the program stores decodes to what it was made of: the payload in the outbox to its
  event, the response with an idempotency key to itself. Metadata is the one exception, and it does
  not arise: an empty map is dropped by \<open>omitempty\<close>, and the services turn it into none.
\<close>

theorem stored_json_decodes:
  assumes "runtime_laws R"
  shows "ParsePayload R (payload_to_json R p) = Inr p \<and>
    response_of_json R (response_to_json R (TransactionFromModel (t\<lparr>MetadataJSON := toJSONMap m\<rparr>))) =
      Inr (TransactionFromModel (t\<lparr>MetadataJSON := toJSONMap m\<rparr>))"
  using runtime_laws.payload_roundtrip [OF assms] runtime_laws.response_json_roundtrip [OF assms]
  by (simp add: TransactionFromModel_def)

theorem stored_json_decodes_witness:
  "response_of_json eng_runtime (response_to_json eng_runtime
      (TransactionFromModel (tx2\<lparr>MetadataJSON := toJSONMap (Some [(''note'', JStr ''rent'')])\<rparr>))) =
    Inr (TransactionFromModel (tx2\<lparr>MetadataJSON := toJSONMap (Some [(''note'', JStr ''rent'')])\<rparr>))"
  using stored_json_decodes [OF eng_runtime.runtime_laws_axioms] by blast





section \<open>The background and the start\<close>

text \<open>
  C37. The worker's loop returns exactly if some select finds the context done, whatever its batches
  report: it has run one batch at the start and one per tick before that, each in the world the one
  before it left, and none after.
\<close>

theorem worker_stops:
  "worker_loop W found 0 w = (if \<exists>n. found n = Done
      then Some (snd (worker_run W (LEAST n. found n = Done) w)) else None) \<and>
    worker_run W ticks w = (Inr (), ((\<lambda>v. snd (PublishPending W v)) ^^ Suc ticks) w)"
  using worker_loop_stops worker_iterates by (rule conjI)



text \<open>
  C39. A status change reads the wallet without a lock and later saves all its columns. If other
  operations come between, the balance goes back to what it was when the wallet was read, and the
  books agree afterwards exactly if the balance had not changed.
\<close>

theorem status_race_books:
  assumes "app_laws E client" "deployed (wire E client cfg) w"
    and "WalletRepository_GetByID E i w = (Inr wl, w1)" "reachable (wire E client cfg) w1 w2"
    and "status_write (app_wallets (wire E client cfg)) wl st w2 = (Inr resp, w3)"
  shows "balances (db w3) i = balances (db w) i \<and>
    (ledger_ok (db w3) \<longleftrightarrow> balances (db w2) i = balances (db w) i)"
  by (rule app_laws.status_race [OF assms])

theorem status_race_books_witness: "balances (db w_lost) 12 = Some 500 \<and> \<not> ledger_ok (db w_lost)"
proof -
  obtain resp where w: "status_write (app_wallets app0) (wallet_row 12 1005 10 500 1014) WalletStatusSuspended w_paid =
    (Inr resp, w_lost)" using stale_write by blast
  from status_race_books [OF eng_app_laws run_deployed(3) [unfolded app0_def] stale_read stale_paid [unfolded app0_def]
      w [unfolded app0_def]] race_balances show ?thesis by simp
qed



end
